(* ===== verification/Flex_Prelude.thy ===== *)
theory Flex_Prelude
  imports Main "HOL-Library.Word" "HOL-Library.Char_ord" "HOL-Library.List_Lexorder"
    "HOL-Library.Product_Lexorder"
begin

text \<open>
  The prelude of the FlexStore development: the types shared by the components (bytes,
  identifiers, instants and durations), Go's signed 64-bit arithmetic, the statements of SQL
  as list functions (a table is the list of its rows), and the generic lemmas the component
  theories use.

  Go strings are byte sequences, so they are \<^typ>\<open>string\<close>s (a \<^typ>\<open>char\<close> is a byte); the
  order of strings is Go's bytewise lexicographic order, which is the order of
  \<^theory_text>\<open>List_Lexorder\<close> over \<^theory_text>\<open>Char_ord\<close>.
  A UUID is its 128-bit value, ordered as PostgreSQL orders it (bytewise, big-endian).
  An instant is an integer number of nanoseconds since Go's zero time, so that
  \<^verbatim>\<open>time.Time{}\<close> is 0; a duration is an integer number of nanoseconds.
\<close>

named_theorems sql_simps \<open>unfolding of the SQL statements on tables\<close>

type_synonym byte = "8 word"
type_synonym bytes = "byte list"
type_synonym uuid = "128 word"
type_synonym node_id = string
type_synonym time = int
type_synonym duration = int

section \<open>Signed 64-bit arithmetic\<close>

text \<open>Go's \<^verbatim>\<open>int64\<close> (and \<^verbatim>\<open>int\<close> on the supported platforms) wraps around silently.\<close>

definition wrap64 :: "int \<Rightarrow> int" where
  "wrap64 x = (x + 2 ^ 63) mod 2 ^ 64 - 2 ^ 63"

definition int64 :: "int \<Rightarrow> bool" where
  "int64 x \<longleftrightarrow> - (2 ^ 63) \<le> x \<and> x < 2 ^ 63"

definition wrap32 :: "int \<Rightarrow> int" where
  "wrap32 x = (x + 2 ^ 31) mod 2 ^ 32 - 2 ^ 31"

lemma wrap64_id [simp]: "int64 x \<Longrightarrow> wrap64 x = x"
  by (simp add: wrap64_def int64_def)

lemma int64_wrap64 [simp]: "int64 (wrap64 x)"
  by (simp add: wrap64_def int64_def pos_mod_bound [of "2 ^ 64"])

lemma int64I: "0 \<le> x \<Longrightarrow> x < 2 ^ 63 \<Longrightarrow> int64 x"
  by (simp add: int64_def)

lemma wrap32_id: "- (2 ^ 31) \<le> x \<Longrightarrow> x < 2 ^ 31 \<Longrightarrow> wrap32 x = x"
  by (simp add: wrap32_def)

section \<open>SQL statements on tables\<close>

text \<open>
  \<^verbatim>\<open>UPDATE t SET .. WHERE P\<close>, \<^verbatim>\<open>DELETE FROM t WHERE P\<close>, \<^verbatim>\<open>COUNT(*) .. WHERE P\<close> and
  \<^verbatim>\<open>EXISTS (SELECT 1 FROM t WHERE P)\<close>. \<^verbatim>\<open>ORDER BY\<close> is \<^const>\<open>sort_key\<close> (stable, so rows
  that the ordering does not separate keep their order in the table, one of the results
  PostgreSQL may give), and \<^verbatim>\<open>LIMIT n\<close> is \<^const>\<open>take\<close>.
\<close>

definition sql_update :: "('r \<Rightarrow> bool) \<Rightarrow> ('r \<Rightarrow> 'r) \<Rightarrow> 'r list \<Rightarrow> 'r list" where
  "sql_update P f rows = map (\<lambda>r. if P r then f r else r) rows"

definition sql_delete :: "('r \<Rightarrow> bool) \<Rightarrow> 'r list \<Rightarrow> 'r list" where
  "sql_delete P rows = filter (\<lambda>r. \<not> P r) rows"

definition sql_count :: "('r \<Rightarrow> bool) \<Rightarrow> 'r list \<Rightarrow> nat" where
  "sql_count P rows = length (filter P rows)"

definition sql_exists :: "('r \<Rightarrow> bool) \<Rightarrow> 'r list \<Rightarrow> bool" where
  "sql_exists P rows = list_ex P rows"

definition sql_limit :: "int \<Rightarrow> 'r list \<Rightarrow> 'r list" where
  "sql_limit n rows = take (nat n) rows"

lemmas [sql_simps] = sql_update_def sql_delete_def sql_count_def sql_exists_def sql_limit_def

lemma sql_exists_iff [simp]: "sql_exists P rows \<longleftrightarrow> (\<exists>r\<in>set rows. P r)"
  by (simp add: sql_exists_def list_ex_iff)

lemma bex_key_iff: "(\<exists>r\<in>set rows. k r = x) \<longleftrightarrow> x \<in> k ` set rows"
  by auto

lemma set_sql_update: "set (sql_update P f rows) = (\<lambda>r. if P r then f r else r) ` set rows"
  by (simp add: sql_update_def)

lemma set_sql_delete [simp]: "set (sql_delete P rows) = {r \<in> set rows. \<not> P r}"
  by (simp add: sql_delete_def)

lemma in_sql_updateI:
  "r \<in> set rows \<Longrightarrow> P r \<Longrightarrow> f r \<in> set (sql_update P f rows)"
  "r \<in> set rows \<Longrightarrow> \<not> P r \<Longrightarrow> r \<in> set (sql_update P f rows)"
  by (force simp: set_sql_update)+

lemma in_sql_updateE:
  assumes "r \<in> set (sql_update P f rows)"
  obtains r0 where "r0 \<in> set rows" "\<not> P r0" "r = r0"
    | r0 where "r0 \<in> set rows" "P r0" "r = f r0"
  using assms by (auto simp: set_sql_update split: if_splits)

lemma in_sql_update_key:
  "r \<in> set (sql_update (\<lambda>r. k r = x) f rows) \<Longrightarrow> k r = x \<Longrightarrow> \<exists>r0\<in>set rows. k r0 = x \<and> r = f r0"
  by (erule in_sql_updateE) auto

lemma image_sql_update [simp]:
  "(\<And>r. P r \<Longrightarrow> k (f r) = k r) \<Longrightarrow> k ` set (sql_update P f rows) = k ` set rows"
  unfolding set_sql_update image_image by (rule image_cong) auto

lemma map_sql_update [simp]:
  "(\<And>r. P r \<Longrightarrow> k (f r) = k r) \<Longrightarrow> map k (sql_update P f rows) = map k rows"
  by (simp add: sql_update_def)

lemma length_sql_update [simp]: "length (sql_update P f rows) = length rows"
  by (simp add: sql_update_def)

lemma sql_update_Nil [simp]: "sql_update P f [] = []"
  by (simp add: sql_update_def)

lemma sql_update_append: "sql_update P f (xs @ ys) = sql_update P f xs @ sql_update P f ys"
  by (simp add: sql_update_def)

lemma sql_update_none: "(\<And>r. r \<in> set rows \<Longrightarrow> \<not> P r) \<Longrightarrow> sql_update P f rows = rows"
  by (simp add: sql_update_def map_idI)

lemma distinct_map_delete: "distinct (map k rows) \<Longrightarrow> distinct (map k (sql_delete P rows))"
  by (simp add: sql_delete_def distinct_map inj_on_def)

lemma sql_count_append: "sql_count P (xs @ ys) = sql_count P xs + sql_count P ys"
  by (simp add: sql_count_def)

lemma sql_count_0_iff: "sql_count P rows = 0 \<longleftrightarrow> (\<forall>r\<in>set rows. \<not> P r)"
  by (auto simp: sql_count_def filter_empty_conv)

lemma sql_count_all: "sql_count P rows = length rows \<longleftrightarrow> (\<forall>r\<in>set rows. P r)"
  using length_filter_less [of _ rows P] by (auto simp: sql_count_def) (metis less_irrefl)

lemma set_sql_limit: "set (sql_limit n rows) \<subseteq> set rows"
  by (simp add: sql_limit_def set_take_subset)

lemma distinct_map_filter_update:
  assumes "distinct (map k (filter Q rows))"
    and "\<And>r. r \<in> set rows \<Longrightarrow> P r \<Longrightarrow> Q (f r) \<Longrightarrow> Q r \<and> k (f r) = k r"
  shows "distinct (map k (filter Q (sql_update P f rows)))"
  using assms
proof (induction rows)
  case Nil
  then show ?case by simp
next
  case (Cons r rows)
  have sub: "k ` set (filter Q (sql_update P f rows)) \<subseteq> k ` set (filter Q rows)"
    using Cons.prems(2) by (force simp: set_sql_update)
  have IH: "distinct (map k (filter Q (sql_update P f rows)))"
    using Cons by (auto split: if_splits)
  show ?case
    using Cons.prems IH sub by (auto simp: sql_update_def split: if_splits)
qed

lemma distinct_map_filterI: "distinct (map k rows) \<Longrightarrow> distinct (map k (filter Q rows))"
  by (simp add: distinct_map inj_on_def)

lemma distinct_map_unique:
  "distinct (map k rows) \<Longrightarrow> r \<in> set rows \<Longrightarrow> r' \<in> set rows \<Longrightarrow> k r = k r' \<Longrightarrow> r = r'"
  by (simp add: distinct_map inj_on_def)

lemma find_Some_distinct:
  assumes "distinct (map k rows)" and "r \<in> set rows"
  shows "find (\<lambda>x. k x = k r) rows = Some r"
  using assms by (induction rows) auto

lemma find_Some_in: "find P rows = Some r \<Longrightarrow> r \<in> set rows \<and> P r"
  by (auto simp: find_Some_iff)

lemma find_None_not: "find P rows = None \<Longrightarrow> r \<in> set rows \<Longrightarrow> \<not> P r"
  by (auto simp: find_None_iff)

end
