(* ===== verification/Health.thy ===== *)
theory Health
  imports Flex_Prelude "HOL-Library.AList"
begin

text \<open>
  \<^verbatim>\<open>internal/health/health.go\<close>: the classification of storage nodes by the age of their last
  heartbeat, and the Monitor that keeps the classification of every node and reports changes.

  The Monitor's map from node IDs is an association list with distinct keys; a Go map is
  iterated in an arbitrary order, which is the order of the list. The clock is an argument of
  every operation that reads it, once per reading.
\<close>

section \<open>States and thresholds\<close>

datatype state = StateUnknown | StateHealthy | StateSuspect | StateDead

definition String :: "state \<Rightarrow> string" where
  "String s = (case s of
       StateHealthy \<Rightarrow> ''HEALTHY''
     | StateSuspect \<Rightarrow> ''SUSPECT''
     | StateDead \<Rightarrow> ''DEAD''
     | StateUnknown \<Rightarrow> ''UNKNOWN'')"

text \<open>The error of \<^verbatim>\<open>ParseState\<close> carries the string it could not parse.\<close>

definition ParseState :: "string \<Rightarrow> string + state" where
  "ParseState s =
     (if s = ''HEALTHY'' then Inr StateHealthy
      else if s = ''SUSPECT'' then Inr StateSuspect
      else if s = ''DEAD'' then Inr StateDead
      else if s = ''UNKNOWN'' \<or> s = '''' then Inr StateUnknown
      else Inl s)"

record thresholds =
  SuspectAfter :: duration
  DeadAfter :: duration

text \<open>
  \<^verbatim>\<open>Time.Sub\<close> of the standard library: the difference, saturated at the largest and the
  smallest \<^verbatim>\<open>Duration\<close>.
\<close>

definition time_sub :: "time \<Rightarrow> time \<Rightarrow> duration" where
  "time_sub t u = max (- (2 ^ 63)) (min (2 ^ 63 - 1) (t - u))"

definition Classify :: "time \<Rightarrow> time \<Rightarrow> thresholds \<Rightarrow> state" where
  "Classify lastHeartbeat now t =
     (if lastHeartbeat = 0 then StateDead
      else let age = time_sub now lastHeartbeat in
        if age \<ge> DeadAfter t then StateDead
        else if age \<ge> SuspectAfter t then StateSuspect
        else StateHealthy)"

section \<open>The Monitor\<close>

record transition =
  tr_NodeID :: node_id
  tr_From :: state
  tr_To :: state
  tr_At :: time
  tr_Age :: duration
  tr_Address :: string

record snapshot =
  sn_NodeID :: node_id
  sn_Address :: string
  sn_State :: state
  sn_LastHeartbeat :: time

record node_state =
  ns_address :: string
  ns_state :: state
  ns_lastHeartbeat :: time

record monitor =
  m_thresholds :: thresholds
  m_nodes :: "(node_id \<times> node_state) list"

definition NewMonitor :: "thresholds \<Rightarrow> monitor" where
  "NewMonitor t = \<lparr>m_thresholds = t, m_nodes = []\<rparr>"

text \<open>
  \<^verbatim>\<open>Observe\<close> reads the clock up to three times: \<open>now1\<close> for the classification, \<open>now2\<close> and
  \<open>now3\<close> for the fields of the transition.
\<close>

definition Observe ::
  "monitor \<Rightarrow> node_id \<Rightarrow> string \<Rightarrow> time \<Rightarrow> time \<Rightarrow> time \<Rightarrow> time \<Rightarrow> transition option \<times> monitor"
where
  "Observe m nodeID address at now1 now2 now3 =
     (let ns0 = (case map_of (m_nodes m) nodeID of
                   Some ns \<Rightarrow> ns
                 | None \<Rightarrow> \<lparr>ns_address = '''', ns_state = StateUnknown, ns_lastHeartbeat = 0\<rparr>);
          m0 = m\<lparr>m_nodes := AList.update nodeID ns0 (m_nodes m)\<rparr>
      in if at < ns_lastHeartbeat ns0 then (None, m0)
         else
           let prev = ns_state ns0;
               ns1 = \<lparr>ns_address = address, ns_state = Classify at now1 (m_thresholds m),
                      ns_lastHeartbeat = at\<rparr>;
               m1 = m\<lparr>m_nodes := AList.update nodeID ns1 (m_nodes m0)\<rparr>
           in if ns_state ns1 = prev then (None, m1)
              else (Some \<lparr>tr_NodeID = nodeID, tr_From = prev, tr_To = ns_state ns1, tr_At = now2,
                          tr_Age = time_sub now3 at, tr_Address = address\<rparr>, m1))"

definition Seed :: "monitor \<Rightarrow> node_id \<Rightarrow> string \<Rightarrow> time \<Rightarrow> time \<Rightarrow> monitor" where
  "Seed m nodeID address lastHeartbeat now =
     m\<lparr>m_nodes := AList.update nodeID
         \<lparr>ns_address = address, ns_state = Classify lastHeartbeat now (m_thresholds m),
          ns_lastHeartbeat = lastHeartbeat\<rparr> (m_nodes m)\<rparr>"

text \<open>The loop of \<^verbatim>\<open>Sweep\<close> over the nodes.\<close>

fun sweep_nodes :: "thresholds \<Rightarrow> time \<Rightarrow> (node_id \<times> node_state) list
    \<Rightarrow> transition list \<times> (node_id \<times> node_state) list" where
  "sweep_nodes t now [] = ([], [])"
| "sweep_nodes t now ((i, ns) # rest) =
     (let nxt = Classify (ns_lastHeartbeat ns) now t;
          (out, rest') = sweep_nodes t now rest
      in if nxt = ns_state ns then (out, (i, ns) # rest')
         else (\<lparr>tr_NodeID = i, tr_From = ns_state ns, tr_To = nxt, tr_At = now,
                tr_Age = time_sub now (ns_lastHeartbeat ns), tr_Address = ns_address ns\<rparr> # out,
               (i, ns\<lparr>ns_state := nxt\<rparr>) # rest'))"

definition Sweep :: "monitor \<Rightarrow> time \<Rightarrow> transition list \<times> monitor" where
  "Sweep m now =
     (case sweep_nodes (m_thresholds m) now (m_nodes m) of
        (out, nodes) \<Rightarrow> (out, m\<lparr>m_nodes := nodes\<rparr>))"

definition State :: "monitor \<Rightarrow> node_id \<Rightarrow> state" where
  "State m nodeID = (case map_of (m_nodes m) nodeID of Some ns \<Rightarrow> ns_state ns | None \<Rightarrow> StateUnknown)"

definition Snapshot :: "monitor \<Rightarrow> snapshot list" where
  "Snapshot m = map (\<lambda>(i, ns). \<lparr>sn_NodeID = i, sn_Address = ns_address ns, sn_State = ns_state ns,
                     sn_LastHeartbeat = ns_lastHeartbeat ns\<rparr>) (m_nodes m)"

definition Forget :: "monitor \<Rightarrow> node_id \<Rightarrow> monitor" where
  "Forget m nodeID = m\<lparr>m_nodes := AList.delete nodeID (m_nodes m)\<rparr>"

section \<open>Classification\<close>

text \<open>How far a state is from healthy.\<close>

definition severity :: "state \<Rightarrow> nat" where
  "severity s = (case s of StateUnknown \<Rightarrow> 0 | StateHealthy \<Rightarrow> 1 | StateSuspect \<Rightarrow> 2 | StateDead \<Rightarrow> 3)"

lemma time_sub_mono: "t \<le> t' \<Longrightarrow> time_sub t u \<le> time_sub t' u"
  by (auto simp: time_sub_def)

lemma Classify_mono:
  "now \<le> now' \<Longrightarrow> severity (Classify l now t) \<le> severity (Classify l now' t)"
  using time_sub_mono [of now now' l] by (auto simp: Classify_def severity_def Let_def)

lemma Classify_not_Unknown [simp]: "Classify l now t \<noteq> StateUnknown"
  by (simp add: Classify_def Let_def)

section \<open>Sweeping\<close>

definition transition_of :: "thresholds \<Rightarrow> time \<Rightarrow> node_id \<Rightarrow> node_state \<Rightarrow> transition" where
  "transition_of t now i ns =
     \<lparr>tr_NodeID = i, tr_From = ns_state ns, tr_To = Classify (ns_lastHeartbeat ns) now t,
      tr_At = now, tr_Age = time_sub now (ns_lastHeartbeat ns), tr_Address = ns_address ns\<rparr>"

lemma sweep_nodes_eq:
  "sweep_nodes t now nodes =
     (map (\<lambda>(i, ns). transition_of t now i ns)
        (filter (\<lambda>(i, ns). Classify (ns_lastHeartbeat ns) now t \<noteq> ns_state ns) nodes),
      map (\<lambda>(i, ns). (i, ns\<lparr>ns_state := Classify (ns_lastHeartbeat ns) now t\<rparr>)) nodes)"
  by (induction t now nodes rule: sweep_nodes.induct) (auto simp: Let_def transition_of_def)

lemma map_of_map_snd:
  "map_of (map (\<lambda>(i, v). (i, f v)) al) k = map_option f (map_of al k)"
  by (induction al) auto

lemma State_Sweep:
  "State (snd (Sweep m now)) n =
     (case map_of (m_nodes m) n of None \<Rightarrow> StateUnknown
      | Some ns \<Rightarrow> Classify (ns_lastHeartbeat ns) now (m_thresholds m))"
  by (auto simp: State_def Sweep_def sweep_nodes_eq map_of_map_snd split: option.splits)

lemma Sweep_twice: "fst (Sweep (snd (Sweep m now)) now) = []"
  by (auto simp: Sweep_def sweep_nodes_eq filter_empty_conv)

lemma set_Sweep:
  assumes "distinct (map fst (m_nodes m))"
  shows "set (fst (Sweep m now)) = {transition_of (m_thresholds m) now n ns | n ns.
     map_of (m_nodes m) n = Some ns
     \<and> Classify (ns_lastHeartbeat ns) now (m_thresholds m) \<noteq> ns_state ns}"
  by (auto simp: Sweep_def sweep_nodes_eq map_of_eq_Some_iff [OF assms] image_iff)

section \<open>Properties\<close>

text \<open>
  C24 (\<^verbatim>\<open>Sweep\<close> brings the monitor up to date). After a sweep at time \<open>now\<close> every tracked
  node's state is the classification of its last heartbeat at \<open>now\<close>; a transition is
  reported for exactly the nodes whose state changed, from the old state to the new one; and a
  second sweep at the same time reports nothing.
\<close>

theorem sweep_up_to_date:
  assumes "distinct (map fst (m_nodes m))" "Sweep m now = (trs, m')"
  shows "(\<forall>n. State m' n =
            (case map_of (m_nodes m) n of None \<Rightarrow> StateUnknown
             | Some ns \<Rightarrow> Classify (ns_lastHeartbeat ns) now (m_thresholds m)))
     \<and> tr_NodeID ` set trs = {n. State m' n \<noteq> State m n}
     \<and> (\<forall>tr \<in> set trs. tr_From tr = State m (tr_NodeID tr) \<and> tr_To tr = State m' (tr_NodeID tr))
     \<and> fst (Sweep m' now) = []"
proof -
  have m': "m' = snd (Sweep m now)" and trs: "trs = fst (Sweep m now)" using assms(2) by auto
  have st: "State m' n = (case map_of (m_nodes m) n of None \<Rightarrow> StateUnknown
      | Some ns \<Rightarrow> Classify (ns_lastHeartbeat ns) now (m_thresholds m))" for n
    by (simp add: m' State_Sweep)
  have changed: "n \<in> tr_NodeID ` set trs" if neq: "State m' n \<noteq> State m n" for n
  proof -
    obtain ns where "map_of (m_nodes m) n = Some ns"
      "Classify (ns_lastHeartbeat ns) now (m_thresholds m) \<noteq> ns_state ns"
      using neq unfolding st by (auto simp: State_def split: option.splits)
    then have "transition_of (m_thresholds m) now n ns \<in> set trs"
      unfolding trs set_Sweep [OF assms(1)] by auto
    then show ?thesis by (force simp: transition_of_def)
  qed
  have tr: "State m' (tr_NodeID tr) \<noteq> State m (tr_NodeID tr)
      \<and> tr_From tr = State m (tr_NodeID tr) \<and> tr_To tr = State m' (tr_NodeID tr)"
    if "tr \<in> set trs" for tr
    using that unfolding trs set_Sweep [OF assms(1)] st by (auto simp: State_def transition_of_def)
  show ?thesis using st changed tr Sweep_twice [of m now] by (auto simp: m')
qed

theorem sweep_up_to_date_witness:
  "let m = \<lparr>m_thresholds = \<lparr>SuspectAfter = 10, DeadAfter = 30\<rparr>,
            m_nodes = [(''n1'', \<lparr>ns_address = ''a'', ns_state = StateHealthy, ns_lastHeartbeat = 5\<rparr>)]\<rparr>
   in State (snd (Sweep m 20)) ''n1'' = StateSuspect
      \<and> tr_NodeID ` set (fst (Sweep m 20)) = {n. State (snd (Sweep m 20)) n \<noteq> State m n}"
proof -
  define m where "m = \<lparr>m_thresholds = \<lparr>SuspectAfter = 10, DeadAfter = 30\<rparr>,
    m_nodes = [(''n1'', \<lparr>ns_address = ''a'', ns_state = StateHealthy, ns_lastHeartbeat = 5\<rparr>)]\<rparr>"
  have "distinct (map fst (m_nodes m))" by (simp add: m_def)
  from sweep_up_to_date [OF this surjective_pairing [of "Sweep m 20"]]
  show ?thesis
    by (simp add: m_def [symmetric] Let_def) (simp add: m_def Classify_def time_sub_def Let_def)
qed



text \<open>
  Heartbeats. A heartbeat older than the one already recorded changes neither the state nor
  the recorded time of the node and reports nothing; any other heartbeat is recorded and
  classified, and a transition is reported exactly when the state changed. No other node is
  affected.
\<close>

lemma observe_effect:
  fixes m now1 now2 now3
  assumes "Observe m n address at now1 now2 now3 = (tr, m')"
  defines "l \<equiv> (case map_of (m_nodes m) n of None \<Rightarrow> 0 | Some ns \<Rightarrow> ns_lastHeartbeat ns)"
  shows "(\<forall>n'. n' \<noteq> n \<longrightarrow> map_of (m_nodes m') n' = map_of (m_nodes m) n')
     \<and> (at < l \<longrightarrow> tr = None \<and> State m' n = State m n
          \<and> (case map_of (m_nodes m') n of None \<Rightarrow> 0 | Some ns \<Rightarrow> ns_lastHeartbeat ns) = l)
     \<and> (l \<le> at \<longrightarrow>
          map_of (m_nodes m') n = Some \<lparr>ns_address = address, ns_state = Classify at now1 (m_thresholds m),
                                        ns_lastHeartbeat = at\<rparr>
          \<and> (tr = None \<longleftrightarrow> State m' n = State m n)
          \<and> (\<forall>t. tr = Some t \<longrightarrow> tr_From t = State m n \<and> tr_To t = State m' n))"
  using assms
  by (auto simp: Observe_def State_def Let_def update_conv' split: option.splits if_splits)

theorem observe_effect_witness:
  "map_of (m_nodes (snd (Observe (NewMonitor \<lparr>SuspectAfter = 1, DeadAfter = 2\<rparr>) ''n'' ''a'' 7 7 7 7))) ''n''
     = Some \<lparr>ns_address = ''a'', ns_state = StateHealthy, ns_lastHeartbeat = 7\<rparr>"
  using observe_effect [of "NewMonitor \<lparr>SuspectAfter = 1, DeadAfter = 2\<rparr>" "''n''" "''a''" 7 7 7 7
      "fst (Observe (NewMonitor \<lparr>SuspectAfter = 1, DeadAfter = 2\<rparr>) ''n'' ''a'' 7 7 7 7)"
      "snd (Observe (NewMonitor \<lparr>SuspectAfter = 1, DeadAfter = 2\<rparr>) ''n'' ''a'' 7 7 7 7)"]
  by (simp add: NewMonitor_def Classify_def time_sub_def)

end
