(* ===== verification/Metadata_State.thy ===== *)
theory Metadata_State
  imports Health
begin

text \<open>
  The coordinator's durable state: the tables of \<^verbatim>\<open>migrations/0001_init.sql\<close> and
  \<^verbatim>\<open>migrations/0002_self_healing.sql\<close>, the state types of \<^verbatim>\<open>internal/metadata/types.go\<close>, the
  trigger that maintains \<^verbatim>\<open>chunks.available_replicas\<close>, foreign keys with their cascades, and
  transactions (\<^verbatim>\<open>Store.inTx\<close>).

  A table is the list of its rows. Text columns that the schema restricts to an enumeration are
  datatypes. \<^verbatim>\<open>now()\<close> is an argument of the operations, one value per call, as PostgreSQL's
  \<^verbatim>\<open>now()\<close> is constant in a transaction; \<^verbatim>\<open>uuid.New()\<close> is an argument as well, and an INSERT of a
  key that is already present is an error. Text is compared bytewise, the order of the collation
  of the PostgreSQL image the repository deploys. Errors of the database itself (a lost
  connection, a deadlock) do not change the state and are left out.

  The invariant \<open>wf_db\<close> collects the schema's constraints together with the facts the code relies
  on (the counter is exact, identifiers are below their sequence); the lemmas \<open>wf_intros\<close> say
  which statements keep it.
\<close>

section \<open>State types\<close>

datatype object_state = ObjectUploading | ObjectComplete | ObjectDeleting | ObjectFailed

datatype chunk_state = ChunkPending | ChunkCommitted | ChunkOrphaned

datatype replica_state =
    ReplicaWriting | ReplicaAvailable | ReplicaUnavailable | ReplicaDeleting
  | ReplicaCorrupt | ReplicaStale

datatype job_state = JobPending | JobRunning | JobSucceeded | JobFailed

datatype multipart_state =
  MultipartInProgress | MultipartCompleting | MultipartCompleted | MultipartAborted

datatype part_state = PartUploading | PartComplete | PartFailed

text \<open>
  The errors a method of the Store returns: the sentinel errors of the package, the constraint
  violations of the database, and \<^verbatim>\<open>pgx.ErrNoRows\<close> where the code passes it on.
\<close>

datatype db_error =
    ErrNotFound | ErrConflict | ErrDurabilityNotMet | ErrNoRepairWork | ErrNoReconcileWork
  | UniqueViolation | ForeignKeyViolation | CheckViolation | ErrNoRows

section \<open>Rows\<close>

record node_row =
  n_id :: node_id
  n_address :: string
  n_health :: state
  n_total :: int
  n_used :: int
  n_avail :: int
  n_chunk_count :: int
  n_active :: int
  n_last_heartbeat :: "time option"
  n_registered :: time
  n_updated :: time

record object_row =
  o_id :: uuid
  o_bucket :: string
  o_key :: string
  o_version :: int
  o_state :: object_state
  o_size :: int
  o_chunk_size :: int
  o_chunk_count :: int
  o_etag :: "string option"
  o_content_type :: string
  o_failure :: "string option"
  o_created :: time
  o_updated :: time
  o_completed :: "time option"
  o_deleted :: "time option"

record upload_row =
  u_id :: uuid
  u_bucket :: string
  u_key :: string
  u_state :: multipart_state
  u_chunk_size :: int
  u_content_type :: string
  u_object_id :: "uuid option"
  u_created :: time
  u_updated :: time
  u_completed :: "time option"

record part_row =
  p_id :: uuid
  p_upload_id :: uuid
  p_number :: int
  p_state :: part_state
  p_size :: int
  p_chunk_count :: int
  p_etag :: "string option"
  p_created :: time
  p_updated :: time
  p_completed :: "time option"

record chunk_row =
  c_id :: uuid
  c_object_id :: "uuid option"
  c_part_id :: "uuid option"
  c_index :: int
  c_size :: int
  c_checksum :: "string option"
  c_state :: chunk_state
  c_available :: int
  c_created :: time
  c_committed :: "time option"

record replica_row =
  r_chunk :: uuid
  r_node :: node_id
  r_state :: replica_state
  r_created :: time
  r_updated :: time
  r_verified :: "time option"
  r_last_error :: "string option"

record deletion_row =
  d_id :: int
  d_chunk :: uuid
  d_node :: node_id
  d_attempts :: int
  d_last_error :: "string option"
  d_created :: time
  d_next :: time

record job_row =
  j_id :: int
  j_chunk :: uuid
  j_state :: job_state
  j_source :: "node_id option"
  j_target :: "node_id option"
  j_attempts :: int
  j_last_error :: "string option"
  j_owner :: "string option"
  j_lease :: "time option"
  j_next :: time
  j_created :: time
  j_updated :: time
  j_finished :: "time option"

record recon_row =
  q_id :: int
  q_node :: node_id
  q_state :: job_state
  q_seen :: int
  q_orphans :: int
  q_phantoms :: int
  q_verified :: int
  q_corrupt :: int
  q_last_error :: "string option"
  q_owner :: "string option"
  q_lease :: "time option"
  q_created :: time
  q_updated :: time
  q_finished :: "time option"

text \<open>
  The database: the tables, and the sequences of the three \<^verbatim>\<open>BIGSERIAL\<close> columns. A sequence
  yields a value for every row an INSERT attempts, also one that \<^verbatim>\<open>ON CONFLICT DO NOTHING\<close> drops.
\<close>

record db =
  storage_nodes :: "node_row list"
  objects :: "object_row list"
  multipart_uploads :: "upload_row list"
  multipart_parts :: "part_row list"
  chunks :: "chunk_row list"
  chunk_replicas :: "replica_row list"
  chunk_deletions :: "deletion_row list"
  repair_jobs :: "job_row list"
  node_reconciliations :: "recon_row list"
  seq_deletions :: int
  seq_jobs :: int
  seq_recons :: int

definition empty_db :: db where
  "empty_db = \<lparr>storage_nodes = [], objects = [], multipart_uploads = [], multipart_parts = [],
     chunks = [], chunk_replicas = [], chunk_deletions = [], repair_jobs = [],
     node_reconciliations = [], seq_deletions = 1, seq_jobs = 1, seq_recons = 1\<rparr>"

section \<open>Transactions\<close>

text \<open>
  The body of a transaction reads and changes the database and may fail; \<^verbatim>\<open>inTx\<close> commits what a
  successful body did and rolls back a failed one. A statement sent outside \<^verbatim>\<open>inTx\<close> is a
  transaction of its own. (The values a rolled back body drew from a sequence are drawn again in
  the model, PostgreSQL skips them; the code only compares such identifiers for equality.)
\<close>

type_synonym 'a tx = "db \<Rightarrow> db_error + 'a \<times> db"

definition inTx :: "'a tx \<Rightarrow> db \<Rightarrow> (db_error + 'a) \<times> db" where
  "inTx body db = (case body db of Inl e \<Rightarrow> (Inl e, db) | Inr (x, db') \<Rightarrow> (Inr x, db'))"

section \<open>The durability trigger\<close>

text \<open>
  \<^verbatim>\<open>flexstore_refresh_available_replicas\<close>: recount the AVAILABLE replicas of one chunk. It runs
  after a statement on \<^verbatim>\<open>chunk_replicas\<close>, once per inserted, updated or deleted row.
\<close>

definition available_count :: "replica_row list \<Rightarrow> uuid \<Rightarrow> int" where
  "available_count rows cid =
     int (sql_count (\<lambda>r. r_chunk r = cid \<and> r_state r = ReplicaAvailable) rows)"

definition refresh_available_replicas :: "uuid \<Rightarrow> db \<Rightarrow> db" where
  "refresh_available_replicas target db =
     db\<lparr>chunks := sql_update (\<lambda>c. c_id c = target)
          (\<lambda>c. c\<lparr>c_available := available_count (chunk_replicas db) target\<rparr>) (chunks db)\<rparr>"

definition update_replicas :: "(replica_row \<Rightarrow> bool) \<Rightarrow> (replica_row \<Rightarrow> replica_row) \<Rightarrow> db \<Rightarrow> db" where
  "update_replicas P f db =
     fold refresh_available_replicas (map r_chunk (filter P (chunk_replicas db)))
       (db\<lparr>chunk_replicas := sql_update P f (chunk_replicas db)\<rparr>)"

definition delete_replicas :: "(replica_row \<Rightarrow> bool) \<Rightarrow> db \<Rightarrow> db" where
  "delete_replicas P db =
     fold refresh_available_replicas (map r_chunk (filter P (chunk_replicas db)))
       (db\<lparr>chunk_replicas := sql_delete P (chunk_replicas db)\<rparr>)"

text \<open>
  \<^verbatim>\<open>INSERT INTO chunk_replicas .. ON CONFLICT (chunk_id, node_id) DO UPDATE SET ..\<close>: the new row
  must reference an existing chunk and an existing node.
\<close>

definition upsert_replica :: "replica_row \<Rightarrow> (replica_row \<Rightarrow> replica_row) \<Rightarrow> db \<Rightarrow> db_error + db" where
  "upsert_replica row f db =
     (if sql_exists (\<lambda>r. r_chunk r = r_chunk row \<and> r_node r = r_node row) (chunk_replicas db)
      then Inr (update_replicas (\<lambda>r. r_chunk r = r_chunk row \<and> r_node r = r_node row) f db)
      else if sql_exists (\<lambda>c. c_id c = r_chunk row) (chunks db)
              \<and> sql_exists (\<lambda>n. n_id n = r_node row) (storage_nodes db)
      then Inr (refresh_available_replicas (r_chunk row)
                  (db\<lparr>chunk_replicas := chunk_replicas db @ [row]\<rparr>))
      else Inl ForeignKeyViolation)"

section \<open>Foreign keys\<close>

text \<open>
  Deleting chunks removes their replicas and repair jobs (\<^verbatim>\<open>ON DELETE CASCADE\<close>); the trigger finds
  no chunk to update. Deleting objects or parts removes their chunks; deleting an object resets
  the reference of the upload that produced it (\<^verbatim>\<open>ON DELETE SET NULL\<close>).
\<close>

definition delete_chunks :: "(chunk_row \<Rightarrow> bool) \<Rightarrow> db \<Rightarrow> db" where
  "delete_chunks P db =
     (let gone = map c_id (filter P (chunks db)) in
      db\<lparr>chunks := sql_delete P (chunks db),
         chunk_replicas := sql_delete (\<lambda>r. r_chunk r \<in> set gone) (chunk_replicas db),
         repair_jobs := sql_delete (\<lambda>j. j_chunk j \<in> set gone) (repair_jobs db)\<rparr>)"

definition delete_objects :: "(object_row \<Rightarrow> bool) \<Rightarrow> db \<Rightarrow> db" where
  "delete_objects P db =
     (let gone = map o_id (filter P (objects db)) in
      delete_chunks (\<lambda>c. c_object_id c \<in> Some ` set gone)
        (db\<lparr>objects := sql_delete P (objects db),
            multipart_uploads := sql_update (\<lambda>u. u_object_id u \<in> Some ` set gone)
               (\<lambda>u. u\<lparr>u_object_id := None\<rparr>) (multipart_uploads db)\<rparr>))"

definition delete_uploads :: "(upload_row \<Rightarrow> bool) \<Rightarrow> db \<Rightarrow> db" where
  "delete_uploads P db =
     (let gone = map u_id (filter P (multipart_uploads db));
          parts_gone = map p_id (filter (\<lambda>p. p_upload_id p \<in> set gone) (multipart_parts db)) in
      delete_chunks (\<lambda>c. c_part_id c \<in> Some ` set parts_gone)
        (db\<lparr>multipart_uploads := sql_delete P (multipart_uploads db),
            multipart_parts := sql_delete (\<lambda>p. p_upload_id p \<in> set gone) (multipart_parts db)\<rparr>))"

section \<open>The deletion queue\<close>

text \<open>
  \<^verbatim>\<open>INSERT INTO chunk_deletions (chunk_id, node_id) .. ON CONFLICT DO NOTHING\<close>, for a list of
  (chunk, node) pairs: the new rows are due at once.
\<close>

definition new_deletion :: "int \<Rightarrow> time \<Rightarrow> uuid \<times> node_id \<Rightarrow> deletion_row" where
  "new_deletion i now p = \<lparr>d_id = i, d_chunk = fst p, d_node = snd p, d_attempts = 0,
     d_last_error = None, d_created = now, d_next = now\<rparr>"

fun insert_deletions :: "time \<Rightarrow> (uuid \<times> node_id) list \<Rightarrow> db \<Rightarrow> db" where
  "insert_deletions now [] db = db"
| "insert_deletions now (p # ps) db =
     (let db1 = db\<lparr>seq_deletions := seq_deletions db + 1\<rparr> in
      insert_deletions now ps
        (if sql_exists (\<lambda>d. (d_chunk d, d_node d) = p) (chunk_deletions db) then db1
         else db1\<lparr>chunk_deletions := chunk_deletions db @ [new_deletion (seq_deletions db) now p]\<rparr>))"

end
