(* ===== verification/Metadata_Invariant.thy ===== *)
theory Metadata_Invariant
  imports Metadata_State
begin

text \<open>
  The invariant of the metadata store and the statements that keep it. \<open>wf_db\<close> says that primary
  keys and unique indexes hold, that foreign keys point at existing rows, that every chunk has
  exactly one owner, that the denormalised counter \<^verbatim>\<open>available_replicas\<close> is exact, and that at most
  one attempt at a part number of an upload is not FAILED. The collection \<open>wf_intros\<close> has one
  rule per kind of statement; the operations of the following theories are chains of them.
\<close>

section \<open>The invariant\<close>

definition objects_ok :: "object_row list \<Rightarrow> bool" where
  "objects_ok os \<longleftrightarrow> distinct (map o_id os)
     \<and> distinct (map (\<lambda>ob. (o_bucket ob, o_key ob)) (filter (\<lambda>ob. o_state ob = ObjectComplete) os))"

definition uploads_ok :: "uuid set \<Rightarrow> upload_row list \<Rightarrow> bool" where
  "uploads_ok objs us \<longleftrightarrow> distinct (map u_id us) \<and> u_object_id ` set us \<subseteq> insert None (Some ` objs)"

definition parts_ok :: "uuid set \<Rightarrow> part_row list \<Rightarrow> bool" where
  "parts_ok ups ps \<longleftrightarrow> distinct (map p_id ps) \<and> p_upload_id ` set ps \<subseteq> ups
     \<and> distinct (map (\<lambda>p. (p_upload_id p, p_number p)) (filter (\<lambda>p. p_state p \<noteq> PartFailed) ps))"

definition positions_ok :: "chunk_row list \<Rightarrow> bool" where
  "positions_ok cs \<longleftrightarrow> distinct (map c_id cs)
     \<and> (\<forall>c \<in> set cs. (c_object_id c = None) \<noteq> (c_part_id c = None))
     \<and> distinct (map (\<lambda>c. (c_object_id c, c_part_id c, c_index c)) cs)"

definition chunk_refs_ok :: "uuid set \<Rightarrow> uuid set \<Rightarrow> chunk_row list \<Rightarrow> bool" where
  "chunk_refs_ok objs parts cs \<longleftrightarrow> c_object_id ` set cs \<subseteq> insert None (Some ` objs)
     \<and> c_part_id ` set cs \<subseteq> insert None (Some ` parts)"

definition counters_exact :: "replica_row list \<Rightarrow> chunk_row list \<Rightarrow> bool" where
  "counters_exact rs cs \<longleftrightarrow> (\<forall>c \<in> set cs. c_available c = available_count rs (c_id c))"

definition replicas_ok :: "uuid set \<Rightarrow> node_id set \<Rightarrow> replica_row list \<Rightarrow> bool" where
  "replicas_ok cids nids rs \<longleftrightarrow> distinct (map (\<lambda>r. (r_chunk r, r_node r)) rs)
     \<and> r_chunk ` set rs \<subseteq> cids \<and> r_node ` set rs \<subseteq> nids"

definition deletions_ok :: "int \<Rightarrow> deletion_row list \<Rightarrow> bool" where
  "deletions_ok sq ds \<longleftrightarrow> distinct (map d_id ds) \<and> (\<forall>i \<in> d_id ` set ds. i < sq)
     \<and> distinct (map (\<lambda>d. (d_chunk d, d_node d)) ds)"

abbreviation active :: "job_state \<Rightarrow> bool" where
  "active s \<equiv> s = JobPending \<or> s = JobRunning"

definition jobs_ok :: "int \<Rightarrow> uuid set \<Rightarrow> job_row list \<Rightarrow> bool" where
  "jobs_ok sq cids js \<longleftrightarrow> distinct (map j_id js) \<and> (\<forall>i \<in> j_id ` set js. i < sq)
     \<and> j_chunk ` set js \<subseteq> cids
     \<and> distinct (map j_chunk (filter (\<lambda>j. active (j_state j)) js))"

definition recons_ok :: "int \<Rightarrow> node_id set \<Rightarrow> recon_row list \<Rightarrow> bool" where
  "recons_ok sq nids qs \<longleftrightarrow> distinct (map q_id qs) \<and> (\<forall>i \<in> q_id ` set qs. i < sq)
     \<and> q_node ` set qs \<subseteq> nids
     \<and> distinct (map q_node (filter (\<lambda>q. active (q_state q)) qs))"

text \<open>The identifiers present in the tables that foreign keys refer to.\<close>

abbreviation node_ids :: "db \<Rightarrow> node_id set" where "node_ids db \<equiv> n_id ` set (storage_nodes db)"
abbreviation object_ids :: "db \<Rightarrow> uuid set" where "object_ids db \<equiv> o_id ` set (objects db)"
abbreviation upload_ids :: "db \<Rightarrow> uuid set" where "upload_ids db \<equiv> u_id ` set (multipart_uploads db)"
abbreviation part_ids :: "db \<Rightarrow> uuid set" where "part_ids db \<equiv> p_id ` set (multipart_parts db)"
abbreviation chunk_ids :: "db \<Rightarrow> uuid set" where "chunk_ids db \<equiv> c_id ` set (chunks db)"

definition wf_db :: "db \<Rightarrow> bool" where
  "wf_db db \<longleftrightarrow> distinct (map n_id (storage_nodes db))
     \<and> objects_ok (objects db)
     \<and> uploads_ok (object_ids db) (multipart_uploads db)
     \<and> parts_ok (upload_ids db) (multipart_parts db)
     \<and> positions_ok (chunks db)
     \<and> chunk_refs_ok (object_ids db) (part_ids db) (chunks db)
     \<and> counters_exact (chunk_replicas db) (chunks db)
     \<and> replicas_ok (chunk_ids db) (node_ids db) (chunk_replicas db)
     \<and> deletions_ok (seq_deletions db) (chunk_deletions db)
     \<and> jobs_ok (seq_jobs db) (chunk_ids db) (repair_jobs db)
     \<and> recons_ok (seq_recons db) (node_ids db) (node_reconciliations db)"

named_theorems wf_intros \<open>statements that keep the invariant of the metadata store\<close>

lemma wf_empty [simp]: "wf_db empty_db"
  by (simp add: wf_db_def empty_db_def objects_ok_def uploads_ok_def parts_ok_def positions_ok_def
      chunk_refs_ok_def counters_exact_def replicas_ok_def deletions_ok_def jobs_ok_def recons_ok_def)

lemma inTx_wf:
  assumes "wf_db db" "\<And>x db'. body db = Inr (x, db') \<Longrightarrow> wf_db db'"
  shows "wf_db (snd (inTx body db))"
  using assms by (auto simp: inTx_def split: sum.splits)

section \<open>Lookups by key\<close>

lemma wf_chunk_unique:
  "wf_db db \<Longrightarrow> c \<in> set (chunks db) \<Longrightarrow> c' \<in> set (chunks db) \<Longrightarrow> c_id c = c_id c' \<Longrightarrow> c = c'"
  by (auto simp: wf_db_def positions_ok_def intro: distinct_map_unique)

lemma wf_object_unique:
  "wf_db db \<Longrightarrow> ob \<in> set (objects db) \<Longrightarrow> ob' \<in> set (objects db) \<Longrightarrow> o_id ob = o_id ob' \<Longrightarrow> ob = ob'"
  by (auto simp: wf_db_def objects_ok_def intro: distinct_map_unique)

lemma wf_current_unique:
  "wf_db db \<Longrightarrow> ob \<in> set (objects db) \<Longrightarrow> ob' \<in> set (objects db) \<Longrightarrow> o_state ob = ObjectComplete \<Longrightarrow>
   o_state ob' = ObjectComplete \<Longrightarrow> o_bucket ob = o_bucket ob' \<Longrightarrow> o_key ob = o_key ob' \<Longrightarrow> ob = ob'"
  using distinct_map_unique [of "\<lambda>ob. (o_bucket ob, o_key ob)"
      "filter (\<lambda>ob. o_state ob = ObjectComplete) (objects db)" ob ob']
  by (auto simp: wf_db_def objects_ok_def)

lemma wf_counter:
  "wf_db db \<Longrightarrow> c \<in> set (chunks db) \<Longrightarrow> c_available c = available_count (chunk_replicas db) (c_id c)"
  by (auto simp: wf_db_def counters_exact_def)

text \<open>Foreign keys.\<close>

lemma wf_replica_ref: "wf_db db \<Longrightarrow> r \<in> set (chunk_replicas db) \<Longrightarrow> r_chunk r \<in> chunk_ids db \<and> r_node r \<in> node_ids db"
  unfolding wf_db_def replicas_ok_def by blast

lemma wf_job_ref: "wf_db db \<Longrightarrow> j \<in> set (repair_jobs db) \<Longrightarrow> j_chunk j \<in> chunk_ids db"
  unfolding wf_db_def jobs_ok_def by blast

lemma wf_part_ref: "wf_db db \<Longrightarrow> p \<in> set (multipart_parts db) \<Longrightarrow> p_upload_id p \<in> upload_ids db"
  unfolding wf_db_def parts_ok_def by blast

lemma wf_upload_ref:
  "wf_db db \<Longrightarrow> u \<in> set (multipart_uploads db) \<Longrightarrow> u_object_id u \<in> insert None (Some ` object_ids db)"
  unfolding wf_db_def uploads_ok_def by blast

lemma wf_chunk_ref:
  "wf_db db \<Longrightarrow> c \<in> set (chunks db) \<Longrightarrow>
   c_object_id c \<in> insert None (Some ` object_ids db) \<and> c_part_id c \<in> insert None (Some ` part_ids db)"
  unfolding wf_db_def chunk_refs_ok_def by blast

section \<open>The trigger\<close>

lemma fold_refresh:
  "fold refresh_available_replicas ids db =
     db\<lparr>chunks := sql_update (\<lambda>c. c_id c \<in> set ids)
          (\<lambda>c. c\<lparr>c_available := available_count (chunk_replicas db) (c_id c)\<rparr>) (chunks db)\<rparr>"
proof (induction ids arbitrary: db)
  case (Cons i ids)
  show ?case
    by (simp add: Cons.IH) (auto simp: refresh_available_replicas_def sql_update_def)
qed (simp add: sql_update_def)

lemma positions_ok_update:
  assumes "positions_ok cs"
    and "\<And>c. P c \<Longrightarrow> c_id (f c) = c_id c \<and> c_object_id (f c) = c_object_id c
            \<and> c_part_id (f c) = c_part_id c \<and> c_index (f c) = c_index c"
  shows "positions_ok (sql_update P f cs)"
  using assms by (auto simp: positions_ok_def set_sql_update)

lemma chunk_refs_ok_update:
  assumes "chunk_refs_ok objs parts cs"
    and "\<And>c. P c \<Longrightarrow> c_object_id (f c) = c_object_id c \<and> c_part_id (f c) = c_part_id c"
  shows "chunk_refs_ok objs parts (sql_update P f cs)"
  using assms by (simp add: chunk_refs_ok_def)

text \<open>
  The trigger restores the counter after any change to the replicas that leaves the chunks not
  named by it alone.
\<close>

lemma counters_refresh:
  assumes "counters_exact rs cs"
    and "\<And>cid. cid \<notin> set ids \<Longrightarrow> available_count rs' cid = available_count rs cid"
  shows "counters_exact rs' (sql_update (\<lambda>c. c_id c \<in> set ids)
           (\<lambda>c. c\<lparr>c_available := available_count rs' (c_id c)\<rparr>) cs)"
  using assms by (auto simp: counters_exact_def set_sql_update)

lemma available_count_update:
  assumes "\<And>r. P r \<Longrightarrow> r_chunk (f r) = r_chunk r"
    and "cid \<notin> r_chunk ` set (filter P rows)"
  shows "available_count (sql_update P f rows) cid = available_count rows cid"
  using assms(2)
proof (induction rows)
  case (Cons r rows)
  then show ?case using assms(1) by (auto simp: available_count_def sql_count_def sql_update_def)
qed simp

lemma available_count_delete:
  assumes "cid \<notin> r_chunk ` set (filter P rows)"
  shows "available_count (sql_delete P rows) cid = available_count rows cid"
  using assms
  by (induction rows) (auto simp: available_count_def sql_count_def sql_delete_def)

text \<open>A statement on the replicas, followed by the trigger for the chunks it touched.\<close>

lemma wf_replica_statement:
  assumes "wf_db db" "replicas_ok (chunk_ids db) (node_ids db) rs"
    and "\<And>cid. cid \<notin> set ids \<Longrightarrow> available_count rs cid = available_count (chunk_replicas db) cid"
  shows "wf_db (fold refresh_available_replicas ids (db\<lparr>chunk_replicas := rs\<rparr>))"
  using assms counters_refresh [of "chunk_replicas db" "chunks db" ids rs]
  by (simp add: wf_db_def fold_refresh positions_ok_update chunk_refs_ok_update)

section \<open>Statements on replicas\<close>

lemma wf_update_replicas [wf_intros]:
  assumes "wf_db db" "\<And>r. P r \<Longrightarrow> r_chunk (f r) = r_chunk r \<and> r_node (f r) = r_node r"
  shows "wf_db (update_replicas P f db)"
  unfolding update_replicas_def
proof (rule wf_replica_statement [OF assms(1)])
  show "replicas_ok (chunk_ids db) (node_ids db) (sql_update P f (chunk_replicas db))"
    using assms by (simp add: wf_db_def replicas_ok_def)
qed (use assms(2) in \<open>auto intro!: available_count_update\<close>)

lemma wf_delete_replicas [wf_intros]:
  assumes "wf_db db"
  shows "wf_db (delete_replicas P db)"
  unfolding delete_replicas_def
proof (rule wf_replica_statement [OF assms])
  show "replicas_ok (chunk_ids db) (node_ids db) (sql_delete P (chunk_replicas db))"
    using assms by (auto simp: wf_db_def replicas_ok_def intro: distinct_map_delete)
qed (auto intro!: available_count_delete)

lemma wf_upsert_replica:
  assumes "wf_db db" "upsert_replica row f db = Inr db'"
    and "\<And>r. r_chunk (f r) = r_chunk r \<and> r_node (f r) = r_node r"
  shows "wf_db db'"
proof (cases "\<exists>r\<in>set (chunk_replicas db). r_chunk r = r_chunk row \<and> r_node r = r_node row")
  case True
  with assms show ?thesis by (auto simp: upsert_replica_def intro!: wf_update_replicas)
next
  case False
  with assms(2) have db': "db' = fold refresh_available_replicas [r_chunk row]
      (db\<lparr>chunk_replicas := chunk_replicas db @ [row]\<rparr>)"
    and "r_chunk row \<in> chunk_ids db" "r_node row \<in> node_ids db"
    by (auto simp: upsert_replica_def bex_key_iff split: if_splits)
  then have "replicas_ok (chunk_ids db) (node_ids db) (chunk_replicas db @ [row])"
    using assms(1) False by (auto simp: wf_db_def replicas_ok_def)
  then show ?thesis
    unfolding db' using assms(1)
    by (intro wf_replica_statement) (auto simp: available_count_def sql_count_append sql_count_def)
qed

section \<open>Statements on the other tables\<close>

text \<open>Updates that leave keys, references and indexed columns alone.\<close>

lemma wf_update_nodes [wf_intros]:
  assumes "wf_db db" "\<And>n. P n \<Longrightarrow> n_id (f n) = n_id n"
  shows "wf_db (db\<lparr>storage_nodes := sql_update P f (storage_nodes db)\<rparr>)"
  using assms by (simp add: wf_db_def)

lemma wf_update_objects [wf_intros]:
  assumes "wf_db db"
    and "\<And>ob. P ob \<Longrightarrow> o_id (f ob) = o_id ob \<and> o_bucket (f ob) = o_bucket ob \<and> o_key (f ob) = o_key ob
          \<and> (o_state (f ob) = ObjectComplete \<longrightarrow> o_state ob = ObjectComplete)"
  shows "wf_db (db\<lparr>objects := sql_update P f (objects db)\<rparr>)"
proof -
  have "objects_ok (sql_update P f (objects db))"
    using assms by (auto simp: wf_db_def objects_ok_def intro!: distinct_map_filter_update)
  then show ?thesis using assms by (simp add: wf_db_def)
qed

lemma wf_update_uploads [wf_intros]:
  assumes "wf_db db"
    and "\<And>u. P u \<Longrightarrow> u_id (f u) = u_id u
          \<and> (u_object_id (f u) = u_object_id u \<or> u_object_id (f u) \<in> Some ` object_ids db)"
  shows "wf_db (db\<lparr>multipart_uploads := sql_update P f (multipart_uploads db)\<rparr>)"
proof -
  have "uploads_ok (object_ids db) (sql_update P f (multipart_uploads db))"
    using assms wf_upload_ref [OF assms(1)]
    by (fastforce simp: wf_db_def uploads_ok_def elim!: in_sql_updateE)
  then show ?thesis using assms by (simp add: wf_db_def)
qed

lemma wf_update_parts [wf_intros]:
  assumes "wf_db db"
    and "\<And>p. P p \<Longrightarrow> p_id (f p) = p_id p \<and> p_upload_id (f p) = p_upload_id p \<and> p_number (f p) = p_number p
          \<and> (p_state (f p) \<noteq> PartFailed \<longrightarrow> p_state p \<noteq> PartFailed)"
  shows "wf_db (db\<lparr>multipart_parts := sql_update P f (multipart_parts db)\<rparr>)"
proof -
  have "parts_ok (upload_ids db) (sql_update P f (multipart_parts db))"
    using assms by (auto simp: wf_db_def parts_ok_def intro!: distinct_map_filter_update)
  then show ?thesis using assms by (simp add: wf_db_def)
qed

lemma wf_update_chunks [wf_intros]:
  assumes "wf_db db"
    and "\<And>c. P c \<Longrightarrow> c_id (f c) = c_id c \<and> c_object_id (f c) = c_object_id c
          \<and> c_part_id (f c) = c_part_id c \<and> c_index (f c) = c_index c \<and> c_available (f c) = c_available c"
  shows "wf_db (db\<lparr>chunks := sql_update P f (chunks db)\<rparr>)"
proof -
  have "counters_exact (chunk_replicas db) (sql_update P f (chunks db))"
    using assms by (auto simp: wf_db_def counters_exact_def set_sql_update)
  then show ?thesis using assms by (simp add: wf_db_def positions_ok_update chunk_refs_ok_update)
qed

lemma wf_update_deletions [wf_intros]:
  assumes "wf_db db" "\<And>d. P d \<Longrightarrow> d_id (f d) = d_id d \<and> d_chunk (f d) = d_chunk d \<and> d_node (f d) = d_node d"
  shows "wf_db (db\<lparr>chunk_deletions := sql_update P f (chunk_deletions db)\<rparr>)"
  using assms by (simp add: wf_db_def deletions_ok_def)

lemma wf_delete_deletions [wf_intros]:
  assumes "wf_db db"
  shows "wf_db (db\<lparr>chunk_deletions := sql_delete P (chunk_deletions db)\<rparr>)"
  using assms by (auto simp: wf_db_def deletions_ok_def intro: distinct_map_delete)

lemma wf_update_jobs [wf_intros]:
  assumes "wf_db db"
    and "\<And>j. P j \<Longrightarrow> j_id (f j) = j_id j \<and> j_chunk (f j) = j_chunk j
          \<and> (active (j_state (f j)) \<longrightarrow> active (j_state j))"
  shows "wf_db (db\<lparr>repair_jobs := sql_update P f (repair_jobs db)\<rparr>)"
proof -
  have "jobs_ok (seq_jobs db) (chunk_ids db) (sql_update P f (repair_jobs db))"
    using assms unfolding wf_db_def jobs_ok_def by (auto intro!: distinct_map_filter_update)
  then show ?thesis using assms by (simp add: wf_db_def)
qed

lemma wf_delete_jobs [wf_intros]:
  assumes "wf_db db"
  shows "wf_db (db\<lparr>repair_jobs := sql_delete P (repair_jobs db)\<rparr>)"
proof -
  have "distinct (map j_chunk (filter (\<lambda>j. active (j_state j)) (sql_delete P (repair_jobs db))))"
    using assms distinct_map_filterI [of j_chunk "filter (\<lambda>j. active (j_state j)) (repair_jobs db)"]
    by (auto simp: wf_db_def jobs_ok_def sql_delete_def filter_filter conj_commute)
  with assms show ?thesis by (auto simp: wf_db_def jobs_ok_def intro: distinct_map_delete)
qed

lemma wf_update_recons [wf_intros]:
  assumes "wf_db db"
    and "\<And>q. P q \<Longrightarrow> q_id (f q) = q_id q \<and> q_node (f q) = q_node q
          \<and> (active (q_state (f q)) \<longrightarrow> active (q_state q))"
  shows "wf_db (db\<lparr>node_reconciliations := sql_update P f (node_reconciliations db)\<rparr>)"
proof -
  have "recons_ok (seq_recons db) (node_ids db) (sql_update P f (node_reconciliations db))"
    using assms unfolding wf_db_def recons_ok_def by (auto intro!: distinct_map_filter_update)
  then show ?thesis using assms by (simp add: wf_db_def)
qed

text \<open>Inserts of rows with new keys.\<close>

lemma wf_insert_node [wf_intros]:
  assumes "wf_db db" "n_id n \<notin> node_ids db"
  shows "wf_db (db\<lparr>storage_nodes := storage_nodes db @ [n]\<rparr>)"
  using assms by (auto simp: wf_db_def replicas_ok_def recons_ok_def)

lemma wf_insert_object [wf_intros]:
  assumes "wf_db db" "o_id ob \<notin> object_ids db" "o_state ob \<noteq> ObjectComplete"
  shows "wf_db (db\<lparr>objects := objects db @ [ob]\<rparr>)"
  using assms by (auto simp: wf_db_def objects_ok_def uploads_ok_def chunk_refs_ok_def)

lemma wf_insert_upload [wf_intros]:
  assumes "wf_db db" "u_id u \<notin> upload_ids db" "u_object_id u = None"
  shows "wf_db (db\<lparr>multipart_uploads := multipart_uploads db @ [u]\<rparr>)"
  using assms by (auto simp: wf_db_def uploads_ok_def parts_ok_def)

lemma wf_insert_part [wf_intros]:
  assumes "wf_db db" "p_id p \<notin> part_ids db" "p_upload_id p \<in> upload_ids db"
    and "\<And>p'. p' \<in> set (multipart_parts db) \<Longrightarrow> p_upload_id p' = p_upload_id p \<Longrightarrow>
           p_number p' = p_number p \<Longrightarrow> p_state p' = PartFailed"
  shows "wf_db (db\<lparr>multipart_parts := multipart_parts db @ [p]\<rparr>)"
proof -
  have "parts_ok (upload_ids db) (multipart_parts db @ [p])"
    using assms by (auto simp: wf_db_def parts_ok_def)
  moreover have "chunk_refs_ok (object_ids db) (p_id ` set (multipart_parts db @ [p])) (chunks db)"
    using assms by (auto simp: wf_db_def chunk_refs_ok_def)
  ultimately show ?thesis using assms by (simp add: wf_db_def)
qed

lemma wf_insert_job [wf_intros]:
  assumes "wf_db db" "j_id j = seq_jobs db" "j_chunk j \<in> chunk_ids db"
    and "\<And>j'. j' \<in> set (repair_jobs db) \<Longrightarrow> j_chunk j' = j_chunk j \<Longrightarrow> \<not> active (j_state j')"
  shows "wf_db (db\<lparr>seq_jobs := seq_jobs db + 1, repair_jobs := repair_jobs db @ [j]\<rparr>)"
proof -
  have "jobs_ok (seq_jobs db + 1) (chunk_ids db) (repair_jobs db @ [j])"
    using assms by (fastforce simp: wf_db_def jobs_ok_def)
  then show ?thesis using assms by (simp add: wf_db_def)
qed

lemma wf_insert_recon [wf_intros]:
  assumes "wf_db db" "q_id q = seq_recons db" "q_node q \<in> node_ids db"
    and "\<And>q'. q' \<in> set (node_reconciliations db) \<Longrightarrow> q_node q' = q_node q \<Longrightarrow> \<not> active (q_state q')"
  shows "wf_db (db\<lparr>seq_recons := seq_recons db + 1,
                  node_reconciliations := node_reconciliations db @ [q]\<rparr>)"
proof -
  have "recons_ok (seq_recons db + 1) (node_ids db) (node_reconciliations db @ [q])"
    using assms by (fastforce simp: wf_db_def recons_ok_def)
  then show ?thesis using assms by (simp add: wf_db_def)
qed

lemma wf_burn_seqs [wf_intros]:
  assumes "wf_db db"
  shows "wf_db (db\<lparr>seq_jobs := seq_jobs db + 1\<rparr>)" "wf_db (db\<lparr>seq_recons := seq_recons db + 1\<rparr>)"
  using assms by (auto simp: wf_db_def jobs_ok_def recons_ok_def)

lemma wf_insert_chunk [wf_intros]:
  assumes "wf_db db" "c_id c \<notin> chunk_ids db" "c_available c = 0"
    and "c_object_id c \<in> insert None (Some ` object_ids db)" "c_part_id c \<in> insert None (Some ` part_ids db)"
    and "(c_object_id c = None) \<noteq> (c_part_id c = None)"
    and "(c_object_id c, c_part_id c, c_index c)
           \<notin> (\<lambda>c. (c_object_id c, c_part_id c, c_index c)) ` set (chunks db)"
  shows "wf_db (db\<lparr>chunks := chunks db @ [c]\<rparr>)"
proof -
  have "positions_ok (chunks db @ [c])" "chunk_refs_ok (object_ids db) (part_ids db) (chunks db @ [c])"
    using assms by (auto simp: wf_db_def positions_ok_def chunk_refs_ok_def)
  moreover have "counters_exact (chunk_replicas db) (chunks db @ [c])"
  proof -
    have "\<forall>r \<in> set (chunk_replicas db). r_chunk r \<noteq> c_id c"
      using assms(2) wf_replica_ref [OF assms(1)] by metis
    then have "available_count (chunk_replicas db) (c_id c) = 0"
      by (auto simp: available_count_def sql_count_0_iff)
    then show ?thesis using assms(1,3) by (auto simp: wf_db_def counters_exact_def)
  qed
  moreover have "replicas_ok (c_id ` set (chunks db @ [c])) (node_ids db) (chunk_replicas db)"
    "jobs_ok (seq_jobs db) (c_id ` set (chunks db @ [c])) (repair_jobs db)"
    using assms(1) by (auto simp: wf_db_def replicas_ok_def jobs_ok_def)
  ultimately show ?thesis using assms(1) by (simp add: wf_db_def)
qed

section \<open>Deletes with cascades\<close>

lemma available_count_foreign:
  "cid \<notin> S \<Longrightarrow> available_count (sql_delete (\<lambda>r. r_chunk r \<in> S) rows) cid = available_count rows cid"
  by (rule available_count_delete) auto

lemma wf_delete_jobs_of:
  assumes "jobs_ok sq cids js" "\<And>j. j \<in> set js \<Longrightarrow> \<not> P j \<Longrightarrow> j_chunk j \<in> cids'"
  shows "jobs_ok sq cids' (sql_delete P js)"
proof -
  have "distinct (map j_chunk (filter (\<lambda>j. active (j_state j)) (sql_delete P js)))"
    using assms distinct_map_filterI [of j_chunk "filter (\<lambda>j. active (j_state j)) js"]
    by (auto simp: jobs_ok_def sql_delete_def filter_filter conj_commute)
  with assms show ?thesis by (auto simp: jobs_ok_def intro: distinct_map_delete)
qed

text \<open>
  The part of the invariant a cascade into the chunks needs: everything but the references of
  the chunks that are about to go.
\<close>

lemma wf_delete_chunks_cascade:
  assumes "wf_db db" "objects_ok os" "uploads_ok (o_id ` set os) us" "parts_ok (u_id ` set us) ps"
    and refs: "\<And>c. c \<in> set (chunks db) \<Longrightarrow> \<not> P c \<Longrightarrow>
       c_object_id c \<in> insert None (Some ` o_id ` set os) \<and> c_part_id c \<in> insert None (Some ` p_id ` set ps)"
  shows "wf_db (delete_chunks P (db\<lparr>objects := os, multipart_uploads := us, multipart_parts := ps\<rparr>))"
proof -
  let ?gone = "set (map c_id (filter P (chunks db)))"
  let ?cs = "sql_delete P (chunks db)"
  let ?rs = "sql_delete (\<lambda>r. r_chunk r \<in> ?gone) (chunk_replicas db)"
  have keep: "c_id c \<notin> ?gone" if "c \<in> set ?cs" for c
    using that wf_chunk_unique [OF assms(1)] by auto
  have ids: "cid \<in> c_id ` set ?cs" if "cid \<in> chunk_ids db" "cid \<notin> ?gone" for cid
    using that by auto
  have "positions_ok ?cs" "chunk_refs_ok (o_id ` set os) (p_id ` set ps) ?cs"
    using assms(1) refs by (auto simp: wf_db_def positions_ok_def chunk_refs_ok_def intro: distinct_map_delete)
  moreover have "counters_exact ?rs ?cs"
    using assms(1) keep unfolding counters_exact_def
    by (auto simp: available_count_foreign wf_counter)
  moreover have "replicas_ok (c_id ` set ?cs) (node_ids db) ?rs"
  proof -
    have "r_chunk r \<in> c_id ` set ?cs" if "r \<in> set ?rs" for r
      using that wf_replica_ref [OF assms(1)] by (intro ids) auto
    with assms(1) show ?thesis by (auto simp: wf_db_def replicas_ok_def intro: distinct_map_delete)
  qed
  moreover have "jobs_ok (seq_jobs db) (c_id ` set ?cs) (sql_delete (\<lambda>j. j_chunk j \<in> ?gone) (repair_jobs db))"
  proof (rule wf_delete_jobs_of)
    show "jobs_ok (seq_jobs db) (chunk_ids db) (repair_jobs db)" using assms(1) by (simp add: wf_db_def)
    show "j_chunk j \<in> c_id ` set ?cs" if "j \<in> set (repair_jobs db)" "j_chunk j \<notin> ?gone" for j
      using that wf_job_ref [OF assms(1)] by (intro ids) auto
  qed
  ultimately show ?thesis
    using assms(1-4) by (simp add: wf_db_def delete_chunks_def Let_def)
qed

lemma wf_delete_chunks [wf_intros]:
  assumes "wf_db db"
  shows "wf_db (delete_chunks P db)"
proof -
  have "wf_db (delete_chunks P (db\<lparr>objects := objects db, multipart_uploads := multipart_uploads db,
      multipart_parts := multipart_parts db\<rparr>))"
    using assms wf_chunk_ref [OF assms] by (intro wf_delete_chunks_cascade) (simp_all add: wf_db_def)
  then show ?thesis by simp
qed

lemma objects_ok_delete: "objects_ok os \<Longrightarrow> objects_ok (sql_delete P os)"
  using distinct_map_filterI [of "\<lambda>ob. (o_bucket ob, o_key ob)" "filter (\<lambda>ob. o_state ob = ObjectComplete) os"]
  by (auto simp: objects_ok_def sql_delete_def filter_filter conj_commute intro: distinct_map_filterI)

lemma parts_ok_delete:
  assumes "parts_ok ups ps" "\<And>p. p \<in> set ps \<Longrightarrow> \<not> P p \<Longrightarrow> p_upload_id p \<in> ups'"
  shows "parts_ok ups' (sql_delete P ps)"
  using assms distinct_map_filterI [of "\<lambda>p. (p_upload_id p, p_number p)" "filter (\<lambda>p. p_state p \<noteq> PartFailed) ps"]
  by (auto simp: parts_ok_def sql_delete_def filter_filter conj_commute intro: distinct_map_filterI)

lemma some_key_delete:
  "x \<in> insert None (Some ` k ` set rows) \<Longrightarrow> x \<notin> Some ` set (map k (filter P rows)) \<Longrightarrow>
   x \<in> insert None (Some ` k ` set (sql_delete P rows))"
  by auto

lemma wf_delete_objects [wf_intros]:
  assumes "wf_db db"
  shows "wf_db (delete_objects P db)"
proof -
  let ?gone = "set (map o_id (filter P (objects db)))"
  let ?os = "sql_delete P (objects db)"
  let ?us = "sql_update (\<lambda>u. u_object_id u \<in> Some ` ?gone) (\<lambda>u. u\<lparr>u_object_id := None\<rparr>) (multipart_uploads db)"
  have "wf_db (delete_chunks (\<lambda>c. c_object_id c \<in> Some ` ?gone)
      (db\<lparr>objects := ?os, multipart_uploads := ?us, multipart_parts := multipart_parts db\<rparr>))"
  proof (rule wf_delete_chunks_cascade [OF assms])
    show "objects_ok ?os" using assms by (simp add: wf_db_def objects_ok_delete)
    show "uploads_ok (o_id ` set ?os) ?us"
      using assms wf_upload_ref [OF assms]
      by (fastforce simp: wf_db_def uploads_ok_def elim!: in_sql_updateE)
    show "parts_ok (u_id ` set ?us) (multipart_parts db)" using assms by (simp add: wf_db_def)
    show "c_object_id c \<in> insert None (Some ` o_id ` set ?os) \<and> c_part_id c \<in> insert None (Some ` part_ids db)"
      if "c \<in> set (chunks db)" "c_object_id c \<notin> Some ` ?gone" for c
      using wf_chunk_ref [OF assms that(1)] some_key_delete [OF _ that(2)] by blast
  qed
  then show ?thesis by (simp add: delete_objects_def Let_def)
qed

lemma wf_delete_uploads [wf_intros]:
  assumes "wf_db db"
  shows "wf_db (delete_uploads P db)"
proof -
  let ?gone = "set (map u_id (filter P (multipart_uploads db)))"
  let ?pgone = "set (map p_id (filter (\<lambda>p. p_upload_id p \<in> ?gone) (multipart_parts db)))"
  let ?us = "sql_delete P (multipart_uploads db)"
  let ?ps = "sql_delete (\<lambda>p. p_upload_id p \<in> ?gone) (multipart_parts db)"
  have "wf_db (delete_chunks (\<lambda>c. c_part_id c \<in> Some ` ?pgone)
      (db\<lparr>objects := objects db, multipart_uploads := ?us, multipart_parts := ?ps\<rparr>))"
  proof (rule wf_delete_chunks_cascade [OF assms])
    show "objects_ok (objects db)" using assms by (simp add: wf_db_def)
    show "uploads_ok (object_ids db) ?us"
      using assms by (auto simp: wf_db_def uploads_ok_def intro: distinct_map_delete)
    show "parts_ok (u_id ` set ?us) ?ps"
      using assms wf_part_ref [OF assms]
      by (intro parts_ok_delete [of "upload_ids db"]) (auto simp: wf_db_def)
    show "c_object_id c \<in> insert None (Some ` object_ids db) \<and> c_part_id c \<in> insert None (Some ` p_id ` set ?ps)"
      if "c \<in> set (chunks db)" "c_part_id c \<notin> Some ` ?pgone" for c
      using wf_chunk_ref [OF assms that(1)] some_key_delete [OF _ that(2)] by blast
  qed
  then show ?thesis by (simp add: delete_uploads_def Let_def)
qed

section \<open>The deletion queue\<close>

abbreviation queued :: "db \<Rightarrow> (uuid \<times> node_id) set" where
  "queued db \<equiv> (\<lambda>d. (d_chunk d, d_node d)) ` set (chunk_deletions db)"

lemma insert_deletions_frame [simp]:
  "storage_nodes (insert_deletions now ps db) = storage_nodes db"
  "objects (insert_deletions now ps db) = objects db"
  "multipart_uploads (insert_deletions now ps db) = multipart_uploads db"
  "multipart_parts (insert_deletions now ps db) = multipart_parts db"
  "chunks (insert_deletions now ps db) = chunks db"
  "chunk_replicas (insert_deletions now ps db) = chunk_replicas db"
  "repair_jobs (insert_deletions now ps db) = repair_jobs db"
  "node_reconciliations (insert_deletions now ps db) = node_reconciliations db"
  "seq_jobs (insert_deletions now ps db) = seq_jobs db"
  "seq_recons (insert_deletions now ps db) = seq_recons db"
  by (induction now ps db rule: insert_deletions.induct) (simp_all add: Let_def)

lemma queued_insert_deletions: "queued (insert_deletions now ps db) = queued db \<union> set ps"
proof (induction now ps db rule: insert_deletions.induct)
  case (2 now p ps db)
  then show ?case by (auto simp: Let_def new_deletion_def)
qed simp

lemma insert_deletions_keeps: "set (chunk_deletions db) \<subseteq> set (chunk_deletions (insert_deletions now ps db))"
proof (induction now ps db rule: insert_deletions.induct)
  case (2 now p ps db)
  then show ?case by (auto simp: Let_def split: if_splits)
qed simp

lemma insert_deletions_new:
  "d \<in> set (chunk_deletions (insert_deletions now ps db)) \<Longrightarrow>
   d \<in> set (chunk_deletions db) \<or> (d_next d = now \<and> d_attempts d = 0 \<and> (d_chunk d, d_node d) \<in> set ps)"
proof (induction now ps db rule: insert_deletions.induct)
  case (2 now p ps db)
  then show ?case by (fastforce simp: Let_def new_deletion_def split: if_splits)
qed simp

lemma wf_insert_deletions [wf_intros]: "wf_db db \<Longrightarrow> wf_db (insert_deletions now ps db)"
proof (induction now ps db rule: insert_deletions.induct)
  case (2 now p ps db)
  have "wf_db (db\<lparr>seq_deletions := seq_deletions db + 1\<rparr>)"
    using 2(2) by (auto simp: wf_db_def deletions_ok_def)
  moreover have "wf_db (db\<lparr>seq_deletions := seq_deletions db + 1,
      chunk_deletions := chunk_deletions db @ [new_deletion (seq_deletions db) now p]\<rparr>)"
    if "\<not> (\<exists>d\<in>set (chunk_deletions db). (d_chunk d, d_node d) = p)"
    using 2(2) that by (fastforce simp: wf_db_def deletions_ok_def new_deletion_def)
  ultimately show ?case using 2(1) by (auto simp: Let_def)
qed simp

section \<open>An example database\<close>

text \<open>
  A small well-formed database on which the properties of the following theories are instantiated:
  three nodes; the current version of \<^verbatim>\<open>b/k\<close> (object 1) with one committed chunk on \<^verbatim>\<open>n1\<close> and
  \<^verbatim>\<open>n2\<close>; a new version of it being uploaded (object 2) with one committed chunk on the same
  nodes; and a multipart upload with a part that is being uploaded.
\<close>

definition ex_node :: "node_id \<Rightarrow> state \<Rightarrow> node_row" where
  "ex_node n h = \<lparr>n_id = n, n_address = n, n_health = h, n_total = 0, n_used = 0, n_avail = 0,
     n_chunk_count = 0, n_active = 0, n_last_heartbeat = None, n_registered = 0, n_updated = 0\<rparr>"

definition ex_object :: "uuid \<Rightarrow> int \<Rightarrow> object_state \<Rightarrow> int \<Rightarrow> object_row" where
  "ex_object i v st n = \<lparr>o_id = i, o_bucket = ''b'', o_key = ''k'', o_version = v, o_state = st, o_size = n,
     o_chunk_size = 8, o_chunk_count = n, o_etag = None, o_content_type = '''', o_failure = None,
     o_created = 0, o_updated = 0, o_completed = None, o_deleted = None\<rparr>"

definition ex_chunk :: "uuid \<Rightarrow> uuid \<Rightarrow> chunk_state \<Rightarrow> int \<Rightarrow> chunk_row" where
  "ex_chunk i ob st n = \<lparr>c_id = i, c_object_id = Some ob, c_part_id = None, c_index = 0, c_size = 1,
     c_checksum = None, c_state = st, c_available = n, c_created = 0, c_committed = None\<rparr>"

definition ex_replica :: "uuid \<Rightarrow> node_id \<Rightarrow> replica_state \<Rightarrow> replica_row" where
  "ex_replica i n st = \<lparr>r_chunk = i, r_node = n, r_state = st, r_created = 0, r_updated = 0,
     r_verified = None, r_last_error = None\<rparr>"

definition ex_upload :: "uuid \<Rightarrow> upload_row" where
  "ex_upload i = \<lparr>u_id = i, u_bucket = ''b'', u_key = ''m'', u_state = MultipartInProgress, u_chunk_size = 8,
     u_content_type = '''', u_object_id = None, u_created = 0, u_updated = 0, u_completed = None\<rparr>"

definition ex_part :: "uuid \<Rightarrow> uuid \<Rightarrow> int \<Rightarrow> part_state \<Rightarrow> part_row" where
  "ex_part i u n st = \<lparr>p_id = i, p_upload_id = u, p_number = n, p_state = st, p_size = 0, p_chunk_count = 0,
     p_etag = None, p_created = 0, p_updated = 0, p_completed = None\<rparr>"

definition ex_db :: db where
  "ex_db = \<lparr>storage_nodes = [ex_node ''n1'' StateHealthy, ex_node ''n2'' StateHealthy, ex_node ''n3'' StateHealthy],
     objects = [ex_object 1 1 ObjectComplete 1, ex_object 2 2 ObjectUploading 0],
     multipart_uploads = [ex_upload 3], multipart_parts = [ex_part 4 3 1 PartUploading],
     chunks = [ex_chunk 7 1 ChunkCommitted 2, ex_chunk 8 2 ChunkCommitted 2],
     chunk_replicas = [ex_replica 7 ''n1'' ReplicaAvailable, ex_replica 7 ''n2'' ReplicaAvailable,
       ex_replica 8 ''n1'' ReplicaAvailable, ex_replica 8 ''n2'' ReplicaAvailable],
     chunk_deletions = [], repair_jobs = [], node_reconciliations = [],
     seq_deletions = 1, seq_jobs = 1, seq_recons = 1\<rparr>"

lemmas ex_defs = ex_db_def ex_node_def ex_object_def ex_chunk_def ex_replica_def ex_upload_def ex_part_def

lemma wf_ex_db: "wf_db ex_db"
  by (simp add: wf_db_def ex_defs objects_ok_def uploads_ok_def parts_ok_def positions_ok_def
      chunk_refs_ok_def counters_exact_def replicas_ok_def deletions_ok_def jobs_ok_def recons_ok_def
      available_count_def sql_count_def)

end
