(* ===== verification/Metadata_Nodes.thy ===== *)
theory Metadata_Nodes
  imports Metadata_Invariant
begin

text \<open>
  \<^verbatim>\<open>internal/metadata/nodes.go\<close>: registration, heartbeats and health of storage nodes. Every
  method is a function of the database that returns its result or error and the new database.
\<close>

section \<open>Types\<close>

record Node =
  Node_ID :: node_id
  Node_Address :: string
  Node_Health :: state
  Node_TotalBytes :: int
  Node_UsedBytes :: int
  Node_AvailableBytes :: int
  Node_ChunkCount :: int
  Node_ActiveRequests :: int
  Node_LastHeartbeatAt :: time
  Node_RegisteredAt :: time

record NodeStats =
  st_TotalBytes :: int
  st_UsedBytes :: int
  st_AvailableBytes :: int
  st_ChunkCount :: int
  st_ActiveRequests :: int

text \<open>\<^verbatim>\<open>nullTime\<close> and \<^verbatim>\<open>nullString\<close>: NULL is the zero value of the domain types.\<close>

definition nullTime :: "time option \<Rightarrow> time" where
  "nullTime t = (case t of None \<Rightarrow> 0 | Some x \<Rightarrow> x)"

definition nullString :: "string option \<Rightarrow> string" where
  "nullString s = (case s of None \<Rightarrow> '''' | Some x \<Rightarrow> x)"

definition truncate_string :: "string \<Rightarrow> nat \<Rightarrow> string" where
  "truncate_string s n = (if length s \<le> n then s else take n s)"

definition scanNode :: "node_row \<Rightarrow> Node" where
  "scanNode n = \<lparr>Node_ID = n_id n, Node_Address = n_address n, Node_Health = n_health n,
     Node_TotalBytes = n_total n, Node_UsedBytes = n_used n, Node_AvailableBytes = n_avail n,
     Node_ChunkCount = n_chunk_count n, Node_ActiveRequests = n_active n,
     Node_LastHeartbeatAt = nullTime (n_last_heartbeat n), Node_RegisteredAt = n_registered n\<rparr>"

section \<open>Operations\<close>

text \<open>The CHECK constraints of \<^verbatim>\<open>storage_nodes\<close>.\<close>

definition stats_ok :: "NodeStats \<Rightarrow> bool" where
  "stats_ok st \<longleftrightarrow> 0 \<le> st_TotalBytes st \<and> 0 \<le> st_UsedBytes st \<and> 0 \<le> st_AvailableBytes st
     \<and> 0 \<le> st_ChunkCount st \<and> 0 \<le> st_ActiveRequests st"

definition set_node :: "string \<Rightarrow> state \<Rightarrow> NodeStats \<Rightarrow> time \<Rightarrow> time \<Rightarrow> node_row \<Rightarrow> node_row" where
  "set_node address health st at now n =
     n\<lparr>n_address := address, n_health := health, n_total := st_TotalBytes st,
       n_used := st_UsedBytes st, n_avail := st_AvailableBytes st, n_chunk_count := st_ChunkCount st,
       n_active := st_ActiveRequests st, n_last_heartbeat := Some at, n_updated := now\<rparr>"

definition UpsertNode ::
  "node_id \<Rightarrow> string \<Rightarrow> state \<Rightarrow> NodeStats \<Rightarrow> time \<Rightarrow> time \<Rightarrow> db \<Rightarrow> (db_error + unit) \<times> db"
where
  "UpsertNode nid address health st at now = inTx (\<lambda>db.
     if \<not> stats_ok st then Inl CheckViolation
     else if sql_exists (\<lambda>n. n_id n = nid) (storage_nodes db)
     then Inr ((), db\<lparr>storage_nodes := sql_update (\<lambda>n. n_id n = nid)
                        (set_node address health st at now) (storage_nodes db)\<rparr>)
     else Inr ((), db\<lparr>storage_nodes := storage_nodes db @
                        [\<lparr>n_id = nid, n_address = address, n_health = health,
                          n_total = st_TotalBytes st, n_used = st_UsedBytes st,
                          n_avail = st_AvailableBytes st, n_chunk_count = st_ChunkCount st,
                          n_active = st_ActiveRequests st, n_last_heartbeat = Some at,
                          n_registered = now, n_updated = now\<rparr>]\<rparr>))"

definition RecordHeartbeat ::
  "node_id \<Rightarrow> string \<Rightarrow> NodeStats \<Rightarrow> state \<Rightarrow> time \<Rightarrow> time \<Rightarrow> db \<Rightarrow> (db_error + unit) \<times> db"
where
  "RecordHeartbeat nid address st health at now = inTx (\<lambda>db.
     if \<not> sql_exists (\<lambda>n. n_id n = nid) (storage_nodes db) then Inl ErrNotFound
     else if \<not> stats_ok st then Inl CheckViolation
     else Inr ((), db\<lparr>storage_nodes := sql_update (\<lambda>n. n_id n = nid)
                        (set_node address health st at now) (storage_nodes db)\<rparr>))"

definition demotable :: "node_id \<Rightarrow> replica_row \<Rightarrow> bool" where
  "demotable nid r \<longleftrightarrow> r_node r = nid \<and> r_state r \<in> {ReplicaAvailable, ReplicaWriting}"

definition set_replica_state :: "replica_state \<Rightarrow> time \<Rightarrow> replica_row \<Rightarrow> replica_row" where
  "set_replica_state s now r = r\<lparr>r_state := s, r_updated := now\<rparr>"

definition SetNodeHealth :: "node_id \<Rightarrow> state \<Rightarrow> time \<Rightarrow> db \<Rightarrow> (db_error + int) \<times> db" where
  "SetNodeHealth nid health now = inTx (\<lambda>db.
     let db1 = db\<lparr>storage_nodes := sql_update (\<lambda>n. n_id n = nid)
                   (\<lambda>n. n\<lparr>n_health := health, n_updated := now\<rparr>) (storage_nodes db)\<rparr> in
     if health \<noteq> StateDead then Inr (0, db1)
     else Inr (int (sql_count (demotable nid) (chunk_replicas db1)),
               update_replicas (demotable nid) (set_replica_state ReplicaUnavailable now) db1))"

definition MarkReplicasUnavailableOnNode :: "node_id \<Rightarrow> time \<Rightarrow> db \<Rightarrow> (db_error + int) \<times> db" where
  "MarkReplicasUnavailableOnNode nid now = inTx (\<lambda>db.
     Inr (int (sql_count (demotable nid) (chunk_replicas db)),
          update_replicas (demotable nid) (set_replica_state ReplicaUnavailable now) db))"

definition ListNodes :: "bool \<Rightarrow> db \<Rightarrow> Node list" where
  "ListNodes healthyOnly db =
     map scanNode (sort_key n_id
       (filter (\<lambda>n. healthyOnly \<longrightarrow> n_health n = StateHealthy) (storage_nodes db)))"

definition GetNode :: "node_id \<Rightarrow> db \<Rightarrow> db_error + Node" where
  "GetNode nid db = (case find (\<lambda>n. n_id n = nid) (storage_nodes db) of
     None \<Rightarrow> Inl ErrNotFound | Some n \<Rightarrow> Inr (scanNode n))"

section \<open>The invariant\<close>

lemma set_replica_state_keys [simp]:
  "r_chunk (set_replica_state s now r) = r_chunk r" "r_node (set_replica_state s now r) = r_node r"
  "r_state (set_replica_state s now r) = s"
  by (simp_all add: set_replica_state_def)

lemma n_id_set_node [simp]: "n_id (set_node address health st at now n) = n_id n"
  by (simp add: set_node_def)

lemma wf_UpsertNode [wf_intros]: "wf_db db \<Longrightarrow> wf_db (snd (UpsertNode nid a h st at now db))"
  unfolding UpsertNode_def
  by (rule inTx_wf) (auto split: if_splits simp: bex_key_iff intro!: wf_update_nodes wf_insert_node)

lemma wf_RecordHeartbeat [wf_intros]: "wf_db db \<Longrightarrow> wf_db (snd (RecordHeartbeat nid a st h at now db))"
  unfolding RecordHeartbeat_def
  by (rule inTx_wf) (auto split: if_splits intro!: wf_update_nodes)

lemma wf_SetNodeHealth [wf_intros]: "wf_db db \<Longrightarrow> wf_db (snd (SetNodeHealth nid h now db))"
  unfolding SetNodeHealth_def
  by (rule inTx_wf) (auto simp: Let_def split: if_splits intro!: wf_update_nodes wf_update_replicas)

lemma wf_MarkReplicasUnavailableOnNode [wf_intros]:
  "wf_db db \<Longrightarrow> wf_db (snd (MarkReplicasUnavailableOnNode nid now db))"
  unfolding MarkReplicasUnavailableOnNode_def
  by (rule inTx_wf) (auto intro!: wf_update_replicas)

lemma chunk_replicas_update_replicas [simp]:
  "chunk_replicas (update_replicas P f db) = sql_update P f (chunk_replicas db)"
  by (simp add: update_replicas_def fold_refresh)

lemma chunk_replicas_delete_replicas [simp]:
  "chunk_replicas (delete_replicas P db) = sql_delete P (chunk_replicas db)"
  by (simp add: delete_replicas_def fold_refresh)

section \<open>Properties\<close>



end
