(* ===== verification/Metadata_Chunks.thy ===== *)
theory Metadata_Chunks
  imports Metadata_Nodes
begin

text \<open>
  \<^verbatim>\<open>internal/metadata/chunks.go\<close>: reserving chunk identifiers, recording placement targets,
  committing chunks under the durability policy, reading the layout of an object, and queueing the
  replicas of an abandoned owner for deletion.
\<close>

section \<open>Types\<close>

text \<open>\<^verbatim>\<open>ChunkOwner\<close>: exactly one of the two references is set.\<close>

record ChunkOwner =
  ow_ObjectID :: "uuid option"
  ow_PartID :: "uuid option"

text \<open>
  The projections of a chunk and of a replica. The fields that no query fills in (the owner and the
  creation time of a Chunk, the verification time of a Replica) are left out; an empty health
  string, of a replica whose node is unknown, is \<open>None\<close>.
\<close>

record Chunk =
  Chunk_ID :: uuid
  Chunk_Index :: int
  Chunk_SizeBytes :: int
  Chunk_Checksum :: string
  Chunk_State :: chunk_state
  Chunk_CommittedAt :: time

record Replica =
  Rep_ChunkID :: uuid
  Rep_NodeID :: node_id
  Rep_Address :: string
  Rep_NodeHealth :: "state option"
  Rep_State :: replica_state
  Rep_UpdatedAt :: time

record ChunkWithReplicas =
  cw_Chunk :: Chunk
  cw_Replicas :: "Replica list"

section \<open>Reserving chunks\<close>

definition assertOwnerWritable :: "ChunkOwner \<Rightarrow> db \<Rightarrow> db_error option" where
  "assertOwnerWritable owner db =
     (case ow_ObjectID owner of
        Some oid \<Rightarrow>
          (case find (\<lambda>ob. o_id ob = oid) (objects db) of
             None \<Rightarrow> Some ErrNotFound
           | Some ob \<Rightarrow> if o_state ob \<noteq> ObjectUploading then Some ErrConflict else None)
      | None \<Rightarrow>
          (case find (\<lambda>p. Some (p_id p) = ow_PartID owner) (multipart_parts db) of
             None \<Rightarrow> Some ErrNotFound
           | Some p \<Rightarrow> if p_state p \<noteq> PartUploading then Some ErrConflict else None))"

definition at_position :: "ChunkOwner \<Rightarrow> int \<Rightarrow> chunk_row \<Rightarrow> bool" where
  "at_position owner idx c \<longleftrightarrow>
     c_object_id c = ow_ObjectID owner \<and> c_part_id c = ow_PartID owner \<and> c_index c = idx"

text \<open>
  The INSERT with \<^verbatim>\<open>ON CONFLICT (owner, chunk_index) DO UPDATE\<close>: a position that is already taken
  keeps its chunk ID.
\<close>

definition reserve_position :: "ChunkOwner \<Rightarrow> int \<Rightarrow> int \<Rightarrow> uuid \<Rightarrow> time \<Rightarrow> uuid tx" where
  "reserve_position owner idx sizeBytes newID now db =
     (case assertOwnerWritable owner db of
        Some e \<Rightarrow> Inl e
      | None \<Rightarrow>
          if idx < 0 \<or> sizeBytes < 0 then Inl CheckViolation
          else (case find (at_position owner idx) (chunks db) of
              Some c \<Rightarrow>
                Inr (c_id c, db\<lparr>chunks := sql_update (at_position owner idx)
                   (\<lambda>c. c\<lparr>c_size := sizeBytes, c_state := ChunkPending, c_committed := None\<rparr>) (chunks db)\<rparr>)
            | None \<Rightarrow>
                if sql_exists (\<lambda>c. c_id c = newID) (chunks db) then Inl UniqueViolation
                else Inr (newID, db\<lparr>chunks := chunks db @
                   [\<lparr>c_id = newID, c_object_id = ow_ObjectID owner, c_part_id = ow_PartID owner,
                     c_index = idx, c_size = sizeBytes, c_checksum = None, c_state = ChunkPending,
                     c_available = 0, c_created = now, c_committed = None\<rparr>]\<rparr>)))"

definition ReserveChunk ::
  "ChunkOwner \<Rightarrow> int \<Rightarrow> int \<Rightarrow> uuid \<Rightarrow> time \<Rightarrow> db \<Rightarrow> (db_error + uuid) \<times> db"
where
  "ReserveChunk owner idx sizeBytes newID now db =
     (if (ow_ObjectID owner = None) = (ow_PartID owner = None) then (Inl ErrConflict, db)
      else inTx (reserve_position owner idx sizeBytes newID now) db)"

text \<open>One upsert per node, stopping at the first error.\<close>

fun upsert_replicas ::
  "(node_id \<Rightarrow> replica_row) \<Rightarrow> (replica_row \<Rightarrow> replica_row) \<Rightarrow> node_id list \<Rightarrow> db \<Rightarrow> db_error + db"
where
  "upsert_replicas row f [] db = Inr db"
| "upsert_replicas row f (n # ns) db =
     (case upsert_replica (row n) f db of Inl e \<Rightarrow> Inl e | Inr db1 \<Rightarrow> upsert_replicas row f ns db1)"

definition new_replica :: "uuid \<Rightarrow> replica_state \<Rightarrow> time option \<Rightarrow> time \<Rightarrow> node_id \<Rightarrow> replica_row" where
  "new_replica cid st verified now n = \<lparr>r_chunk = cid, r_node = n, r_state = st, r_created = now,
     r_updated = now, r_verified = verified, r_last_error = None\<rparr>"

definition RecordChunkTargets :: "uuid \<Rightarrow> node_id list \<Rightarrow> time \<Rightarrow> db \<Rightarrow> (db_error + unit) \<times> db" where
  "RecordChunkTargets cid targets now = inTx (\<lambda>db.
     case upsert_replicas (new_replica cid ReplicaWriting None now)
            (set_replica_state ReplicaWriting now) targets db of
       Inl e \<Rightarrow> Inl e | Inr db' \<Rightarrow> Inr ((), db'))"

definition AllocateChunk ::
  "ChunkOwner \<Rightarrow> int \<Rightarrow> int \<Rightarrow> node_id list \<Rightarrow> uuid \<Rightarrow> time \<Rightarrow> db \<Rightarrow> (db_error + uuid) \<times> db"
where
  "AllocateChunk owner idx sizeBytes targets newID now db =
     (if targets = [] then (Inl ErrConflict, db)
      else case ReserveChunk owner idx sizeBytes newID now db of
          (Inl e, db1) \<Rightarrow> (Inl e, db1)
        | (Inr cid, db1) \<Rightarrow>
            (case RecordChunkTargets cid targets now db1 of
               (Inl e, db2) \<Rightarrow> (Inl e, db2)
             | (Inr _, db2) \<Rightarrow> (Inr cid, db2)))"

section \<open>Committing chunks\<close>

text \<open>The CHECK constraint on \<^verbatim>\<open>checksum_sha256\<close>: 64 lower-case hexadecimal digits.\<close>

definition checksum_column_ok :: "string \<Rightarrow> bool" where
  "checksum_column_ok s \<longleftrightarrow> length s = 64 \<and> list_all (\<lambda>ch. ch \<in> set ''0123456789abcdef'') s"

definition mark_failed :: "uuid \<Rightarrow> node_id list \<Rightarrow> time \<Rightarrow> db \<Rightarrow> db" where
  "mark_failed cid failed now db =
     fold (\<lambda>n. update_replicas (\<lambda>r. r_chunk r = cid \<and> r_node r = n)
                 (set_replica_state ReplicaUnavailable now)) failed db"

definition touch_owner :: "uuid \<Rightarrow> time \<Rightarrow> db \<Rightarrow> db" where
  "touch_owner cid now db =
     (let cs = filter (\<lambda>c. c_id c = cid) (chunks db);
          oids = map c_object_id cs;
          ups = map p_upload_id (filter (\<lambda>p. Some (p_id p) \<in> set (map c_part_id cs)) (multipart_parts db))
      in db\<lparr>objects := sql_update (\<lambda>ob. Some (o_id ob) \<in> set oids \<and> o_state ob = ObjectUploading)
               (\<lambda>ob. ob\<lparr>o_updated := now\<rparr>) (objects db),
            multipart_uploads := sql_update (\<lambda>u. u_id u \<in> set ups \<and> u_state u = MultipartInProgress)
               (\<lambda>u. u\<lparr>u_updated := now\<rparr>) (multipart_uploads db)\<rparr>)"

text \<open>
  \<^verbatim>\<open>CommitChunk\<close> returns the number of AVAILABLE replicas together with the error, so a refused
  commit still reports the count; the transaction is rolled back on every error.
\<close>

definition CommitChunk ::
  "uuid \<Rightarrow> string \<Rightarrow> int \<Rightarrow> node_id list \<Rightarrow> node_id list \<Rightarrow> int \<Rightarrow> time \<Rightarrow> db
   \<Rightarrow> (int \<times> db_error option) \<times> db"
where
  "CommitChunk cid checksum sizeBytes succeeded failed minReplicas now db =
     (if \<not> sql_exists (\<lambda>c. c_id c = cid) (chunks db) then ((0, Some ErrNotFound), db)
      else case upsert_replicas (new_replica cid ReplicaAvailable (Some now) now)
                  (\<lambda>r. (set_replica_state ReplicaAvailable now r)\<lparr>r_verified := Some now\<rparr>)
                  succeeded (mark_failed cid failed now db) of
          Inl e \<Rightarrow> ((0, Some e), db)
        | Inr db1 \<Rightarrow>
            (let available = available_count (chunk_replicas db1) cid in
             if available < minReplicas then ((available, Some ErrDurabilityNotMet), db)
             else if \<not> checksum_column_ok checksum \<or> sizeBytes < 0
             then ((available, Some CheckViolation), db)
             else ((available, None),
                touch_owner cid now
                  (db1\<lparr>chunks := sql_update (\<lambda>c. c_id c = cid)
                     (\<lambda>c. c\<lparr>c_state := ChunkCommitted, c_checksum := Some checksum, c_size := sizeBytes,
                            c_committed := Some now\<rparr>) (chunks db1)\<rparr>))))"

section \<open>Reading layouts\<close>

definition ObjectKeyForChunk :: "uuid \<Rightarrow> db \<Rightarrow> db_error + (string \<times> string)" where
  "ObjectKeyForChunk cid db =
     (case find (\<lambda>c. c_id c = cid) (chunks db) of
        None \<Rightarrow> Inl ErrNotFound
      | Some c \<Rightarrow>
          (case find (\<lambda>ob. Some (o_id ob) = c_object_id c) (objects db) of
             None \<Rightarrow> Inl ErrNotFound
           | Some ob \<Rightarrow> Inr (o_bucket ob, o_key ob)))"

text \<open>
  The rows of the two LEFT JOINs: a chunk without replicas gives one row without a replica, which
  the filter on available replicas (a comparison with NULL) drops.
\<close>

type_synonym layout_row = "chunk_row \<times> (replica_row \<times> node_row option) option"

definition join_rows :: "(chunk_row \<Rightarrow> bool) \<Rightarrow> db \<Rightarrow> layout_row list" where
  "join_rows P db = concat (map (\<lambda>c.
     (let rs = filter (\<lambda>r. r_chunk r = c_id c) (chunk_replicas db) in
      if rs = [] then [(c, None)]
      else map (\<lambda>r. (c, Some (r, find (\<lambda>n. n_id n = r_node r) (storage_nodes db)))) rs))
     (filter P (chunks db)))"

definition readable_row :: "layout_row \<Rightarrow> bool" where
  "readable_row row = (case snd row of
       Some (r, Some n) \<Rightarrow> r_state r = ReplicaAvailable \<and> n_health n \<noteq> StateDead
     | _ \<Rightarrow> False)"

definition layout_key :: "layout_row \<Rightarrow> int \<times> nat \<times> string" where
  "layout_key row = (c_index (fst row),
     case snd row of Some (r, _) \<Rightarrow> (0, r_node r) | None \<Rightarrow> (1, ''''))"

definition scan_chunk :: "chunk_row \<Rightarrow> Chunk" where
  "scan_chunk c = \<lparr>Chunk_ID = c_id c, Chunk_Index = c_index c, Chunk_SizeBytes = c_size c,
     Chunk_Checksum = nullString (c_checksum c), Chunk_State = c_state c,
     Chunk_CommittedAt = nullTime (c_committed c)\<rparr>"

definition scan_replica :: "chunk_row \<Rightarrow> replica_row \<times> node_row option \<Rightarrow> Replica" where
  "scan_replica c rn = (case rn of (r, n) \<Rightarrow>
     \<lparr>Rep_ChunkID = c_id c, Rep_NodeID = r_node r,
      Rep_Address = (case n of None \<Rightarrow> '''' | Some n \<Rightarrow> n_address n),
      Rep_NodeHealth = map_option n_health n, Rep_State = r_state r, Rep_UpdatedAt = r_updated r\<rparr>)"

text \<open>
  The loop over the rows: a row of a new chunk starts a new entry, a row with a replica adds it to
  the last entry.
\<close>

definition add_row :: "ChunkWithReplicas list \<Rightarrow> layout_row \<Rightarrow> ChunkWithReplicas list" where
  "add_row out row =
     (let c = fst row;
          out1 = (if out = [] \<or> Chunk_ID (cw_Chunk (last out)) \<noteq> c_id c
                  then out @ [\<lparr>cw_Chunk = scan_chunk c, cw_Replicas = []\<rparr>] else out)
      in (case snd row of
            None \<Rightarrow> out1
          | Some rn \<Rightarrow> butlast out1 @
              [(last out1)\<lparr>cw_Replicas := cw_Replicas (last out1) @ [scan_replica c rn]\<rparr>]))"

definition chunksWhere :: "(chunk_row \<Rightarrow> bool) \<Rightarrow> bool \<Rightarrow> db \<Rightarrow> ChunkWithReplicas list" where
  "chunksWhere P availableOnly db =
     foldl add_row [] (sort_key layout_key
       (filter (\<lambda>row. availableOnly \<longrightarrow> readable_row row) (join_rows P db)))"

definition ChunksForObject :: "uuid \<Rightarrow> bool \<Rightarrow> db \<Rightarrow> ChunkWithReplicas list" where
  "ChunksForObject oid = chunksWhere (\<lambda>c. c_object_id c = Some oid \<and> c_state c = ChunkCommitted)"

definition ChunksForPart :: "uuid \<Rightarrow> bool \<Rightarrow> db \<Rightarrow> ChunkWithReplicas list" where
  "ChunksForPart pid = chunksWhere (\<lambda>c. c_part_id c = Some pid \<and> c_state c = ChunkCommitted)"

section \<open>Reclaiming chunks\<close>

text \<open>
  \<open>queue_replica_deletions P\<close>: the two statements all reclaiming code shares. Every replica of a
  chunk that satisfies \<open>P\<close> and is not DELETING yet is queued, then all of them become DELETING.
\<close>

definition queue_replica_deletions :: "(chunk_row \<Rightarrow> bool) \<Rightarrow> time \<Rightarrow> db \<Rightarrow> db" where
  "queue_replica_deletions P now db =
     (let cids = map c_id (filter P (chunks db));
          pairs = map (\<lambda>r. (r_chunk r, r_node r))
            (filter (\<lambda>r. r_chunk r \<in> set cids \<and> r_state r \<noteq> ReplicaDeleting) (chunk_replicas db))
      in update_replicas (\<lambda>r. r_chunk r \<in> set cids) (set_replica_state ReplicaDeleting now)
           (insert_deletions now pairs db))"

definition enqueueObjectChunkDeletions :: "uuid \<Rightarrow> time \<Rightarrow> db \<Rightarrow> db" where
  "enqueueObjectChunkDeletions oid = queue_replica_deletions (\<lambda>c. c_object_id c = Some oid)"

definition orphanObjectChunks :: "uuid \<Rightarrow> time \<Rightarrow> db \<Rightarrow> db" where
  "orphanObjectChunks oid now db =
     enqueueObjectChunkDeletions oid now
       (db\<lparr>chunks := sql_update (\<lambda>c. c_object_id c = Some oid) (\<lambda>c. c\<lparr>c_state := ChunkOrphaned\<rparr>) (chunks db)\<rparr>)"

definition enqueuePartChunkDeletions :: "uuid \<Rightarrow> time \<Rightarrow> db \<Rightarrow> db" where
  "enqueuePartChunkDeletions uploadID now db =
     queue_replica_deletions
       (\<lambda>c. c_part_id c \<in> Some ` p_id ` set (filter (\<lambda>p. p_upload_id p = uploadID) (multipart_parts db)))
       now db"

section \<open>The invariant\<close>

text \<open>
  Besides \<open>wf_db\<close>, the store keeps every replica that is to be deleted on the deletion queue: the
  garbage collector never loses track of one.
\<close>

definition tracked :: "(uuid \<times> node_id) set \<Rightarrow> replica_row list \<Rightarrow> bool" where
  "tracked Q rs \<longleftrightarrow> (\<forall>r \<in> set rs. r_state r = ReplicaDeleting \<longrightarrow> (r_chunk r, r_node r) \<in> Q)"

abbreviation deletions_tracked :: "db \<Rightarrow> bool" where
  "deletions_tracked db \<equiv> tracked (queued db) (chunk_replicas db)"

named_theorems track_intros \<open>statements that keep replicas to be deleted on the queue\<close>

lemma inTx_tracked:
  assumes "deletions_tracked db" "\<And>x db'. body db = Inr (x, db') \<Longrightarrow> deletions_tracked db'"
  shows "deletions_tracked (snd (inTx body db))"
  using assms by (auto simp: inTx_def split: sum.splits)

lemma chunk_deletions_replica_statements [simp]:
  "chunk_deletions (update_replicas P f db) = chunk_deletions db"
  "chunk_deletions (delete_replicas P db) = chunk_deletions db"
  "chunk_deletions (delete_chunks Q db) = chunk_deletions db"
  by (simp_all add: update_replicas_def delete_replicas_def delete_chunks_def fold_refresh Let_def)

lemma tracked_update [track_intros]:
  assumes "tracked Q rs"
    and "\<And>r. r \<in> set rs \<Longrightarrow> P r \<Longrightarrow> r_state (f r) = ReplicaDeleting \<Longrightarrow> (r_chunk (f r), r_node (f r)) \<in> Q"
  shows "tracked Q (sql_update P f rs)"
  using assms by (auto simp: tracked_def elim!: in_sql_updateE)

lemma tracked_delete [track_intros]: "tracked Q rs \<Longrightarrow> tracked Q (sql_delete P rs)"
  by (auto simp: tracked_def)

lemma tracked_mono: "tracked Q rs \<Longrightarrow> Q \<subseteq> Q' \<Longrightarrow> tracked Q' rs"
  by (auto simp: tracked_def)

lemma tracked_upsert_replica:
  assumes "deletions_tracked db" "upsert_replica row f db = Inr db'"
    and "\<And>r. r_state (f r) \<noteq> ReplicaDeleting" "r_state row \<noteq> ReplicaDeleting"
  shows "deletions_tracked db'"
  using assms
  by (auto simp: upsert_replica_def refresh_available_replicas_def tracked_def
        split: if_splits elim!: in_sql_updateE)

subsection \<open>Reserving and recording\<close>

lemma assertOwnerWritable_None:
  assumes "assertOwnerWritable owner db = None" "(ow_ObjectID owner = None) \<noteq> (ow_PartID owner = None)"
  shows "ow_ObjectID owner \<in> insert None (Some ` object_ids db)
       \<and> ow_PartID owner \<in> insert None (Some ` part_ids db)"
  using assms
  by (auto simp: assertOwnerWritable_def split: option.splits if_splits dest!: find_Some_in)

lemma wf_reserve_position:
  assumes "wf_db db" "reserve_position owner idx sz newID now db = Inr (cid, db')"
    and own: "(ow_ObjectID owner = None) \<noteq> (ow_PartID owner = None)"
  shows "wf_db db'"
proof (cases "find (at_position owner idx) (chunks db)")
  case None
  then have free: "(ow_ObjectID owner, ow_PartID owner, idx) \<notin> (\<lambda>c. (c_object_id c, c_part_id c, c_index c)) ` set (chunks db)"
    using find_None_not [OF None] by (force simp: at_position_def)
  have w: "assertOwnerWritable owner db = None" and "newID \<notin> chunk_ids db"
    and db': "db' = db\<lparr>chunks := chunks db @
                   [\<lparr>c_id = newID, c_object_id = ow_ObjectID owner, c_part_id = ow_PartID owner,
                     c_index = idx, c_size = sz, c_checksum = None, c_state = ChunkPending,
                     c_available = 0, c_created = now, c_committed = None\<rparr>]\<rparr>"
    using assms(2) None by (auto simp: reserve_position_def bex_key_iff split: option.splits if_splits)
  then show ?thesis
    unfolding db' using assms(1) assertOwnerWritable_None [OF w own] own free
    by (intro wf_insert_chunk) auto
next
  case (Some c)
  then have "db' = db\<lparr>chunks := sql_update (at_position owner idx)
       (\<lambda>c. c\<lparr>c_size := sz, c_state := ChunkPending, c_committed := None\<rparr>) (chunks db)\<rparr>"
    using assms(2) by (auto simp: reserve_position_def split: option.splits if_splits)
  then show ?thesis using wf_update_chunks [OF assms(1)] by simp
qed

lemma wf_ReserveChunk [wf_intros]:
  "wf_db db \<Longrightarrow> wf_db (snd (ReserveChunk owner idx sz newID now db))"
  using wf_reserve_position [of db owner idx sz newID now] inTx_wf [of db "reserve_position owner idx sz newID now"]
  by (cases "(ow_ObjectID owner = None) = (ow_PartID owner = None)") (simp_all add: ReserveChunk_def)

lemma wf_upsert_replicas:
  assumes "wf_db db" "upsert_replicas row f ns db = Inr db'"
    and "\<And>r. r_chunk (f r) = r_chunk r \<and> r_node (f r) = r_node r"
  shows "wf_db db'"
  using assms(1,2)
proof (induction ns arbitrary: db)
  case (Cons n ns)
  then show ?case using wf_upsert_replica [OF Cons.prems(1) _ assms(3)] by (auto split: sum.splits)
qed simp

lemma tracked_upsert_replicas:
  assumes "deletions_tracked db" "upsert_replicas row f ns db = Inr db'"
    and "\<And>r. r_state (f r) \<noteq> ReplicaDeleting" "\<And>n. r_state (row n) \<noteq> ReplicaDeleting"
  shows "deletions_tracked db'"
  using assms(1,2)
proof (induction ns arbitrary: db)
  case (Cons n ns)
  from Cons.prems(2) obtain db1 where "upsert_replica (row n) f db = Inr db1"
    "upsert_replicas row f ns db1 = Inr db'" by (auto split: sum.splits)
  moreover from this(1) have "deletions_tracked db1"
    using assms(3,4) by (rule tracked_upsert_replica [OF Cons.prems(1)])
  ultimately show ?case using Cons.IH by blast
qed simp

lemma wf_RecordChunkTargets [wf_intros]:
  "wf_db db \<Longrightarrow> wf_db (snd (RecordChunkTargets cid targets now db))"
  unfolding RecordChunkTargets_def
  by (rule inTx_wf) (auto split: sum.splits elim!: wf_upsert_replicas)

lemma wf_AllocateChunk [wf_intros]:
  assumes "wf_db db"
  shows "wf_db (snd (AllocateChunk owner idx sz targets newID now db))"
proof -
  obtain r1 db1 where 1: "ReserveChunk owner idx sz newID now db = (r1, db1)" by fastforce
  then have wf1: "wf_db db1" using wf_ReserveChunk [OF assms, of owner idx sz newID now] by simp
  show ?thesis
  proof (cases r1)
    case (Inr cid)
    obtain r2 db2 where 2: "RecordChunkTargets cid targets now db1 = (r2, db2)" by fastforce
    then have "wf_db db2" using wf_RecordChunkTargets [OF wf1, of cid targets now] by simp
    then show ?thesis using assms 1 2 Inr by (simp add: AllocateChunk_def split: sum.splits)
  qed (use assms 1 wf1 in \<open>simp add: AllocateChunk_def\<close>)
qed

lemma reserve_position_frame:
  assumes "reserve_position owner idx sz newID now db = Inr (cid, db')"
  shows "chunk_replicas db' = chunk_replicas db" "chunk_deletions db' = chunk_deletions db"
  using assms by (auto simp: reserve_position_def split: option.splits if_splits)

lemma tracked_ReserveChunk [track_intros]:
  assumes "deletions_tracked db"
  shows "deletions_tracked (snd (ReserveChunk owner idx sz newID now db))"
  using assms inTx_tracked [OF assms, of "reserve_position owner idx sz newID now"]
  by (auto simp: ReserveChunk_def reserve_position_frame)

lemma tracked_RecordChunkTargets [track_intros]:
  assumes "deletions_tracked db"
  shows "deletions_tracked (snd (RecordChunkTargets cid targets now db))"
  unfolding RecordChunkTargets_def
proof (rule inTx_tracked [OF assms])
  fix x db' assume "(case upsert_replicas (new_replica cid ReplicaWriting None now)
      (set_replica_state ReplicaWriting now) targets db of Inl e \<Rightarrow> Inl e | Inr db' \<Rightarrow> Inr ((), db')) = Inr (x, db')"
  then show "deletions_tracked db'"
    using assms by (auto split: sum.splits simp: new_replica_def elim!: tracked_upsert_replicas)
qed

subsection \<open>Committing\<close>

lemma wf_mark_failed: "wf_db db \<Longrightarrow> wf_db (mark_failed cid failed now db)"
  unfolding mark_failed_def
  by (induction failed arbitrary: db) (simp_all add: wf_update_replicas)

lemma tracked_mark_failed: "deletions_tracked db \<Longrightarrow> deletions_tracked (mark_failed cid failed now db)"
  unfolding mark_failed_def
proof (induction failed arbitrary: db)
  case (Cons n failed)
  have "deletions_tracked (update_replicas (\<lambda>r. r_chunk r = cid \<and> r_node r = n)
      (set_replica_state ReplicaUnavailable now) db)"
    using Cons.prems by (auto intro!: tracked_update)
  from Cons.IH [OF this] show ?case by simp
qed simp

lemma wf_touch_owner [wf_intros]: "wf_db db \<Longrightarrow> wf_db (touch_owner cid now db)"
proof -
  assume wf: "wf_db db"
  let ?db1 = "\<lambda>P. db\<lparr>objects := sql_update P (\<lambda>ob. ob\<lparr>o_updated := now\<rparr>) (objects db)\<rparr>"
  have "wf_db (?db1 P)" for P using wf by (intro wf_update_objects) auto
  then have "wf_db (?db1 P\<lparr>multipart_uploads := sql_update Q (\<lambda>u. u\<lparr>u_updated := now\<rparr>) (multipart_uploads (?db1 P))\<rparr>)" for P Q
    by (rule wf_update_uploads) simp
  then show ?thesis by (simp add: touch_owner_def Let_def)
qed

lemma touch_owner_frame [simp]:
  "chunk_replicas (touch_owner cid now db) = chunk_replicas db"
  "chunk_deletions (touch_owner cid now db) = chunk_deletions db"
  "chunks (touch_owner cid now db) = chunks db"
  by (simp_all add: touch_owner_def Let_def)

text \<open>A successful commit, as the chain of statements it consists of.\<close>

lemma CommitChunk_success:
  assumes "CommitChunk cid checksum sz succeeded failed minR now db = ((n, None), db')"
  obtains db1 where
    "upsert_replicas (new_replica cid ReplicaAvailable (Some now) now)
       (\<lambda>r. (set_replica_state ReplicaAvailable now r)\<lparr>r_verified := Some now\<rparr>)
       succeeded (mark_failed cid failed now db) = Inr db1"
    "n = available_count (chunk_replicas db1) cid" "minR \<le> n" "checksum_column_ok checksum" "0 \<le> sz"
    "cid \<in> chunk_ids db"
    "db' = touch_owner cid now (db1\<lparr>chunks := sql_update (\<lambda>c. c_id c = cid)
        (\<lambda>c. c\<lparr>c_state := ChunkCommitted, c_checksum := Some checksum, c_size := sz,
               c_committed := Some now\<rparr>) (chunks db1)\<rparr>)"
  using assms by (auto simp: CommitChunk_def Let_def bex_key_iff split: if_splits sum.splits)

lemma CommitChunk_error:
  "CommitChunk cid checksum sz succeeded failed minR now db = ((n, Some e), db') \<Longrightarrow> db' = db"
  by (auto simp: CommitChunk_def Let_def split: if_splits sum.splits)

lemma wf_CommitChunk [wf_intros]:
  assumes "wf_db db"
  shows "wf_db (snd (CommitChunk cid checksum sz succeeded failed minR now db))"
proof -
  obtain n err db' where eq: "CommitChunk cid checksum sz succeeded failed minR now db = ((n, err), db')"
    by (metis surj_pair)
  show ?thesis
  proof (cases err)
    case None
    with eq obtain db1 where u: "upsert_replicas (new_replica cid ReplicaAvailable (Some now) now)
       (\<lambda>r. (set_replica_state ReplicaAvailable now r)\<lparr>r_verified := Some now\<rparr>)
       succeeded (mark_failed cid failed now db) = Inr db1"
      and db': "db' = touch_owner cid now (db1\<lparr>chunks := sql_update (\<lambda>c. c_id c = cid)
        (\<lambda>c. c\<lparr>c_state := ChunkCommitted, c_checksum := Some checksum, c_size := sz,
               c_committed := Some now\<rparr>) (chunks db1)\<rparr>)"
      by (auto elim: CommitChunk_success)
    have "wf_db db1" using wf_upsert_replicas [OF wf_mark_failed [OF assms] u] by simp
    then have "wf_db db'" unfolding db' by (intro wf_touch_owner wf_update_chunks) auto
    then show ?thesis using eq by simp
  next
    case (Some e)
    then show ?thesis using eq CommitChunk_error assms by force
  qed
qed

lemma tracked_CommitChunk [track_intros]:
  assumes "deletions_tracked db"
  shows "deletions_tracked (snd (CommitChunk cid checksum sz succeeded failed minR now db))"
proof -
  obtain n err db' where eq: "CommitChunk cid checksum sz succeeded failed minR now db = ((n, err), db')"
    by (metis surj_pair)
  show ?thesis
  proof (cases err)
    case None
    with eq obtain db1 where u: "upsert_replicas (new_replica cid ReplicaAvailable (Some now) now)
       (\<lambda>r. (set_replica_state ReplicaAvailable now r)\<lparr>r_verified := Some now\<rparr>)
       succeeded (mark_failed cid failed now db) = Inr db1"
      and "chunk_replicas db' = chunk_replicas db1" "chunk_deletions db' = chunk_deletions db1"
      by (auto elim: CommitChunk_success)
    moreover have "deletions_tracked db1"
      using tracked_upsert_replicas [OF tracked_mark_failed [OF assms] u] by (simp add: new_replica_def)
    ultimately show ?thesis using eq by simp
  next
    case (Some e)
    then show ?thesis using eq CommitChunk_error assms by force
  qed
qed

subsection \<open>Reclaiming\<close>

lemma wf_queue_replica_deletions [wf_intros]:
  "wf_db db \<Longrightarrow> wf_db (queue_replica_deletions P now db)"
  by (auto simp: queue_replica_deletions_def Let_def intro!: wf_update_replicas wf_insert_deletions)

lemma tracked_queue_replica_deletions [track_intros]:
  assumes "deletions_tracked db"
  shows "deletions_tracked (queue_replica_deletions P now db)"
proof -
  let ?cids = "set (map c_id (filter P (chunks db)))"
  let ?pairs = "map (\<lambda>r. (r_chunk r, r_node r))
     (filter (\<lambda>r. r_chunk r \<in> ?cids \<and> r_state r \<noteq> ReplicaDeleting) (chunk_replicas db))"
  have Q: "queued (queue_replica_deletions P now db) = queued db \<union> set ?pairs"
    by (simp add: queue_replica_deletions_def Let_def queued_insert_deletions)
  have R: "chunk_replicas (queue_replica_deletions P now db)
      = sql_update (\<lambda>r. r_chunk r \<in> ?cids) (set_replica_state ReplicaDeleting now) (chunk_replicas db)"
    by (simp add: queue_replica_deletions_def Let_def)
  have "(r_chunk r, r_node r) \<in> queued db \<union> set ?pairs" if "r \<in> set (chunk_replicas db)" "r_chunk r \<in> ?cids" for r
    using assms that by (cases "r_state r = ReplicaDeleting") (auto simp: tracked_def)
  with assms show ?thesis
    unfolding Q R by (intro tracked_update) (auto intro: tracked_mono)
qed

lemma wf_enqueue [wf_intros]:
  "wf_db db \<Longrightarrow> wf_db (enqueueObjectChunkDeletions oid now db)"
  "wf_db db \<Longrightarrow> wf_db (enqueuePartChunkDeletions uid now db)"
  "wf_db db \<Longrightarrow> wf_db (orphanObjectChunks oid now db)"
  by (auto simp: enqueueObjectChunkDeletions_def enqueuePartChunkDeletions_def orphanObjectChunks_def
      intro!: wf_queue_replica_deletions wf_update_chunks)

lemma tracked_enqueue [track_intros]:
  "deletions_tracked db \<Longrightarrow> deletions_tracked (enqueueObjectChunkDeletions oid now db)"
  "deletions_tracked db \<Longrightarrow> deletions_tracked (enqueuePartChunkDeletions uid now db)"
  "deletions_tracked db \<Longrightarrow> deletions_tracked (orphanObjectChunks oid now db)"
  by (auto simp: enqueueObjectChunkDeletions_def enqueuePartChunkDeletions_def orphanObjectChunks_def
      intro!: tracked_queue_replica_deletions)

section \<open>The state of a replica\<close>

text \<open>The state of the replica of a chunk on a node, if there is one: the view the properties use.\<close>

definition replica_at :: "replica_row list \<Rightarrow> uuid \<Rightarrow> node_id \<Rightarrow> replica_state option" where
  "replica_at rs cid n = map_option r_state (find (\<lambda>r. r_chunk r = cid \<and> r_node r = n) rs)"

lemma replica_at_NoneD: "replica_at rs cid n = None \<Longrightarrow> r \<in> set rs \<Longrightarrow> \<not> (r_chunk r = cid \<and> r_node r = n)"
  by (auto simp: replica_at_def find_None_iff)

lemma replica_at_SomeD:
  "replica_at rs cid n = Some s \<Longrightarrow> \<exists>r \<in> set rs. r_chunk r = cid \<and> r_node r = n \<and> r_state r = s"
  by (auto simp: replica_at_def dest: find_Some_in)

lemma replica_at_in:
  assumes "wf_db db" "r \<in> set (chunk_replicas db)"
  shows "replica_at (chunk_replicas db) (r_chunk r) (r_node r) = Some (r_state r)"
  using find_Some_distinct [of "\<lambda>r. (r_chunk r, r_node r)" "chunk_replicas db" r] assms
  by (simp add: wf_db_def replicas_ok_def replica_at_def)

lemma replica_at_iff:
  "wf_db db \<Longrightarrow> replica_at (chunk_replicas db) cid n = Some s \<longleftrightarrow>
     (\<exists>r \<in> set (chunk_replicas db). r_chunk r = cid \<and> r_node r = n \<and> r_state r = s)"
  using replica_at_in replica_at_SomeD by fastforce

text \<open>An update whose condition looks only at the key and, on rows it changes, sets the state \<open>S\<close>.\<close>

lemma replica_at_update_key:
  assumes "\<And>r. r_chunk (f r) = r_chunk r \<and> r_node (f r) = r_node r \<and> r_state (f r) = S"
  shows "replica_at (sql_update (\<lambda>r. K (r_chunk r) (r_node r)) f rs) cid n =
    (if K cid n then map_option (\<lambda>_. S) (replica_at rs cid n) else replica_at rs cid n)"
  using assms by (induction rs) (auto simp: replica_at_def sql_update_def)

lemma replica_at_append:
  "replica_at (rs @ [row]) cid n =
    (case replica_at rs cid n of Some s \<Rightarrow> Some s
     | None \<Rightarrow> if r_chunk row = cid \<and> r_node row = n then Some (r_state row) else None)"
  by (induction rs) (auto simp: replica_at_def split: option.splits)

lemma chunk_replicas_refresh [simp]:
  "chunk_replicas (refresh_available_replicas i db) = chunk_replicas db"
  by (simp add: refresh_available_replicas_def)

lemma replica_at_upsert:
  assumes "upsert_replica row f db = Inr db'" "r_state row = S"
    and "\<And>r. r_chunk (f r) = r_chunk r \<and> r_node (f r) = r_node r \<and> r_state (f r) = S"
  shows "replica_at (chunk_replicas db') cid n =
    (if r_chunk row = cid \<and> r_node row = n then Some S else replica_at (chunk_replicas db) cid n)"
proof (cases "\<exists>r\<in>set (chunk_replicas db). r_chunk r = r_chunk row \<and> r_node r = r_node row")
  case True
  then have "replica_at (chunk_replicas db) (r_chunk row) (r_node row) \<noteq> None"
    using replica_at_NoneD by blast
  with True assms show ?thesis
    using replica_at_update_key [OF assms(3), of "\<lambda>c m. c = r_chunk row \<and> m = r_node row" "chunk_replicas db" cid n]
    by (auto simp: upsert_replica_def)
next
  case False
  then have "replica_at (chunk_replicas db) (r_chunk row) (r_node row) = None"
    using replica_at_SomeD by (metis not_None_eq)
  with False assms show ?thesis
    by (auto simp: upsert_replica_def replica_at_append split: if_splits option.splits)
qed

lemma replica_at_upserts:
  assumes "upsert_replicas row f ns db = Inr db'" "\<And>m. r_state (row m) = S \<and> r_chunk (row m) = c \<and> r_node (row m) = m"
    and "\<And>r. r_chunk (f r) = r_chunk r \<and> r_node (f r) = r_node r \<and> r_state (f r) = S"
  shows "replica_at (chunk_replicas db') cid n =
    (if c = cid \<and> n \<in> set ns then Some S else replica_at (chunk_replicas db) cid n)"
  using assms(1)
proof (induction ns arbitrary: db)
  case (Cons m ns)
  then obtain db1 where "upsert_replica (row m) f db = Inr db1" "upsert_replicas row f ns db1 = Inr db'"
    by (auto split: sum.splits)
  then show ?case
    using Cons.IH [of db1] replica_at_upsert [of "row m" f db db1 S cid n] assms(2,3) by auto
qed simp

lemma replica_at_mark_failed:
  "replica_at (chunk_replicas (mark_failed c failed now db)) cid n =
    (if c = cid \<and> n \<in> set failed then map_option (\<lambda>_. ReplicaUnavailable) (replica_at (chunk_replicas db) cid n)
     else replica_at (chunk_replicas db) cid n)"
  unfolding mark_failed_def
proof (induction failed arbitrary: db)
  case (Cons m failed)
  let ?db1 = "update_replicas (\<lambda>r. r_chunk r = c \<and> r_node r = m) (set_replica_state ReplicaUnavailable now) db"
  have "replica_at (chunk_replicas ?db1) cid n =
    (if c = cid \<and> m = n then map_option (\<lambda>_. ReplicaUnavailable) (replica_at (chunk_replicas db) cid n)
     else replica_at (chunk_replicas db) cid n)"
    using replica_at_update_key [of "set_replica_state ReplicaUnavailable now" ReplicaUnavailable
        "\<lambda>c' m'. c' = c \<and> m' = m" "chunk_replicas db" cid n] by auto
  then show ?case using Cons.IH [of ?db1] by (auto simp: option.map_comp o_def)
qed simp

lemma replica_at_queue_deletions:
  "replica_at (chunk_replicas (queue_replica_deletions P now db)) cid n =
    (if \<exists>c \<in> set (chunks db). P c \<and> c_id c = cid
     then map_option (\<lambda>_. ReplicaDeleting) (replica_at (chunk_replicas db) cid n)
     else replica_at (chunk_replicas db) cid n)"
  using replica_at_update_key [of "set_replica_state ReplicaDeleting now" ReplicaDeleting
      "\<lambda>c m. c \<in> set (map c_id (filter P (chunks db)))" "chunk_replicas db" cid n]
  by (auto simp: queue_replica_deletions_def Let_def)

lemma available_count_pos:
  "wf_db db \<Longrightarrow> 0 < available_count (chunk_replicas db) cid \<longleftrightarrow>
     (\<exists>n. replica_at (chunk_replicas db) cid n = Some ReplicaAvailable)"
  by (auto simp: replica_at_iff available_count_def sql_count_def filter_empty_conv)

text \<open>The number of AVAILABLE replicas is the number of nodes that hold one.\<close>

lemma available_count_card:
  assumes "wf_db db"
  shows "available_count (chunk_replicas db) cid
    = int (card {n. replica_at (chunk_replicas db) cid n = Some ReplicaAvailable})"
proof -
  let ?rs = "filter (\<lambda>r. r_chunk r = cid \<and> r_state r = ReplicaAvailable) (chunk_replicas db)"
  have "distinct (map (\<lambda>r. (r_chunk r, r_node r)) (chunk_replicas db))"
    using assms by (simp add: wf_db_def replicas_ok_def)
  then have "distinct (map r_node ?rs)" by (auto simp: distinct_map inj_on_def)
  moreover have "{n. replica_at (chunk_replicas db) cid n = Some ReplicaAvailable} = set (map r_node ?rs)"
    using assms by (auto simp: replica_at_iff)
  ultimately show ?thesis
    by (simp only: distinct_card) (simp add: available_count_def sql_count_def)
qed

section \<open>The layout of an object\<close>

lemma remdups_adj_snoc:
  "remdups_adj (xs @ [x]) = (if xs \<noteq> [] \<and> last xs = x then remdups_adj xs else remdups_adj xs @ [x])"
  by (induction xs rule: remdups_adj.induct) auto

lemma sorted_remdups_adj_distinct:
  "sorted (map k xs) \<Longrightarrow> inj_on k (set xs) \<Longrightarrow> distinct (remdups_adj xs)"
proof (induction xs rule: remdups_adj.induct)
  case (3 x y xs)
  show ?case
  proof (cases "x = y")
    case False
    have "x \<notin> set (y # xs)"
    proof
      assume "x \<in> set (y # xs)"
      then have "k y \<le> k x" using 3(3) by auto
      moreover have "k x \<le> k y" using 3(3) by auto
      ultimately show False using False 3(4) by (auto simp: inj_on_def)
    qed
    then show ?thesis using 3 False by auto
  qed (use 3 in \<open>auto simp: inj_on_def\<close>)
qed auto

lemma sorted_map_remdups_adj: "sorted (map k xs) \<Longrightarrow> sorted (map k (remdups_adj xs))"
  by (induction xs rule: remdups_adj.induct) auto

text \<open>The entry of a chunk: the chunk with the replicas of its rows, in row order.\<close>

definition layout_entry :: "layout_row list \<Rightarrow> chunk_row \<Rightarrow> ChunkWithReplicas" where
  "layout_entry rows c = \<lparr>cw_Chunk = scan_chunk c,
     cw_Replicas = map (scan_replica c) (List.map_filter snd (filter (\<lambda>row. fst row = c) rows))\<rparr>"

lemma map_filter_snoc:
  "List.map_filter f (xs @ [x]) = List.map_filter f xs @ (case f x of None \<Rightarrow> [] | Some y \<Rightarrow> [y])"
  by (induction xs) (auto simp: List.map_filter_def split: option.splits)

lemma layout_entry_snoc:
  "layout_entry (rows @ [x]) c =
     (if fst x = c then case snd x of None \<Rightarrow> layout_entry rows c
        | Some rn \<Rightarrow> (layout_entry rows c)\<lparr>cw_Replicas := cw_Replicas (layout_entry rows c) @ [scan_replica c rn]\<rparr>
      else layout_entry rows c)"
  by (auto simp: layout_entry_def map_filter_snoc split: option.splits)

lemma add_row_same:
  "Chunk_ID (cw_Chunk e) = c_id (fst x) \<Longrightarrow> add_row (out @ [e]) x = out @
     [case snd x of None \<Rightarrow> e | Some rn \<Rightarrow> e\<lparr>cw_Replicas := cw_Replicas e @ [scan_replica (fst x) rn]\<rparr>]"
  by (auto simp: add_row_def Let_def split: option.splits)

lemma add_row_new:
  "out = [] \<or> Chunk_ID (cw_Chunk (last out)) \<noteq> c_id (fst x) \<Longrightarrow> add_row out x = out @
     [\<lparr>cw_Chunk = scan_chunk (fst x),
       cw_Replicas = (case snd x of None \<Rightarrow> [] | Some rn \<Rightarrow> [scan_replica (fst x) rn])\<rparr>]"
  by (auto simp: add_row_def Let_def split: option.splits)

lemma layout_entry_fresh:
  "c \<notin> fst ` set rows \<Longrightarrow> layout_entry rows c = \<lparr>cw_Chunk = scan_chunk c, cw_Replicas = []\<rparr>"
proof -
  assume "c \<notin> fst ` set rows"
  then have "filter (\<lambda>row. fst row = c) rows = []" by (auto simp: filter_empty_conv)
  then show ?thesis by (simp add: layout_entry_def List.map_filter_def)
qed

lemma Chunk_ID_layout_entry [simp]: "Chunk_ID (cw_Chunk (layout_entry rows c)) = c_id c"
  by (simp add: layout_entry_def scan_chunk_def)

lemma foldl_add_row:
  assumes "sorted (map (c_index \<circ> fst) rows)"
    and "inj_on c_index (fst ` set rows)" "inj_on c_id (fst ` set rows)"
  shows "foldl add_row [] rows = map (layout_entry rows) (remdups_adj (map fst rows))"
  using assms
proof (induction rows rule: rev_induct)
  case (snoc x rows)
  let ?cs = "remdups_adj (map fst rows)" and ?c = "fst x"
  have IH: "foldl add_row [] rows = map (layout_entry rows) ?cs"
    using snoc by (auto simp: sorted_append inj_on_def)
  have dist: "distinct (remdups_adj (map fst (rows @ [x])))"
    using snoc.prems(1,2) by (intro sorted_remdups_adj_distinct [where k = c_index]) (auto simp: o_def)
  have old: "map (layout_entry (rows @ [x])) cs = map (layout_entry rows) cs" if "?c \<notin> set cs" for cs
    using that by (auto simp: layout_entry_snoc)
  show ?case
  proof (cases "rows \<noteq> [] \<and> last (map fst rows) = ?c")
    case True
    then have "?cs \<noteq> []" "last ?cs = ?c" by auto
    then obtain cs where cs: "?cs = cs @ [?c]" by (metis append_butlast_last_id)
    with True dist have "?c \<notin> set cs" by (auto simp: remdups_adj_snoc)
    from old [OF this] show ?thesis
      using True cs by (simp add: IH remdups_adj_snoc add_row_same layout_entry_snoc split: option.splits)
  next
    case False
    then have new: "?c \<notin> set ?cs" using dist by (simp add: remdups_adj_snoc split: if_splits)
    have "c_id (fst (last rows)) \<noteq> c_id ?c" if "rows \<noteq> []"
      using that False snoc.prems(3) by (auto simp: inj_on_def last_map)
    then have "add_row (map (layout_entry rows) ?cs) x = map (layout_entry rows) ?cs @
      [\<lparr>cw_Chunk = scan_chunk ?c, cw_Replicas = (case snd x of None \<Rightarrow> [] | Some rn \<Rightarrow> [scan_replica ?c rn])\<rparr>]"
      by (intro add_row_new) (auto simp: last_map)
    with False new old [OF new] show ?thesis
      by (auto simp: IH remdups_adj_snoc layout_entry_snoc layout_entry_fresh split: option.splits)
  qed
qed simp

definition layout_rows :: "(chunk_row \<Rightarrow> bool) \<Rightarrow> bool \<Rightarrow> db \<Rightarrow> layout_row list" where
  "layout_rows P availableOnly db = sort_key layout_key
     (filter (\<lambda>row. availableOnly \<longrightarrow> readable_row row) (join_rows P db))"

lemma set_join_rows:
  "set (join_rows P db) = {(c, None) | c. c \<in> set (chunks db) \<and> P c \<and> (\<forall>r \<in> set (chunk_replicas db). r_chunk r \<noteq> c_id c)}
   \<union> {(c, Some (r, find (\<lambda>n. n_id n = r_node r) (storage_nodes db))) | c r.
        c \<in> set (chunks db) \<and> P c \<and> r \<in> set (chunk_replicas db) \<and> r_chunk r = c_id c}"
  by (auto simp: join_rows_def Let_def filter_empty_conv split: if_splits)

lemma fst_join_rows: "row \<in> set (join_rows P db) \<Longrightarrow> fst row \<in> set (chunks db) \<and> P (fst row)"
  by (auto simp: set_join_rows)

lemma positions_inj:
  assumes "wf_db db"
  shows "inj_on c_index {c \<in> set (chunks db). c_object_id c = Some oid}"
proof (rule inj_onI)
  fix c c' assume *: "c \<in> {c \<in> set (chunks db). c_object_id c = Some oid}"
    "c' \<in> {c \<in> set (chunks db). c_object_id c = Some oid}" "c_index c = c_index c'"
  then have "c_part_id c = None" "c_part_id c' = None"
    using assms by (auto simp: wf_db_def positions_ok_def)
  then show "c = c'"
    using * assms distinct_map_unique [of "\<lambda>c. (c_object_id c, c_part_id c, c_index c)" "chunks db" c c']
    by (auto simp: wf_db_def positions_ok_def)
qed

lemma sorted_layout_rows: "sorted (map (c_index \<circ> fst) (layout_rows P b db))"
proof -
  have "sorted (map layout_key (layout_rows P b db))" by (simp add: layout_rows_def)
  then have "sorted (map fst (map layout_key (layout_rows P b db)))"
    by (auto simp: sorted_wrt_map less_eq_prod_def elim!: sorted_wrt_mono_rel [rotated])
  then show ?thesis by (simp add: o_def layout_key_def)
qed

lemma chunksWhere_layout:
  assumes "wf_db db" "\<And>c. P c \<Longrightarrow> c_object_id c = Some oid"
  shows "chunksWhere P b db = map (layout_entry (layout_rows P b db)) (remdups_adj (map fst (layout_rows P b db)))
    \<and> distinct (remdups_adj (map fst (layout_rows P b db)))"
proof -
  let ?rows = "layout_rows P b db"
  have sub: "fst ` set ?rows \<subseteq> {c \<in> set (chunks db). c_object_id c = Some oid}"
    using assms(2) by (auto simp: layout_rows_def dest!: fst_join_rows)
  then have inj: "inj_on c_index (fst ` set ?rows)" using positions_inj [OF assms(1)] inj_on_subset by blast
  moreover have "inj_on c_id (fst ` set ?rows)"
    using sub wf_chunk_unique [OF assms(1)] by (auto simp: inj_on_def subset_iff)
  ultimately have "foldl add_row [] ?rows = map (layout_entry ?rows) (remdups_adj (map fst ?rows))"
    using foldl_add_row sorted_layout_rows by blast
  moreover have "distinct (remdups_adj (map fst ?rows))"
    using inj sorted_layout_rows [of P b db]
    by (intro sorted_remdups_adj_distinct [where k = c_index]) (auto simp: o_def)
  ultimately show ?thesis by (simp add: chunksWhere_def layout_rows_def)
qed

text \<open>A replica a reader may use: AVAILABLE, on a node that is not DEAD.\<close>

definition readable :: "db \<Rightarrow> uuid \<Rightarrow> node_id \<Rightarrow> bool" where
  "readable db cid n \<longleftrightarrow> replica_at (chunk_replicas db) cid n = Some ReplicaAvailable
     \<and> (\<exists>m \<in> set (storage_nodes db). n_id m = n \<and> n_health m \<noteq> StateDead)"

definition readable_chunks :: "db \<Rightarrow> uuid \<Rightarrow> chunk_row set" where
  "readable_chunks db oid = {c \<in> set (chunks db). c_object_id c = Some oid \<and> c_state c = ChunkCommitted
     \<and> (\<exists>n. readable db (c_id c) n)}"

lemma readable_row_iff:
  assumes "wf_db db" "r \<in> set (chunk_replicas db)"
  shows "readable_row (c, Some (r, find (\<lambda>n. n_id n = r_node r) (storage_nodes db)))
    \<longleftrightarrow> readable db (r_chunk r) (r_node r)"
proof -
  have "r_node r \<in> node_ids db" using wf_replica_ref assms by blast
  then obtain m where m: "m \<in> set (storage_nodes db)" "n_id m = r_node r" by auto
  have dn: "distinct (map n_id (storage_nodes db))" using assms(1) by (simp add: wf_db_def)
  have "find (\<lambda>n. n_id n = r_node r) (storage_nodes db) = Some m"
    using find_Some_distinct [OF dn m(1)] m(2) by simp
  moreover have "(\<exists>m' \<in> set (storage_nodes db). n_id m' = r_node r \<and> n_health m' \<noteq> StateDead)
      \<longleftrightarrow> n_health m \<noteq> StateDead"
    using distinct_map_unique [OF dn _ m(1)] m by metis
  ultimately show ?thesis
    using replica_at_in [OF assms] by (simp add: readable_row_def readable_def)
qed

lemma layout_entries:
  assumes "wf_db db" "c \<in> fst ` set (layout_rows P True db)"
  shows "c \<in> set (chunks db) \<and> P c
    \<and> Rep_NodeID ` set (cw_Replicas (layout_entry (layout_rows P True db) c)) = {n. readable db (c_id c) n}
    \<and> (\<forall>rep \<in> set (cw_Replicas (layout_entry (layout_rows P True db) c)). Rep_State rep = ReplicaAvailable)"
proof -
  have rows: "set (layout_rows P True db) = {row \<in> set (join_rows P db). readable_row row}"
    by (auto simp: layout_rows_def)
  have c: "c \<in> set (chunks db)" "P c" using assms(2) by (auto simp: rows dest: fst_join_rows)
  let ?sel = "{rn. (c, Some rn) \<in> set (layout_rows P True db)}"
  have "set (List.map_filter snd (filter (\<lambda>row. fst row = c) (layout_rows P True db))) = ?sel"
    by (force simp: List.map_filter_def)
  then have reps: "set (cw_Replicas (layout_entry (layout_rows P True db) c)) = scan_replica c ` ?sel"
    by (simp add: layout_entry_def)
  have sel: "(c, Some rn) \<in> set (layout_rows P True db) \<longleftrightarrow> (\<exists>r \<in> set (chunk_replicas db). r_chunk r = c_id c \<and> readable db (c_id c) (r_node r)
      \<and> rn = (r, find (\<lambda>n. n_id n = r_node r) (storage_nodes db)))" for rn
    using c readable_row_iff [OF assms(1), of _ c] by (auto simp: rows set_join_rows)
  have av: "r_state r = ReplicaAvailable" if "r \<in> set (chunk_replicas db)" "r_chunk r = c_id c" "readable db (c_id c) (r_node r)" for r
    using that replica_at_in [OF assms(1) that(1)] by (auto simp: readable_def)
  have "n \<in> Rep_NodeID ` scan_replica c ` ?sel" if rd: "readable db (c_id c) n" for n
  proof -
    obtain r where "r \<in> set (chunk_replicas db)" "r_chunk r = c_id c" "r_node r = n"
      using rd by (auto simp: readable_def dest: replica_at_SomeD)
    then have "(r, find (\<lambda>m. n_id m = n) (storage_nodes db)) \<in> ?sel" using rd by (auto simp: sel)
    then have "Rep_NodeID (scan_replica c (r, find (\<lambda>m. n_id m = n) (storage_nodes db))) \<in> Rep_NodeID ` scan_replica c ` ?sel"
      by (intro imageI)
    then show ?thesis using \<open>r_node r = n\<close> by (simp add: scan_replica_def)
  qed
  moreover have "readable db (c_id c) (Rep_NodeID rep) \<and> Rep_State rep = ReplicaAvailable"
    if "rep \<in> scan_replica c ` ?sel" for rep
    using that av by (auto simp: sel scan_replica_def)
  ultimately show ?thesis using c unfolding reps by blast
qed

section \<open>Properties\<close>

lemma chunk_ids_replica_statements [simp]:
  "chunk_ids (update_replicas P f db) = chunk_ids db"
  "chunk_ids (refresh_available_replicas i db) = chunk_ids db"
  by (simp_all add: update_replicas_def fold_refresh refresh_available_replicas_def)

lemma upsert_replicas_error: "upsert_replicas row f ns db = Inl e \<Longrightarrow> e = ForeignKeyViolation"
  by (induction row f ns db rule: upsert_replicas.induct)
     (auto simp: upsert_replica_def split: sum.splits if_splits)

lemma upsert_replicas_chunk_ids: "upsert_replicas row f ns db = Inr db' \<Longrightarrow> chunk_ids db' = chunk_ids db"
proof (induction row f ns db rule: upsert_replicas.induct)
  case (2 row f n ns db)
  then obtain db1 where 1: "upsert_replica (row n) f db = Inr db1" and "upsert_replicas row f ns db1 = Inr db'"
    by (auto split: sum.splits)
  then have "chunk_ids db' = chunk_ids db1" using 2 by auto
  moreover have "chunk_ids db1 = chunk_ids db"
  proof -
    have "db1 = update_replicas (\<lambda>r. r_chunk r = r_chunk (row n) \<and> r_node r = r_node (row n)) f db
        \<or> db1 = refresh_available_replicas (r_chunk (row n)) (db\<lparr>chunk_replicas := chunk_replicas db @ [row n]\<rparr>)"
      using 1 by (auto simp: upsert_replica_def split: if_splits)
    then show ?thesis by (elim disjE) simp_all
  qed
  ultimately show ?case by simp
qed simp

lemma mark_failed_chunk_ids [simp]: "chunk_ids (mark_failed cid failed now db) = chunk_ids db"
  unfolding mark_failed_def
  by (induction failed arbitrary: db) simp_all



lemma reserve_position_chunk:
  assumes "reserve_position owner idx sz newID now db = Inr (cid, db1)"
  shows "\<exists>c \<in> set (chunks db1). c_id c = cid \<and> at_position owner idx c"
proof (cases "find (at_position owner idx) (chunks db)")
  case None
  then show ?thesis
    using assms by (auto simp: reserve_position_def at_position_def split: option.splits if_splits)
next
  case (Some c)
  let ?f = "\<lambda>c. c\<lparr>c_size := sz, c_state := ChunkPending, c_committed := None\<rparr>"
  from assms Some have cid: "c_id c = cid" and "chunks db1 = sql_update (at_position owner idx) ?f (chunks db)"
    by (auto simp: reserve_position_def split: option.splits if_splits)
  then have "?f c \<in> set (chunks db1)" using find_Some_in [OF Some] in_sql_updateI by metis
  then show ?thesis using find_Some_in [OF Some] cid by (intro bexI) (auto simp: at_position_def)
qed

text \<open>
  C28 (retrying a chunk is stable). If reserving a position of an owner succeeds, reserving it again
  returns the same chunk ID whatever fresh ID the retry brings, adds no chunk, and leaves the chunk
  PENDING with the size of the retry. A position of an owner that does not accept writes is
  refused, and nothing changes.
\<close>

theorem reserve_chunk_stable:
  assumes "wf_db db" "ReserveChunk owner idx sz newID now db = (Inr cid, db1)" "0 \<le> sz2"
  shows "\<exists>db2. ReserveChunk owner idx sz2 newID2 now2 db1 = (Inr cid, db2)
     \<and> map c_id (chunks db2) = map c_id (chunks db1)
     \<and> (\<exists>c \<in> set (chunks db2). c_id c = cid \<and> at_position owner idx c
            \<and> c_state c = ChunkPending \<and> c_size c = sz2)
     \<and> (\<forall>db e. assertOwnerWritable owner db = Some e \<longrightarrow>
            ReserveChunk owner idx sz2 newID2 now2 db = (Inl e, db))"
proof -
  from assms(2) have own: "(ow_ObjectID owner = None) \<noteq> (ow_PartID owner = None)"
    and pos: "reserve_position owner idx sz newID now db = Inr (cid, db1)"
    by (auto simp: ReserveChunk_def inTx_def split: if_splits sum.splits)
  then have wr: "assertOwnerWritable owner db = None" "0 \<le> idx"
    by (auto simp: reserve_position_def split: option.splits if_splits)
  have frame: "objects db1 = objects db" "multipart_parts db1 = multipart_parts db"
    using pos by (auto simp: reserve_position_def split: option.splits if_splits)
  have wr1: "assertOwnerWritable owner db1 = None"
    using wr(1) by (simp only: assertOwnerWritable_def frame)
  obtain c where c: "c \<in> set (chunks db1)" "c_id c = cid" "at_position owner idx c"
    using reserve_position_chunk [OF pos] by blast
  have wf1: "wf_db db1" using wf_reserve_position [OF assms(1) pos own] .
  obtain c' where f: "find (at_position owner idx) (chunks db1) = Some c'"
    using c find_None_not [of "at_position owner idx" "chunks db1" c] by fastforce
  have "c' = c"
    using find_Some_in [OF f] c wf1
      distinct_map_unique [of "\<lambda>c. (c_object_id c, c_part_id c, c_index c)" "chunks db1" c' c]
    by (auto simp: at_position_def wf_db_def positions_ok_def)
  let ?db2 = "db1\<lparr>chunks := sql_update (at_position owner idx)
       (\<lambda>c. c\<lparr>c_size := sz2, c_state := ChunkPending, c_committed := None\<rparr>) (chunks db1)\<rparr>"
  have "ReserveChunk owner idx sz2 newID2 now2 db1 = (Inr cid, ?db2)"
    using own wr1 wr(2) assms(3) f c(2) \<open>c' = c\<close>
    by (auto simp: ReserveChunk_def inTx_def reserve_position_def)
  moreover have "\<exists>c \<in> set (chunks ?db2). c_id c = cid \<and> at_position owner idx c
            \<and> c_state c = ChunkPending \<and> c_size c = sz2"
    using in_sql_updateI(1) [of c "chunks db1" "at_position owner idx"
        "\<lambda>c. c\<lparr>c_size := sz2, c_state := ChunkPending, c_committed := None\<rparr>"] c
    by (intro bexI [of _ "c\<lparr>c_size := sz2, c_state := ChunkPending, c_committed := None\<rparr>"]) (auto simp: at_position_def)
  moreover have "ReserveChunk owner idx sz2 newID2 now2 db = (Inl e, db)" if "assertOwnerWritable owner db = Some e" for db e
    using own that by (auto simp: ReserveChunk_def inTx_def reserve_position_def)
  ultimately show ?thesis by (intro exI [of _ ?db2]) simp
qed

theorem reserve_chunk_stable_witness:
  "\<exists>db1 db2. ReserveChunk \<lparr>ow_ObjectID = Some 2, ow_PartID = None\<rparr> 1 3 20 9 ex_db = (Inr 20, db1)
     \<and> ReserveChunk \<lparr>ow_ObjectID = Some 2, ow_PartID = None\<rparr> 1 4 21 10 db1 = (Inr 20, db2)"
proof -
  let ?ow = "\<lparr>ow_ObjectID = Some 2, ow_PartID = None\<rparr>"
  have "fst (ReserveChunk ?ow 1 3 20 9 ex_db) = Inr 20" by code_simp
  then obtain db1 where "ReserveChunk ?ow 1 3 20 9 ex_db = (Inr 20, db1)"
    by (metis prod.collapse)
  with reserve_chunk_stable [OF wf_ex_db this, of 4 21 10] show ?thesis by auto
qed

lemma fst_layout_rows:
  assumes wf: "wf_db db"
  shows "fst ` set (layout_rows (\<lambda>c. c_object_id c = Some oid \<and> c_state c = ChunkCommitted) True db)
    = readable_chunks db oid" (is "fst ` set ?rows = _")
proof (intro equalityI subsetI)
  fix c assume "c \<in> fst ` set ?rows"
  then obtain x where x: "(c, x) \<in> set (join_rows (\<lambda>c. c_object_id c = Some oid \<and> c_state c = ChunkCommitted) db)"
    "readable_row (c, x)"
    by (auto simp: layout_rows_def)
  then obtain r where r: "r \<in> set (chunk_replicas db)" "r_chunk r = c_id c"
    "x = Some (r, find (\<lambda>n. n_id n = r_node r) (storage_nodes db))"
    by (auto simp: set_join_rows) (simp add: readable_row_def)
  then have "readable db (c_id c) (r_node r)" using x(2) readable_row_iff [OF wf r(1), of c] by simp
  then show "c \<in> readable_chunks db oid" using fst_join_rows [OF x(1)] by (auto simp: readable_chunks_def)
next
  fix c assume "c \<in> readable_chunks db oid"
  then obtain n where c: "c \<in> set (chunks db)" "c_object_id c = Some oid" "c_state c = ChunkCommitted"
    "readable db (c_id c) n" by (auto simp: readable_chunks_def)
  then obtain r where r: "r \<in> set (chunk_replicas db)" "r_chunk r = c_id c" "r_node r = n"
    by (auto simp: readable_def dest: replica_at_SomeD)
  let ?x = "(c, Some (r, find (\<lambda>m. n_id m = r_node r) (storage_nodes db)))"
  have "?x \<in> set ?rows"
    using c r readable_row_iff [OF wf r(1), of c] by (auto simp: layout_rows_def set_join_rows)
  then show "c \<in> fst ` set ?rows" by force
qed



end
