(* ===== verification/Metadata_Objects.thy ===== *)
theory Metadata_Objects
  imports Metadata_Chunks
begin

text \<open>
  \<^verbatim>\<open>internal/metadata/objects.go\<close>: the life of an object version. An upload creates a version in
  state UPLOADING; completing it makes the version current and retires the previous current one in
  the same transaction; aborting it or letting it go stale orphans its chunks; deleting an object
  retires its current version.
\<close>

section \<open>Types\<close>

record Object =
  Obj_ID :: uuid
  Obj_Bucket :: string
  Obj_Key :: string
  Obj_Version :: int
  Obj_State :: object_state
  Obj_SizeBytes :: int
  Obj_ChunkSize :: int
  Obj_ChunkCount :: int
  Obj_ETag :: string
  Obj_ContentType :: string
  Obj_FailureReason :: string
  Obj_CreatedAt :: time
  Obj_UpdatedAt :: time
  Obj_CompletedAt :: time

definition scanObject :: "object_row \<Rightarrow> Object" where
  "scanObject ob = \<lparr>Obj_ID = o_id ob, Obj_Bucket = o_bucket ob, Obj_Key = o_key ob,
     Obj_Version = o_version ob, Obj_State = o_state ob, Obj_SizeBytes = o_size ob,
     Obj_ChunkSize = o_chunk_size ob, Obj_ChunkCount = o_chunk_count ob,
     Obj_ETag = nullString (o_etag ob), Obj_ContentType = o_content_type ob,
     Obj_FailureReason = nullString (o_failure ob), Obj_CreatedAt = o_created ob,
     Obj_UpdatedAt = o_updated ob, Obj_CompletedAt = nullTime (o_completed ob)\<rparr>"

section \<open>Uploads\<close>

text \<open>\<^verbatim>\<open>SELECT COALESCE(MAX(version), 0) + 1 FROM objects WHERE bucket = .. AND key = ..\<close>\<close>

definition next_version :: "string \<Rightarrow> string \<Rightarrow> db \<Rightarrow> int" where
  "next_version bucket key db =
     (case map o_version (filter (\<lambda>ob. o_bucket ob = bucket \<and> o_key ob = key) (objects db)) of
        [] \<Rightarrow> 0 + 1 | v # vs \<Rightarrow> fold max vs v + 1)"

definition new_object :: "uuid \<Rightarrow> string \<Rightarrow> string \<Rightarrow> int \<Rightarrow> int \<Rightarrow> string \<Rightarrow> time \<Rightarrow> object_row" where
  "new_object i bucket key version chunkSize contentType now =
     \<lparr>o_id = i, o_bucket = bucket, o_key = key, o_version = version, o_state = ObjectUploading,
      o_size = 0, o_chunk_size = chunkSize, o_chunk_count = 0, o_etag = None,
      o_content_type = contentType, o_failure = None, o_created = now, o_updated = now,
      o_completed = None, o_deleted = None\<rparr>"

text \<open>The INSERT of an UPLOADING version, shared with the assembly of multipart uploads.\<close>

definition insert_object :: "object_row \<Rightarrow> db \<Rightarrow> db_error + db" where
  "insert_object ob db =
     (if o_chunk_size ob \<le> 0 then Inl CheckViolation
      else if sql_exists (\<lambda>x. o_id x = o_id ob) (objects db) then Inl UniqueViolation
      else Inr (db\<lparr>objects := objects db @ [ob]\<rparr>))"

definition BeginUpload ::
  "string \<Rightarrow> string \<Rightarrow> string \<Rightarrow> int \<Rightarrow> uuid \<Rightarrow> time \<Rightarrow> db \<Rightarrow> (db_error + Object) \<times> db"
where
  "BeginUpload bucket key contentType chunkSize newID now = inTx (\<lambda>db.
     let ob = new_object newID bucket key (next_version bucket key db) chunkSize contentType now in
     case insert_object ob db of Inl e \<Rightarrow> Inl e | Inr db' \<Rightarrow> Inr (scanObject ob, db'))"

definition TouchUpload :: "uuid \<Rightarrow> time \<Rightarrow> db \<Rightarrow> (db_error + unit) \<times> db" where
  "TouchUpload oid now = inTx (\<lambda>db.
     Inr ((), db\<lparr>objects := sql_update (\<lambda>ob. o_id ob = oid \<and> o_state ob = ObjectUploading)
                   (\<lambda>ob. ob\<lparr>o_updated := now\<rparr>) (objects db)\<rparr>))"

definition retire_object :: "time \<Rightarrow> object_row \<Rightarrow> object_row" where
  "retire_object now ob = ob\<lparr>o_state := ObjectDeleting, o_deleted := Some now, o_updated := now\<rparr>"

definition supersedeCurrentVersion :: "string \<Rightarrow> string \<Rightarrow> uuid \<Rightarrow> time \<Rightarrow> db \<Rightarrow> db" where
  "supersedeCurrentVersion bucket key newID now db =
     (let P = (\<lambda>ob. o_bucket ob = bucket \<and> o_key ob = key \<and> o_state ob = ObjectComplete \<and> o_id ob \<noteq> newID);
          superseded = map o_id (filter P (objects db))
      in fold (\<lambda>oid. enqueueObjectChunkDeletions oid now) superseded
           (db\<lparr>objects := sql_update P (retire_object now) (objects db)\<rparr>))"

definition complete_object :: "int \<Rightarrow> int \<Rightarrow> string \<Rightarrow> time \<Rightarrow> object_row \<Rightarrow> object_row" where
  "complete_object sizeBytes chunkCount etag now ob =
     ob\<lparr>o_state := ObjectComplete, o_size := sizeBytes, o_chunk_count := chunkCount,
        o_etag := Some etag, o_completed := Some now, o_updated := now\<rparr>"

text \<open>
  \<^verbatim>\<open>UPDATE objects SET state = 'COMPLETE' .. WHERE id = .. RETURNING ..\<close>, shared with the assembly
  of multipart uploads. The CHECK constraints want sizes and counts that are not negative.
\<close>

definition finalise_object :: "uuid \<Rightarrow> int \<Rightarrow> int \<Rightarrow> string \<Rightarrow> time \<Rightarrow> Object tx" where
  "finalise_object oid sizeBytes chunkCount etag now db =
     (if sizeBytes < 0 \<or> chunkCount < 0 then Inl CheckViolation
      else let db' = db\<lparr>objects := sql_update (\<lambda>ob. o_id ob = oid)
                          (complete_object sizeBytes chunkCount etag now) (objects db)\<rparr>
           in (case find (\<lambda>ob. o_id ob = oid) (objects db') of
                 None \<Rightarrow> Inl ErrNoRows | Some ob \<Rightarrow> Inr (scanObject ob, db')))"

definition chunks_of_object :: "uuid \<Rightarrow> chunk_row list \<Rightarrow> chunk_row list" where
  "chunks_of_object oid cs = filter (\<lambda>c. c_object_id c = Some oid) cs"

definition CompleteUpload ::
  "uuid \<Rightarrow> int \<Rightarrow> int \<Rightarrow> string \<Rightarrow> time \<Rightarrow> db \<Rightarrow> (db_error + Object) \<times> db"
where
  "CompleteUpload oid sizeBytes chunkCount etag now = inTx (\<lambda>db.
     case find (\<lambda>ob. o_id ob = oid) (objects db) of
       None \<Rightarrow> Inl ErrNotFound
     | Some ob \<Rightarrow>
         if o_state ob \<noteq> ObjectUploading then Inl ErrConflict
         else
           let total = int (length (chunks_of_object oid (chunks db)));
               committed = int (sql_count (\<lambda>c. c_state c = ChunkCommitted) (chunks_of_object oid (chunks db)))
           in if total \<noteq> chunkCount \<or> committed \<noteq> chunkCount then Inl ErrDurabilityNotMet
              else finalise_object oid sizeBytes chunkCount etag now
                     (supersedeCurrentVersion (o_bucket ob) (o_key ob) oid now db))"

definition AbortUpload :: "uuid \<Rightarrow> string \<Rightarrow> time \<Rightarrow> db \<Rightarrow> (db_error + unit) \<times> db" where
  "AbortUpload oid reason now = inTx (\<lambda>db.
     let P = (\<lambda>ob. o_id ob = oid \<and> o_state ob = ObjectUploading);
         db1 = db\<lparr>objects := sql_update P (\<lambda>ob. ob\<lparr>o_state := ObjectFailed,
                   o_failure := Some (truncate_string reason 500), o_updated := now\<rparr>) (objects db)\<rparr>
     in if sql_count P (objects db) = 0 then Inr ((), db1)
        else Inr ((), orphanObjectChunks oid now db1))"

section \<open>Deleting and reading\<close>

definition DeleteObject :: "string \<Rightarrow> string \<Rightarrow> time \<Rightarrow> db \<Rightarrow> (db_error + uuid \<times> bool) \<times> db" where
  "DeleteObject bucket key now = inTx (\<lambda>db.
     let P = (\<lambda>ob. o_bucket ob = bucket \<and> o_key ob = key \<and> o_state ob = ObjectComplete);
         db1 = db\<lparr>objects := sql_update P (retire_object now) (objects db)\<rparr>
     in (case filter P (objects db) of
           [] \<Rightarrow> Inr ((0, False), db1)
         | ob # _ \<Rightarrow> Inr ((o_id ob, True), enqueueObjectChunkDeletions (o_id ob) now db1)))"

definition HeadObject :: "string \<Rightarrow> string \<Rightarrow> db \<Rightarrow> db_error + Object" where
  "HeadObject bucket key db =
     (case find (\<lambda>ob. o_bucket ob = bucket \<and> o_key ob = key \<and> o_state ob = ObjectComplete) (objects db) of
        None \<Rightarrow> Inl ErrNotFound | Some ob \<Rightarrow> Inr (scanObject ob))"

definition GetObject :: "string \<Rightarrow> string \<Rightarrow> db \<Rightarrow> db_error + Object \<times> ChunkWithReplicas list" where
  "GetObject bucket key db =
     (case HeadObject bucket key db of
        Inl e \<Rightarrow> Inl e
      | Inr obj \<Rightarrow>
          let cs = ChunksForObject (Obj_ID obj) True db in
          if int (length cs) \<noteq> Obj_ChunkCount obj then Inl ErrConflict else Inr (obj, cs))"

definition GetObjectByID :: "uuid \<Rightarrow> db \<Rightarrow> db_error + Object" where
  "GetObjectByID oid db =
     (case find (\<lambda>ob. o_id ob = oid) (objects db) of None \<Rightarrow> Inl ErrNotFound | Some ob \<Rightarrow> Inr (scanObject ob))"

text \<open>
  \<^verbatim>\<open>LIKE\<close>: a percent sign matches any string, an underscore any character, and a backslash makes the
  next character of the pattern literal.
\<close>

fun sql_like :: "string \<Rightarrow> string \<Rightarrow> bool" where
  "sql_like [] s = (s = [])"
| "sql_like (p # ps) s =
     (if p = CHR ''%'' then
        sql_like ps s \<or> (case s of [] \<Rightarrow> False | _ # s' \<Rightarrow> sql_like (p # ps) s')
      else if p = CHR 0x5C then
        (case ps of [] \<Rightarrow> False
         | q # qs \<Rightarrow> (case s of [] \<Rightarrow> False | x # xs \<Rightarrow> x = q \<and> sql_like qs xs))
      else
        (case s of [] \<Rightarrow> False | x # xs \<Rightarrow> (p = CHR ''_'' \<or> x = p) \<and> sql_like ps xs))"

definition ListObjects :: "string \<Rightarrow> string \<Rightarrow> string \<Rightarrow> int \<Rightarrow> db \<Rightarrow> Object list \<times> bool" where
  "ListObjects bucket prefix startAfter limit0 db =
     (let limit = (if limit0 \<le> 0 \<or> limit0 > 1000 then 1000 else limit0);
          rows = sql_limit (limit + 1) (sort_key o_key (filter (\<lambda>ob.
             o_bucket ob = bucket \<and> o_state ob = ObjectComplete \<and> o_key ob > startAfter
             \<and> sql_like (prefix @ ''%'') (o_key ob)) (objects db)));
          out = map scanObject rows;
          truncated = int (length out) > limit
      in (if truncated then take (nat limit) out else out, truncated))"

definition reap_upload :: "time \<Rightarrow> uuid \<Rightarrow> db \<Rightarrow> db" where
  "reap_upload now oid db = orphanObjectChunks oid now
     (db\<lparr>objects := sql_update (\<lambda>ob. o_id ob = oid)
          (\<lambda>ob. ob\<lparr>o_state := ObjectFailed, o_failure := Some ''upload timed out'', o_updated := now\<rparr>)
          (objects db)\<rparr>)"

definition ReapStaleUploads :: "duration \<Rightarrow> int \<Rightarrow> time \<Rightarrow> db \<Rightarrow> (db_error + int) \<times> db" where
  "ReapStaleUploads olderThan limit now = inTx (\<lambda>db.
     let ids = map o_id (sql_limit limit (sort_key o_updated
                 (filter (\<lambda>ob. o_state ob = ObjectUploading \<and> o_updated ob < now - olderThan) (objects db))))
     in Inr (int (length ids), fold (reap_upload now) ids db))"

section \<open>What statements leave alone\<close>

lemma fold_frame: "(\<And>x s. T (g x s) = T s) \<Longrightarrow> T (fold g xs s) = T s"
  by (induction xs arbitrary: s) simp_all

lemma fold_inv: "I s \<Longrightarrow> (\<And>x s. I s \<Longrightarrow> I (g x s)) \<Longrightarrow> I (fold g xs s)"
  by (induction xs arbitrary: s) simp_all

lemma update_replicas_frame [simp]:
  "storage_nodes (update_replicas P f db) = storage_nodes db" "objects (update_replicas P f db) = objects db"
  "multipart_uploads (update_replicas P f db) = multipart_uploads db"
  "multipart_parts (update_replicas P f db) = multipart_parts db"
  "repair_jobs (update_replicas P f db) = repair_jobs db"
  "node_reconciliations (update_replicas P f db) = node_reconciliations db"
  by (simp_all add: update_replicas_def fold_refresh)

lemma delete_replicas_frame [simp]:
  "storage_nodes (delete_replicas P db) = storage_nodes db" "objects (delete_replicas P db) = objects db"
  "multipart_uploads (delete_replicas P db) = multipart_uploads db"
  "multipart_parts (delete_replicas P db) = multipart_parts db"
  "repair_jobs (delete_replicas P db) = repair_jobs db"
  "node_reconciliations (delete_replicas P db) = node_reconciliations db"
  by (simp_all add: delete_replicas_def fold_refresh)

lemma queue_replica_deletions_frame [simp]:
  "storage_nodes (queue_replica_deletions P now db) = storage_nodes db"
  "objects (queue_replica_deletions P now db) = objects db"
  "multipart_uploads (queue_replica_deletions P now db) = multipart_uploads db"
  "multipart_parts (queue_replica_deletions P now db) = multipart_parts db"
  "repair_jobs (queue_replica_deletions P now db) = repair_jobs db"
  "node_reconciliations (queue_replica_deletions P now db) = node_reconciliations db"
  by (simp_all add: queue_replica_deletions_def Let_def)

lemma enqueue_frame [simp]:
  "objects (enqueueObjectChunkDeletions oid now db) = objects db"
  "storage_nodes (enqueueObjectChunkDeletions oid now db) = storage_nodes db"
  "multipart_uploads (enqueueObjectChunkDeletions oid now db) = multipart_uploads db"
  "multipart_parts (enqueueObjectChunkDeletions oid now db) = multipart_parts db"
  by (simp_all add: enqueueObjectChunkDeletions_def)

text \<open>
  The statements on replicas change nothing of a chunk but its counter: chunks are compared with
  the counter masked out.
\<close>

definition uncounted :: "chunk_row \<Rightarrow> chunk_row" where
  "uncounted c = c\<lparr>c_available := 0\<rparr>"

lemma map_sql_update_mask: "map uncounted (sql_update P (\<lambda>c. c\<lparr>c_available := n c\<rparr>) cs) = map uncounted cs"
  by (rule map_sql_update) (simp add: uncounted_def)

lemma mask_replica_statements [simp]:
  "map uncounted (chunks (update_replicas P f db)) = map uncounted (chunks db)"
  "map uncounted (chunks (delete_replicas P db)) = map uncounted (chunks db)"
  "map uncounted (chunks (refresh_available_replicas i db)) = map uncounted (chunks db)"
  "map uncounted (chunks (queue_replica_deletions Q now db)) = map uncounted (chunks db)"
  by (simp_all add: update_replicas_def delete_replicas_def fold_refresh refresh_available_replicas_def
      queue_replica_deletions_def Let_def map_sql_update_mask)

lemma mask_enqueue [simp]:
  "map uncounted (chunks (enqueueObjectChunkDeletions oid now db)) = map uncounted (chunks db)"
  "map uncounted (chunks (enqueuePartChunkDeletions uid now db)) = map uncounted (chunks db)"
  by (simp_all add: enqueueObjectChunkDeletions_def enqueuePartChunkDeletions_def)

section \<open>Complete objects have all their chunks\<close>

text \<open>The states of the chunks an object owns, in table order.\<close>

definition owned :: "chunk_row list \<Rightarrow> uuid \<Rightarrow> chunk_state list" where
  "owned cs oid = map c_state (chunks_of_object oid cs)"

definition complete_ok :: "object_row list \<Rightarrow> (uuid \<Rightarrow> chunk_state list) \<Rightarrow> bool" where
  "complete_ok os own \<longleftrightarrow> (\<forall>ob \<in> set os. o_state ob = ObjectComplete \<longrightarrow>
     o_chunk_count ob = int (length (own (o_id ob))) \<and> set (own (o_id ob)) \<subseteq> {ChunkCommitted})"

abbreviation completed_full :: "db \<Rightarrow> bool" where
  "completed_full db \<equiv> complete_ok (objects db) (owned (chunks db))"

named_theorems full_intros \<open>operations that keep complete objects complete\<close>

lemma owned_mask: "owned (map uncounted cs) = owned cs"
proof
  show "owned (map uncounted cs) oid = owned cs oid" for oid
    by (induction cs) (auto simp: owned_def chunks_of_object_def uncounted_def)
qed

lemma owned_cong: "map uncounted cs = map uncounted cs' \<Longrightarrow> owned cs = owned cs'"
  using owned_mask by metis

lemma owned_update:
  assumes "\<And>c. P c \<Longrightarrow> c_object_id (f c) = c_object_id c \<and> c_state (f c) = c_state c"
  shows "owned (sql_update P f cs) = owned cs"
proof
  show "owned (sql_update P f cs) oid = owned cs oid" for oid
    using assms by (induction cs) (auto simp: owned_def chunks_of_object_def sql_update_def)
qed

lemma owned_update_other:
  assumes "\<And>c. P c \<Longrightarrow> c_object_id c \<noteq> Some oid \<and> c_object_id (f c) \<noteq> Some oid"
  shows "owned (sql_update P f cs) oid = owned cs oid"
  using assms by (induction cs) (auto simp: owned_def chunks_of_object_def sql_update_def)

lemma complete_okD:
  "complete_ok os own \<Longrightarrow> ob \<in> set os \<Longrightarrow> o_state ob = ObjectComplete \<Longrightarrow>
   o_chunk_count ob = int (length (own (o_id ob))) \<and> set (own (o_id ob)) \<subseteq> {ChunkCommitted}"
  by (auto simp: complete_ok_def)

lemma complete_ok_update [full_intros]:
  assumes "complete_ok os own"
    and "\<And>ob. ob \<in> set os \<Longrightarrow> P ob \<Longrightarrow> o_state (f ob) = ObjectComplete \<Longrightarrow>
       o_state ob = ObjectComplete \<and> o_id (f ob) = o_id ob \<and> o_chunk_count (f ob) = o_chunk_count ob"
  shows "complete_ok (sql_update P f os) own"
  using assms by (fastforce simp: complete_ok_def elim!: in_sql_updateE)

lemma complete_ok_owned:
  assumes "complete_ok os own" "\<And>ob. ob \<in> set os \<Longrightarrow> o_state ob = ObjectComplete \<Longrightarrow> own' (o_id ob) = own (o_id ob)"
  shows "complete_ok os own'"
  using assms by (simp add: complete_ok_def)

lemma completed_full_frame:
  "completed_full db \<Longrightarrow> objects db' = objects db \<Longrightarrow> map uncounted (chunks db') = map uncounted (chunks db) \<Longrightarrow> completed_full db'"
  using owned_cong by metis

lemma inTx_full:
  assumes "completed_full db" "\<And>x db'. body db = Inr (x, db') \<Longrightarrow> completed_full db'"
  shows "completed_full (snd (inTx body db))"
  using assms by (auto simp: inTx_def split: sum.splits)

subsection \<open>Operations on nodes and chunks\<close>

lemma full_nodes [full_intros]:
  assumes "completed_full db"
  shows "completed_full (snd (UpsertNode nid a h st at now db))"
    "completed_full (snd (RecordHeartbeat nid a st h at now db))"
    "completed_full (snd (SetNodeHealth nid h now db))"
    "completed_full (snd (MarkReplicasUnavailableOnNode nid now db))"
  by (rule completed_full_frame [OF assms];
      auto simp: UpsertNode_def RecordHeartbeat_def SetNodeHealth_def MarkReplicasUnavailableOnNode_def
        inTx_def Let_def)+

lemma tracked_nodes [track_intros]:
  assumes "deletions_tracked db"
  shows "deletions_tracked (snd (UpsertNode nid a h st at now db))"
    "deletions_tracked (snd (RecordHeartbeat nid a st h at now db))"
    "deletions_tracked (snd (SetNodeHealth nid h now db))"
    "deletions_tracked (snd (MarkReplicasUnavailableOnNode nid now db))"
  using assms
  by (auto simp: UpsertNode_def RecordHeartbeat_def SetNodeHealth_def MarkReplicasUnavailableOnNode_def
      Let_def split: if_splits intro!: inTx_tracked tracked_update)

lemma upsert_replicas_mask:
  "upsert_replicas row f ns db = Inr db' \<Longrightarrow>
   objects db' = objects db \<and> map uncounted (chunks db') = map uncounted (chunks db)"
proof (induction row f ns db rule: upsert_replicas.induct)
  case (2 row f n ns db)
  then obtain db1 where 1: "upsert_replica (row n) f db = Inr db1" and "upsert_replicas row f ns db1 = Inr db'"
    by (auto split: sum.splits)
  then have "objects db' = objects db1 \<and> map uncounted (chunks db') = map uncounted (chunks db1)" using 2 by auto
  moreover have "objects db1 = objects db \<and> map uncounted (chunks db1) = map uncounted (chunks db)"
  proof -
    have "db1 = update_replicas (\<lambda>r. r_chunk r = r_chunk (row n) \<and> r_node r = r_node (row n)) f db
        \<or> db1 = refresh_available_replicas (r_chunk (row n)) (db\<lparr>chunk_replicas := chunk_replicas db @ [row n]\<rparr>)"
      using 1 by (auto simp: upsert_replica_def split: if_splits)
    then show ?thesis by (elim disjE) (simp_all add: refresh_available_replicas_def map_sql_update_mask)
  qed
  ultimately show ?case by simp
qed simp

lemma full_RecordChunkTargets [full_intros]:
  assumes "completed_full db"
  shows "completed_full (snd (RecordChunkTargets cid targets now db))"
  unfolding RecordChunkTargets_def
proof (rule inTx_full [OF assms])
  fix x db' assume "(case upsert_replicas (new_replica cid ReplicaWriting None now)
      (set_replica_state ReplicaWriting now) targets db of Inl e \<Rightarrow> Inl e | Inr db' \<Rightarrow> Inr ((), db')) = Inr (x, db')"
  then show "completed_full db'"
    using assms upsert_replicas_mask completed_full_frame by (auto split: sum.splits)
qed

lemma complete_ok_commit:
  assumes "complete_ok os (owned cs)"
    and "\<And>c. P c \<Longrightarrow> c_object_id (f c) = c_object_id c \<and> c_state (f c) = ChunkCommitted"
  shows "complete_ok os (owned (sql_update P f cs))"
proof -
  have len: "length (owned (sql_update P f cs) oid) = length (owned cs oid)
      \<and> set (owned (sql_update P f cs) oid) \<subseteq> insert ChunkCommitted (set (owned cs oid))" for oid
    using assms(2) by (induction cs) (auto simp: owned_def chunks_of_object_def sql_update_def)
  show ?thesis
    unfolding complete_ok_def
  proof (intro ballI impI)
    fix ob assume "ob \<in> set os" "o_state ob = ObjectComplete"
    from complete_okD [OF assms(1) this] len [of "o_id ob"]
    show "o_chunk_count ob = int (length (owned (sql_update P f cs) (o_id ob)))
        \<and> set (owned (sql_update P f cs) (o_id ob)) \<subseteq> {ChunkCommitted}" by auto
  qed
qed

lemma mark_failed_mask:
  "objects (mark_failed cid failed now db) = objects db"
  "map uncounted (chunks (mark_failed cid failed now db)) = map uncounted (chunks db)"
  unfolding mark_failed_def
  by (rule fold_frame, simp, rule fold_frame [where T = "\<lambda>db. map uncounted (chunks db)"], simp)

lemma full_CommitChunk [full_intros]:
  assumes "completed_full db"
  shows "completed_full (snd (CommitChunk cid checksum sz succeeded failed minR now db))"
proof -
  obtain n err db' where eq: "CommitChunk cid checksum sz succeeded failed minR now db = ((n, err), db')"
    by (metis surj_pair)
  show ?thesis
  proof (cases err)
    case None
    with eq obtain db1 where u: "upsert_replicas (new_replica cid ReplicaAvailable (Some now) now)
       (\<lambda>r. (set_replica_state ReplicaAvailable now r)\<lparr>r_verified := Some now\<rparr>)
       succeeded (mark_failed cid failed now db) = Inr db1"
      and db': "db' = touch_owner cid now (db1\<lparr>chunks := sql_update (\<lambda>c. c_id c = cid)
        (\<lambda>c. c\<lparr>c_state := ChunkCommitted, c_checksum := Some checksum, c_size := sz,
               c_committed := Some now\<rparr>) (chunks db1)\<rparr>)"
      by (auto elim: CommitChunk_success)
    have "completed_full db1"
      using upsert_replicas_mask [OF u] mark_failed_mask completed_full_frame [OF assms] by metis
    then have "completed_full db'"
      unfolding db' by (auto simp: touch_owner_def Let_def intro!: complete_ok_commit complete_ok_update)
    then show ?thesis using eq by simp
  next
    case (Some e)
    then show ?thesis using eq CommitChunk_error assms by force
  qed
qed

lemma full_ReserveChunk [full_intros]:
  assumes "wf_db db" "completed_full db"
  shows "completed_full (snd (ReserveChunk owner idx sz newID now db))"
proof (cases "(ow_ObjectID owner = None) = (ow_PartID owner = None)")
  case False
  have "completed_full db'" if pos: "reserve_position owner idx sz newID now db = Inr (cid, db')" for cid db'
  proof (rule complete_ok_owned)
    have obj: "objects db' = objects db" and w: "assertOwnerWritable owner db = None"
      using pos by (auto simp: reserve_position_def split: option.splits if_splits)
    then show "complete_ok (objects db') (owned (chunks db))" using assms(2) by simp
    fix ob assume ob: "ob \<in> set (objects db')" "o_state ob = ObjectComplete"
    have "ow_ObjectID owner \<noteq> Some (o_id ob)"
    proof
      assume "ow_ObjectID owner = Some (o_id ob)"
      with w obtain x where "x \<in> set (objects db)" "o_id x = o_id ob" "o_state x = ObjectUploading"
        by (auto simp: assertOwnerWritable_def split: option.splits if_splits dest!: find_Some_in)
      with ob obj wf_object_unique [OF assms(1)] show False by force
    qed
    then show "owned (chunks db') (o_id ob) = owned (chunks db) (o_id ob)"
      using pos by (auto simp: reserve_position_def at_position_def owned_def chunks_of_object_def
            split: option.splits if_splits)
         (auto simp: at_position_def owned_def [symmetric] chunks_of_object_def [symmetric] intro!: owned_update_other)
  qed
  then show ?thesis using False assms(2) by (auto simp: ReserveChunk_def intro!: inTx_full)
qed (simp add: ReserveChunk_def assms)

subsection \<open>Operations on objects\<close>

abbreviation is_current :: "string \<Rightarrow> string \<Rightarrow> object_row \<Rightarrow> bool" where
  "is_current bucket key ob \<equiv> o_bucket ob = bucket \<and> o_key ob = key \<and> o_state ob = ObjectComplete"

lemma retire_object_fields [simp]:
  "o_id (retire_object now ob) = o_id ob" "o_bucket (retire_object now ob) = o_bucket ob"
  "o_key (retire_object now ob) = o_key ob" "o_state (retire_object now ob) = ObjectDeleting"
  by (simp_all add: retire_object_def)

lemma complete_object_fields [simp]:
  "o_id (complete_object s n e now ob) = o_id ob" "o_bucket (complete_object s n e now ob) = o_bucket ob"
  "o_key (complete_object s n e now ob) = o_key ob" "o_state (complete_object s n e now ob) = ObjectComplete"
  "o_chunk_count (complete_object s n e now ob) = n" "o_size (complete_object s n e now ob) = s"
  by (simp_all add: complete_object_def)

lemma supersede_objects:
  "objects (supersedeCurrentVersion bucket key newID now db) =
     sql_update (\<lambda>ob. is_current bucket key ob \<and> o_id ob \<noteq> newID) (retire_object now) (objects db)"
  by (simp add: supersedeCurrentVersion_def Let_def conj_assoc fold_frame [where T = objects])

lemma supersede_frame [simp]:
  "multipart_uploads (supersedeCurrentVersion bucket key newID now db) = multipart_uploads db"
  "multipart_parts (supersedeCurrentVersion bucket key newID now db) = multipart_parts db"
  "storage_nodes (supersedeCurrentVersion bucket key newID now db) = storage_nodes db"
  "map uncounted (chunks (supersedeCurrentVersion bucket key newID now db)) = map uncounted (chunks db)"
  by (simp_all add: supersedeCurrentVersion_def Let_def
      fold_frame [where T = multipart_uploads] fold_frame [where T = multipart_parts]
      fold_frame [where T = storage_nodes] fold_frame [where T = "\<lambda>db. map uncounted (chunks db)"])

lemma wf_supersede [wf_intros]:
  assumes "wf_db db"
  shows "wf_db (supersedeCurrentVersion bucket key newID now db)"
  unfolding supersedeCurrentVersion_def Let_def
  by (rule fold_inv) (auto intro!: wf_update_objects wf_enqueue assms)

lemma tracked_supersede [track_intros]:
  assumes "deletions_tracked db"
  shows "deletions_tracked (supersedeCurrentVersion bucket key newID now db)"
  unfolding supersedeCurrentVersion_def Let_def
  by (rule fold_inv [where I = deletions_tracked]) (simp_all add: assms tracked_enqueue)

lemma wf_complete_object:
  assumes "wf_db db"
    and "\<And>ob ob'. ob \<in> set (objects db) \<Longrightarrow> o_id ob = oid \<Longrightarrow> ob' \<in> set (objects db) \<Longrightarrow>
           is_current (o_bucket ob) (o_key ob) ob' \<Longrightarrow> o_id ob' = oid"
  shows "wf_db (db\<lparr>objects := sql_update (\<lambda>ob. o_id ob = oid) (complete_object s n e now) (objects db)\<rparr>)"
proof -
  let ?os = "sql_update (\<lambda>ob. o_id ob = oid) (complete_object s n e now) (objects db)"
  have d: "distinct (map o_id ?os)" using assms(1) by (simp add: wf_db_def objects_ok_def)
  have "x = y" if xy: "x \<in> set ?os" "y \<in> set ?os" "is_current b k x" "is_current b k y" for x y b k
  proof -
    have orig: "\<exists>z0 \<in> set (objects db). o_id z0 = o_id z \<and> o_bucket z0 = o_bucket z \<and> o_key z0 = o_key z
        \<and> (o_id z = oid \<or> z0 = z)" if "z \<in> set ?os" for z
      using that by (elim in_sql_updateE) auto
    obtain x0 y0 where x0: "x0 \<in> set (objects db)" "o_id x0 = o_id x" "o_bucket x0 = b" "o_key x0 = k" "o_id x = oid \<or> x0 = x"
      and y0: "y0 \<in> set (objects db)" "o_id y0 = o_id y" "o_bucket y0 = b" "o_key y0 = k" "o_id y = oid \<or> y0 = y"
      using orig [OF xy(1)] orig [OF xy(2)] xy(3,4) by auto
    have "o_id x = o_id y"
    proof (cases "o_id x = oid")
      case True
      then show ?thesis using assms(2) [OF x0(1) _ y0(1)] x0 y0 xy(4) by auto
    next
      case False
      then show ?thesis
        using assms(2) [OF y0(1) _ x0(1)] x0 y0 xy(3,4) wf_current_unique [OF assms(1) x0(1) y0(1)] by auto
    qed
    then show ?thesis using distinct_map_unique [OF d xy(1,2)] by simp
  qed
  then have "inj_on (\<lambda>ob. (o_bucket ob, o_key ob)) (set (filter (\<lambda>ob. o_state ob = ObjectComplete) ?os))"
    by (intro inj_onI) auto
  moreover have "distinct ?os" using d by (simp only: distinct_map)
  ultimately have "objects_ok ?os"
    unfolding objects_ok_def using d by (simp only: distinct_map distinct_filter)
  then show ?thesis using assms(1) by (simp add: wf_db_def)
qed

lemma wf_finalise:
  assumes "wf_db db" "finalise_object oid s n e now db = Inr (x, db')"
    and "\<And>ob ob'. ob \<in> set (objects db) \<Longrightarrow> o_id ob = oid \<Longrightarrow> ob' \<in> set (objects db) \<Longrightarrow>
           is_current (o_bucket ob) (o_key ob) ob' \<Longrightarrow> o_id ob' = oid"
  shows "wf_db db'"
proof -
  have "db' = db\<lparr>objects := sql_update (\<lambda>ob. o_id ob = oid) (complete_object s n e now) (objects db)\<rparr>"
    using assms(2) by (auto simp: finalise_object_def Let_def split: if_splits option.splits)
  then show ?thesis using wf_complete_object [OF assms(1,3)] by simp
qed

lemma wf_BeginUpload [wf_intros]:
  assumes "wf_db db"
  shows "wf_db (snd (BeginUpload bucket key ct cs newID now db))"
  unfolding BeginUpload_def using assms
  by (intro inTx_wf)
     (auto simp: insert_object_def new_object_def Let_def bex_key_iff split: if_splits intro!: wf_insert_object)

lemma wf_TouchUpload [wf_intros]: "wf_db db \<Longrightarrow> wf_db (snd (TouchUpload oid now db))"
  unfolding TouchUpload_def by (rule inTx_wf) (auto intro!: wf_update_objects)

text \<open>A successful completion.\<close>

lemma CompleteUpload_success:
  assumes "CompleteUpload oid s n e now db = (Inr x, db')"
  obtains ob where "find (\<lambda>ob. o_id ob = oid) (objects db) = Some ob" "o_state ob = ObjectUploading"
    "int (length (chunks_of_object oid (chunks db))) = n"
    "int (sql_count (\<lambda>c. c_state c = ChunkCommitted) (chunks_of_object oid (chunks db))) = n"
    "finalise_object oid s n e now (supersedeCurrentVersion (o_bucket ob) (o_key ob) oid now db) = Inr (x, db')"
  using assms by (auto simp: CompleteUpload_def inTx_def Let_def split: option.splits if_splits sum.splits)

lemma CompleteUpload_error: "CompleteUpload oid s n e now db = (Inl err, db') \<Longrightarrow> db' = db"
  by (auto simp: CompleteUpload_def inTx_def Let_def split: option.splits if_splits sum.splits)

lemma superseded_unique:
  assumes "wf_db db" "find (\<lambda>ob. o_id ob = oid) (objects db) = Some ob"
    and "x \<in> set (objects (supersedeCurrentVersion (o_bucket ob) (o_key ob) oid now db))" "o_id x = oid"
    and "y \<in> set (objects (supersedeCurrentVersion (o_bucket ob) (o_key ob) oid now db))"
    and "is_current (o_bucket x) (o_key x) y"
  shows "o_id y = oid"
proof -
  have ob: "ob \<in> set (objects db)" "o_id ob = oid" using find_Some_in [OF assms(2)] by auto
  from assms(3,4) have "x \<in> set (objects db)"
    unfolding supersede_objects by (auto elim!: in_sql_updateE)
  then have "x = ob" using assms(4) ob(2) by (intro wf_object_unique [OF assms(1) _ ob(1)]) simp_all
  with assms(5,6) show ?thesis
    unfolding supersede_objects by (auto elim!: in_sql_updateE)
qed

lemma wf_CompleteUpload [wf_intros]:
  assumes "wf_db db"
  shows "wf_db (snd (CompleteUpload oid s n e now db))"
proof (cases "CompleteUpload oid s n e now db")
  case (Pair res db')
  show ?thesis
  proof (cases res)
    case (Inl err)
    then show ?thesis using Pair CompleteUpload_error assms by fastforce
  next
    case (Inr x)
    with Pair have eq: "CompleteUpload oid s n e now db = (Inr x, db')" by simp
    obtain ob where
      f: "find (\<lambda>ob. o_id ob = oid) (objects db) = Some ob"
      "finalise_object oid s n e now (supersedeCurrentVersion (o_bucket ob) (o_key ob) oid now db) = Inr (x, db')"
      using eq by (rule CompleteUpload_success)
    have "wf_db db'"
      using wf_finalise [OF wf_supersede [OF assms] f(2)] superseded_unique [OF assms f(1)] by blast
    then show ?thesis using Pair by simp
  qed
qed

lemma wf_AbortUpload [wf_intros]: "wf_db db \<Longrightarrow> wf_db (snd (AbortUpload oid reason now db))"
  unfolding AbortUpload_def
  by (rule inTx_wf) (auto simp: Let_def split: if_splits intro!: wf_update_objects wf_enqueue)

lemma wf_DeleteObject [wf_intros]: "wf_db db \<Longrightarrow> wf_db (snd (DeleteObject bucket key now db))"
  unfolding DeleteObject_def
  by (rule inTx_wf) (auto simp: Let_def split: list.splits intro!: wf_update_objects wf_enqueue)

lemma wf_reap_upload: "wf_db db \<Longrightarrow> wf_db (reap_upload now oid db)"
  by (simp add: reap_upload_def wf_enqueue wf_update_objects)

lemma wf_ReapStaleUploads [wf_intros]: "wf_db db \<Longrightarrow> wf_db (snd (ReapStaleUploads olderThan limit now db))"
proof -
  assume "wf_db db"
  then have "wf_db (fold (reap_upload now) ids db)" for ids
    by (rule fold_inv [where I = wf_db]) (rule wf_reap_upload)
  then show ?thesis by (simp add: ReapStaleUploads_def inTx_def Let_def)
qed

lemma finalise_object_eq:
  "finalise_object oid s n e now db = Inr (x, db') \<Longrightarrow>
   db' = db\<lparr>objects := sql_update (\<lambda>ob. o_id ob = oid) (complete_object s n e now) (objects db)\<rparr>"
  by (auto simp: finalise_object_def Let_def split: if_splits option.splits)

lemma tracked_objects [track_intros]:
  assumes "deletions_tracked db"
  shows "deletions_tracked (snd (BeginUpload bucket key ct cs newID now db))"
    "deletions_tracked (snd (TouchUpload oid now db))"
    "deletions_tracked (snd (AbortUpload oid reason now db))"
    "deletions_tracked (snd (DeleteObject bucket key now db))"
  using assms
  by (auto simp: BeginUpload_def TouchUpload_def AbortUpload_def DeleteObject_def insert_object_def Let_def
      split: if_splits list.splits intro!: inTx_tracked tracked_enqueue)

lemma tracked_CompleteUpload [track_intros]:
  assumes "deletions_tracked db"
  shows "deletions_tracked (snd (CompleteUpload oid s n e now db))"
proof (cases "CompleteUpload oid s n e now db")
  case (Pair res db')
  show ?thesis
  proof (cases res)
    case (Inr x)
    with Pair have eq: "CompleteUpload oid s n e now db = (Inr x, db')" by simp
    obtain ob where "find (\<lambda>ob. o_id ob = oid) (objects db) = Some ob" "o_state ob = ObjectUploading"
        "int (length (chunks_of_object oid (chunks db))) = n"
        "int (sql_count (\<lambda>c. c_state c = ChunkCommitted) (chunks_of_object oid (chunks db))) = n"
      and fin: "finalise_object oid s n e now
        (supersedeCurrentVersion (o_bucket ob) (o_key ob) oid now db) = Inr (x, db')"
      using eq by (rule CompleteUpload_success)
    from finalise_object_eq [OF fin] show ?thesis
      using Pair tracked_supersede [OF assms] by simp
  qed (use Pair CompleteUpload_error assms in fastforce)
qed

lemma tracked_reap_upload: "deletions_tracked db \<Longrightarrow> deletions_tracked (reap_upload now oid db)"
  by (simp add: reap_upload_def tracked_enqueue)

lemma tracked_ReapStaleUploads [track_intros]:
  "deletions_tracked db \<Longrightarrow> deletions_tracked (snd (ReapStaleUploads olderThan limit now db))"
proof -
  assume "deletions_tracked db"
  then have "deletions_tracked (fold (reap_upload now) ids db)" for ids
    by (rule fold_inv [where I = deletions_tracked]) (rule tracked_reap_upload)
  then show ?thesis by (simp add: ReapStaleUploads_def inTx_def Let_def)
qed

text \<open>Orphaning the chunks of an object that is not complete.\<close>

lemma owned_orphan:
  "oid' \<noteq> oid \<Longrightarrow> owned (chunks (orphanObjectChunks oid now db)) oid' = owned (chunks db) oid'"
proof -
  assume "oid' \<noteq> oid"
  let ?db1 = "db\<lparr>chunks := sql_update (\<lambda>c. c_object_id c = Some oid) (\<lambda>c. c\<lparr>c_state := ChunkOrphaned\<rparr>) (chunks db)\<rparr>"
  have "owned (chunks (enqueueObjectChunkDeletions oid now ?db1)) = owned (chunks ?db1)"
    by (rule owned_cong) simp
  moreover have "owned (chunks ?db1) oid' = owned (chunks db) oid'"
    using \<open>oid' \<noteq> oid\<close> by (auto intro!: owned_update_other)
  ultimately show ?thesis by (simp add: orphanObjectChunks_def)
qed

lemma objects_orphan [simp]: "objects (orphanObjectChunks oid now db) = objects db"
  by (simp add: orphanObjectChunks_def)

lemma full_orphan:
  assumes "completed_full db" "\<And>ob. ob \<in> set (objects db) \<Longrightarrow> o_id ob = oid \<Longrightarrow> o_state ob \<noteq> ObjectComplete"
  shows "completed_full (orphanObjectChunks oid now db)"
proof (rule complete_ok_owned [where own = "owned (chunks db)"])
  fix ob assume "ob \<in> set (objects (orphanObjectChunks oid now db))" "o_state ob = ObjectComplete"
  then have "o_id ob \<noteq> oid" using assms(2) by auto
  then show "owned (chunks (orphanObjectChunks oid now db)) (o_id ob) = owned (chunks db) (o_id ob)"
    by (rule owned_orphan)
qed (use assms in simp)

lemma complete_ok_append: "o_state ob \<noteq> ObjectComplete \<Longrightarrow> complete_ok (os @ [ob]) own \<longleftrightarrow> complete_ok os own"
  by (auto simp: complete_ok_def)

lemma full_AbortUpload [full_intros]:
  assumes "wf_db db" "completed_full db"
  shows "completed_full (snd (AbortUpload oid reason now db))"
proof -
  let ?P = "\<lambda>ob. o_id ob = oid \<and> o_state ob = ObjectUploading"
  let ?db1 = "db\<lparr>objects := sql_update ?P (\<lambda>ob. ob\<lparr>o_state := ObjectFailed,
                   o_failure := Some (truncate_string reason 500), o_updated := now\<rparr>) (objects db)\<rparr>"
  have 1: "completed_full ?db1" using assms(2) by (auto intro!: complete_ok_update)
  have "completed_full (orphanObjectChunks oid now ?db1)" if "sql_count ?P (objects db) \<noteq> 0"
  proof (rule full_orphan [OF 1])
    from that obtain x where x: "x \<in> set (objects db)" "?P x" by (auto simp: sql_count_0_iff)
    show "o_state ob \<noteq> ObjectComplete" if "ob \<in> set (objects ?db1)" "o_id ob = oid" for ob
    proof
      assume c: "o_state ob = ObjectComplete"
      with that(1) have "ob \<in> set (objects db)" by (auto elim!: in_sql_updateE)
      moreover have "o_id x = o_id ob" using x(2) that(2) by simp
      ultimately have "x = ob" using wf_object_unique [OF assms(1) x(1)] by blast
      with c x(2) show False by simp
    qed
  qed
  with 1 show ?thesis by (simp add: AbortUpload_def inTx_def Let_def)
qed

lemma full_simple_objects [full_intros]:
  assumes "completed_full db"
  shows "completed_full (snd (TouchUpload oid now db))"
    and "completed_full (snd (BeginUpload bucket key ct cs newID now db))"
    and "completed_full (snd (DeleteObject bucket key now db))"
proof -
  show "completed_full (snd (TouchUpload oid now db))"
    using assms by (auto simp: TouchUpload_def intro!: inTx_full complete_ok_update)
  show "completed_full (snd (BeginUpload bucket key ct cs newID now db))"
    unfolding BeginUpload_def insert_object_def Let_def using assms
    by (intro inTx_full) (auto simp: new_object_def complete_ok_append split: if_splits)
  let ?db1 = "db\<lparr>objects := sql_update (is_current bucket key) (retire_object now) (objects db)\<rparr>"
  have "completed_full ?db1" using assms by (auto intro!: complete_ok_update)
  moreover from this have "completed_full (enqueueObjectChunkDeletions oid now ?db1)" for oid
    by (rule completed_full_frame) simp_all
  ultimately show "completed_full (snd (DeleteObject bucket key now db))"
    by (auto simp: DeleteObject_def inTx_def Let_def split: list.splits)
qed

lemma full_complete:
  assumes "completed_full db" "n = int (length (owned (chunks db) oid))" "set (owned (chunks db) oid) \<subseteq> {ChunkCommitted}"
  shows "completed_full (db\<lparr>objects := sql_update (\<lambda>ob. o_id ob = oid) (complete_object s n e now) (objects db)\<rparr>)"
  unfolding complete_ok_def
proof (intro ballI impI)
  fix ob assume "ob \<in> set (objects (db\<lparr>objects := sql_update (\<lambda>ob. o_id ob = oid) (complete_object s n e now) (objects db)\<rparr>))"
    "o_state ob = ObjectComplete"
  then have "(o_id ob = oid \<and> o_chunk_count ob = n) \<or> ob \<in> set (objects db)" by (auto elim!: in_sql_updateE)
  then show "o_chunk_count ob = int (length (owned (chunks (db\<lparr>objects := sql_update (\<lambda>ob. o_id ob = oid)
        (complete_object s n e now) (objects db)\<rparr>)) (o_id ob)))
     \<and> set (owned (chunks (db\<lparr>objects := sql_update (\<lambda>ob. o_id ob = oid) (complete_object s n e now) (objects db)\<rparr>))
         (o_id ob)) \<subseteq> {ChunkCommitted}"
    using assms complete_okD [OF assms(1) _ \<open>o_state ob = ObjectComplete\<close>] by auto
qed

lemma full_CompleteUpload [full_intros]:
  assumes "wf_db db" "completed_full db"
  shows "completed_full (snd (CompleteUpload oid s n e now db))"
proof (cases "CompleteUpload oid s n e now db")
  case (Pair res db')
  show ?thesis
  proof (cases res)
    case (Inr x)
    with Pair have eq: "CompleteUpload oid s n e now db = (Inr x, db')" by simp
    obtain ob where
      cnt: "find (\<lambda>ob. o_id ob = oid) (objects db) = Some ob" "o_state ob = ObjectUploading"
        "int (length (chunks_of_object oid (chunks db))) = n"
        "int (sql_count (\<lambda>c. c_state c = ChunkCommitted) (chunks_of_object oid (chunks db))) = n"
      and fin: "finalise_object oid s n e now (supersedeCurrentVersion (o_bucket ob) (o_key ob) oid now db) = Inr (x, db')"
      using eq by (rule CompleteUpload_success)
    let ?db1 = "supersedeCurrentVersion (o_bucket ob) (o_key ob) oid now db"
    have own: "owned (chunks ?db1) = owned (chunks db)" by (rule owned_cong) simp
    have "completed_full ?db1"
      using assms(2) unfolding own supersede_objects by (auto intro!: complete_ok_update)
    moreover have "n = int (length (owned (chunks db) oid)) \<and> set (owned (chunks db) oid) \<subseteq> {ChunkCommitted}"
      using cnt(3,4) sql_count_all [of "\<lambda>c. c_state c = ChunkCommitted" "chunks_of_object oid (chunks db)"]
      by (auto simp: owned_def)
    ultimately have "completed_full db'"
      unfolding finalise_object_eq [OF fin] by (intro full_complete) (simp_all only: own)
    then show ?thesis using Pair by simp
  qed (use Pair CompleteUpload_error assms in fastforce)
qed

lemma full_reap_upload: "completed_full db \<Longrightarrow> completed_full (reap_upload now oid db)"
  unfolding reap_upload_def
proof (rule full_orphan)
  assume "completed_full db"
  then show "completed_full (db\<lparr>objects := sql_update (\<lambda>ob. o_id ob = oid)
      (\<lambda>ob. ob\<lparr>o_state := ObjectFailed, o_failure := Some ''upload timed out'', o_updated := now\<rparr>) (objects db)\<rparr>)"
    by (auto intro!: complete_ok_update)
next
  fix ob
  let ?f = "\<lambda>ob. ob\<lparr>o_state := ObjectFailed, o_failure := Some ''upload timed out'', o_updated := now\<rparr>"
  assume "o_id ob = oid" "ob \<in> set (objects (db\<lparr>objects := sql_update (\<lambda>ob. o_id ob = oid) ?f (objects db)\<rparr>))"
  then obtain r0 where "ob = ?f r0" using in_sql_update_key [of ob o_id oid ?f "objects db"] by auto
  then show "o_state ob \<noteq> ObjectComplete" by simp
qed

lemma full_ReapStaleUploads [full_intros]:
  "completed_full db \<Longrightarrow> completed_full (snd (ReapStaleUploads olderThan limit now db))"
proof -
  assume "completed_full db"
  then have "completed_full (fold (reap_upload now) ids db)" for ids
    by (rule fold_inv [where I = completed_full]) (rule full_reap_upload)
  then show ?thesis by (simp add: ReapStaleUploads_def inTx_def Let_def)
qed

section \<open>Properties\<close>

lemma uncounted_ids:
  assumes "map uncounted cs = map uncounted cs'"
  shows "(\<lambda>c. (c_id c, c_object_id c)) ` set cs = (\<lambda>c. (c_id c, c_object_id c)) ` set cs'"
proof -
  have "(\<lambda>c. (c_id c, c_object_id c)) ` set (map uncounted xs) = (\<lambda>c. (c_id c, c_object_id c)) ` set xs" for xs
    by (simp add: image_image uncounted_def)
  from this [of cs] this [of cs'] assms show ?thesis by simp
qed

lemma replica_at_enqueue:
  "replica_at (chunk_replicas (enqueueObjectChunkDeletions oid now db)) cid n =
    (if (cid, Some oid) \<in> (\<lambda>c. (c_id c, c_object_id c)) ` set (chunks db)
     then map_option (\<lambda>_. ReplicaDeleting) (replica_at (chunk_replicas db) cid n)
     else replica_at (chunk_replicas db) cid n)"
  by (auto simp: enqueueObjectChunkDeletions_def replica_at_queue_deletions)

lemma replica_at_fold_enqueue:
  "replica_at (chunk_replicas (fold (\<lambda>oid. enqueueObjectChunkDeletions oid now) oids db)) cid n =
    (if \<exists>oid \<in> set oids. (cid, Some oid) \<in> (\<lambda>c. (c_id c, c_object_id c)) ` set (chunks db)
     then map_option (\<lambda>_. ReplicaDeleting) (replica_at (chunk_replicas db) cid n)
     else replica_at (chunk_replicas db) cid n)"
proof (induction oids arbitrary: db)
  case (Cons oid oids)
  let ?db1 = "enqueueObjectChunkDeletions oid now db"
  have "(\<lambda>c. (c_id c, c_object_id c)) ` set (chunks ?db1) = (\<lambda>c. (c_id c, c_object_id c)) ` set (chunks db)"
    by (rule uncounted_ids) simp
  then show ?case
    using Cons.IH [of ?db1] replica_at_enqueue [of oid now db cid n]
    by (auto simp: option.map_comp o_def simp del: set_map)
qed simp

lemma replica_at_supersede:
  "replica_at (chunk_replicas (supersedeCurrentVersion bucket key newID now db)) cid n =
    (if \<exists>ob \<in> set (objects db). is_current bucket key ob \<and> o_id ob \<noteq> newID
          \<and> (cid, Some (o_id ob)) \<in> (\<lambda>c. (c_id c, c_object_id c)) ` set (chunks db)
     then map_option (\<lambda>_. ReplicaDeleting) (replica_at (chunk_replicas db) cid n)
     else replica_at (chunk_replicas db) cid n)"
proof -
  let ?cur = "\<lambda>ob. is_current bucket key ob \<and> o_id ob \<noteq> newID"
  have "replica_at (chunk_replicas (supersedeCurrentVersion bucket key newID now db)) cid n =
      (if \<exists>oid \<in> set (map o_id (filter ?cur (objects db))).
          (cid, Some oid) \<in> (\<lambda>c. (c_id c, c_object_id c)) ` set (chunks db)
       then map_option (\<lambda>_. ReplicaDeleting) (replica_at (chunk_replicas db) cid n)
       else replica_at (chunk_replicas db) cid n)"
    by (simp add: supersedeCurrentVersion_def Let_def replica_at_fold_enqueue conj_assoc del: set_map)
  moreover have "(\<exists>oid \<in> set (map o_id (filter ?cur (objects db))).
          (cid, Some oid) \<in> (\<lambda>c. (c_id c, c_object_id c)) ` set (chunks db)) \<longleftrightarrow>
      (\<exists>ob \<in> set (objects db). ?cur ob
          \<and> (cid, Some (o_id ob)) \<in> (\<lambda>c. (c_id c, c_object_id c)) ` set (chunks db))"
    by auto
  ultimately show ?thesis by (simp only: conj_assoc)
qed

lemma deleting_queued:
  "deletions_tracked db \<Longrightarrow> replica_at (chunk_replicas db) cid n = Some ReplicaDeleting \<Longrightarrow> (cid, n) \<in> queued db"
  by (drule replica_at_SomeD) (auto simp: tracked_def)

text \<open>The replicas of all chunks of an object are on their way out.\<close>

definition reclaiming :: "uuid \<Rightarrow> db \<Rightarrow> bool" where
  "reclaiming oid db \<longleftrightarrow> (\<forall>c \<in> set (chunks db). c_object_id c = Some oid \<longrightarrow>
     (\<forall>n. replica_at (chunk_replicas db) (c_id c) n \<noteq> None \<longrightarrow>
        replica_at (chunk_replicas db) (c_id c) n = Some ReplicaDeleting \<and> (c_id c, n) \<in> queued db))"

lemma reclaimingI:
  assumes "deletions_tracked db"
    and "\<And>c n. c \<in> set (chunks db) \<Longrightarrow> c_object_id c = Some oid \<Longrightarrow>
           replica_at (chunk_replicas db) (c_id c) n \<in> {None, Some ReplicaDeleting}"
  shows "reclaiming oid db"
  unfolding reclaiming_def
proof (intro ballI impI allI)
  fix c n assume "c \<in> set (chunks db)" "c_object_id c = Some oid" "replica_at (chunk_replicas db) (c_id c) n \<noteq> None"
  then have "replica_at (chunk_replicas db) (c_id c) n = Some ReplicaDeleting" using assms(2) [of c n] by auto
  then show "replica_at (chunk_replicas db) (c_id c) n = Some ReplicaDeleting \<and> (c_id c, n) \<in> queued db"
    using deleting_queued [OF assms(1)] by blast
qed

lemma HeadObject_iff:
  assumes "wf_db db"
  shows "HeadObject bucket key db = Inr obj \<longleftrightarrow> (\<exists>ob \<in> set (objects db). is_current bucket key ob \<and> obj = scanObject ob)"
    and "HeadObject bucket key db = Inl ErrNotFound \<longleftrightarrow> (\<forall>ob \<in> set (objects db). \<not> is_current bucket key ob)"
    and "HeadObject bucket key db \<noteq> Inl ErrNotFound \<Longrightarrow> \<exists>obj. HeadObject bucket key db = Inr obj"
proof -
  have u: "find (is_current bucket key) (objects db) = Some ob \<longleftrightarrow> ob \<in> set (objects db) \<and> is_current bucket key ob" for ob
  proof
    assume "find (is_current bucket key) (objects db) = Some ob"
    then show "ob \<in> set (objects db) \<and> is_current bucket key ob" using find_Some_in by fast
  next
    assume ob: "ob \<in> set (objects db) \<and> is_current bucket key ob"
    then obtain ob' where f: "find (is_current bucket key) (objects db) = Some ob'"
      using find_None_not [of "is_current bucket key" "objects db" ob] by fastforce
    then have "ob' = ob" using find_Some_in [OF f] ob wf_current_unique [OF assms, of ob' ob] by simp
    with f show "find (is_current bucket key) (objects db) = Some ob" by simp
  qed
  have "HeadObject bucket key db = Inr obj \<longleftrightarrow> (\<exists>ob. find (is_current bucket key) (objects db) = Some ob \<and> obj = scanObject ob)"
    by (auto simp: HeadObject_def split: option.splits)
  then show "HeadObject bucket key db = Inr obj \<longleftrightarrow> (\<exists>ob \<in> set (objects db). is_current bucket key ob \<and> obj = scanObject ob)"
    unfolding u by blast
  show "HeadObject bucket key db = Inl ErrNotFound \<longleftrightarrow> (\<forall>ob \<in> set (objects db). \<not> is_current bucket key ob)"
    by (auto simp: HeadObject_def find_None_iff split: option.splits dest: find_Some_in)
  show "HeadObject bucket key db \<noteq> Inl ErrNotFound \<Longrightarrow> \<exists>obj. HeadObject bucket key db = Inr obj"
    by (auto simp: HeadObject_def split: option.splits)
qed

text \<open>Whether a version is current decides what a reader of its key sees, and nothing else does.\<close>

lemma HeadObject_cong:
  assumes "wf_db db" "wf_db db'"
    and "\<And>ob. is_current bucket key ob \<Longrightarrow> ob \<in> set (objects db') \<longleftrightarrow> ob \<in> set (objects db)"
  shows "HeadObject bucket key db' = HeadObject bucket key db"
proof (cases "HeadObject bucket key db")
  case (Inl e)
  then have e: "e = ErrNotFound" using HeadObject_iff(3) [OF assms(1), of bucket key] by (cases "e = ErrNotFound") auto
  then have "\<forall>ob \<in> set (objects db). \<not> is_current bucket key ob" using Inl HeadObject_iff(2) [OF assms(1)] by simp
  then have "\<forall>ob \<in> set (objects db'). \<not> is_current bucket key ob" using assms(3) by blast
  then show ?thesis using Inl e HeadObject_iff(2) [OF assms(2)] by simp
next
  case (Inr obj)
  then obtain ob where "ob \<in> set (objects db)" "is_current bucket key ob" "obj = scanObject ob"
    using HeadObject_iff(1) [OF assms(1)] by blast
  then have "HeadObject bucket key db' = Inr obj"
    using assms(3) HeadObject_iff(1) [OF assms(2)] by blast
  then show ?thesis using Inr by simp
qed

lemma HeadObject_frame:
  assumes "wf_db db" "wf_db db'" and rows: "objects db' = map f (objects db)"
    and "\<And>x. x \<in> set (objects db) \<Longrightarrow> is_current bucket key x \<or> is_current bucket key (f x) \<Longrightarrow> f x = x"
  shows "HeadObject bucket key db' = HeadObject bucket key db"
  using assms(1,2)
proof (rule HeadObject_cong)
  fix x assume "is_current bucket key x"
  then show "x \<in> set (objects db') \<longleftrightarrow> x \<in> set (objects db)"
    unfolding rows set_map using assms(4) by (metis (no_types, lifting) imageE image_eqI)
qed

lemma GetObjectByID_iff:
  assumes "wf_db db"
  shows "GetObjectByID oid db = Inr obj \<longleftrightarrow> (\<exists>ob \<in> set (objects db). o_id ob = oid \<and> obj = scanObject ob)"
proof -
  have d: "distinct (map o_id (objects db))" using assms by (simp add: wf_db_def objects_ok_def)
  show ?thesis
    using find_Some_distinct [OF d] by (fastforce simp: GetObjectByID_def split: option.splits dest: find_Some_in)
qed

text \<open>
  Publishing a version: superseding the current version and completing the new one, the last steps
  of CompleteUpload and of the assembly of a multipart upload.
\<close>

lemma publish_rows:
  assumes wf: "wf_db db" and f: "find (\<lambda>ob. o_id ob = oid) (objects db) = Some ob"
    and fin: "finalise_object oid s n e now (supersedeCurrentVersion (o_bucket ob) (o_key ob) oid now db) = Inr (obj, db')"
  shows "obj = scanObject (complete_object s n e now ob)"
    "objects db' = map (\<lambda>x. if o_id x = oid then complete_object s n e now x
       else if is_current (o_bucket ob) (o_key ob) x then retire_object now x else x) (objects db)"
    "chunk_replicas db' = chunk_replicas (supersedeCurrentVersion (o_bucket ob) (o_key ob) oid now db)"
    "map uncounted (chunks db') = map uncounted (chunks db)"
    "wf_db db'" "deletions_tracked db \<Longrightarrow> deletions_tracked db'"
proof -
  let ?db1 = "supersedeCurrentVersion (o_bucket ob) (o_key ob) oid now db"
  have db': "db' = ?db1\<lparr>objects := sql_update (\<lambda>ob. o_id ob = oid) (complete_object s n e now) (objects ?db1)\<rparr>"
    using fin by (rule finalise_object_eq)
  show rows: "objects db' = map (\<lambda>x. if o_id x = oid then complete_object s n e now x
       else if is_current (o_bucket ob) (o_key ob) x then retire_object now x else x) (objects db)"
    unfolding db' by (simp add: supersede_objects sql_update_def)
  have ob: "ob \<in> set (objects db)" "o_id ob = oid" using find_Some_in [OF f] by auto
  obtain row where row: "row \<in> set (objects db')" "o_id row = oid" "obj = scanObject row"
    using fin by (auto simp: finalise_object_def Let_def split: if_splits option.splits dest!: find_Some_in)
  then obtain x where x: "x \<in> set (objects db)" "o_id x = oid" "row = complete_object s n e now x"
    unfolding rows by (auto split: if_splits)
  then have "x = ob" using wf_object_unique [OF wf x(1) ob(1)] ob(2) by simp
  with x row show "obj = scanObject (complete_object s n e now ob)" by simp
  show "chunk_replicas db' = chunk_replicas ?db1" "map uncounted (chunks db') = map uncounted (chunks db)"
    unfolding db' by simp_all
  show "wf_db db'"
    using wf_finalise [OF wf_supersede [OF wf] fin] superseded_unique [OF wf f] by blast
  show "deletions_tracked db'" if "deletions_tracked db"
    using tracked_supersede [OF that] unfolding db' by simp
qed

lemma reclaiming_supersede:
  assumes "deletions_tracked db'" "old \<in> set (objects db)" "is_current bucket key old" "o_id old \<noteq> newID"
    and "map uncounted (chunks db') = map uncounted (chunks db)"
    and "chunk_replicas db' = chunk_replicas (supersedeCurrentVersion bucket key newID now db)"
  shows "reclaiming (o_id old) db'"
proof (rule reclaimingI [OF assms(1)])
  fix c n assume "c \<in> set (chunks db')" "c_object_id c = Some (o_id old)"
  then have "(c_id c, Some (o_id old)) \<in> (\<lambda>c. (c_id c, c_object_id c)) ` set (chunks db')" by force
  then have "(c_id c, Some (o_id old)) \<in> (\<lambda>c. (c_id c, c_object_id c)) ` set (chunks db)"
    using uncounted_ids [OF assms(5)] by simp
  with assms(2-4) have "\<exists>ob \<in> set (objects db). is_current bucket key ob \<and> o_id ob \<noteq> newID
      \<and> (c_id c, Some (o_id ob)) \<in> (\<lambda>c. (c_id c, c_object_id c)) ` set (chunks db)" by blast
  then have "replica_at (chunk_replicas db') (c_id c) n
      = map_option (\<lambda>_. ReplicaDeleting) (replica_at (chunk_replicas db) (c_id c) n)"
    unfolding assms(6) replica_at_supersede by (rule if_P)
  then show "replica_at (chunk_replicas db') (c_id c) n \<in> {None, Some ReplicaDeleting}" by auto
qed

lemma supersede_keeps_new:
  assumes wf: "wf_db db" and c: "c \<in> set (chunks db)" "c_object_id c = Some oid"
  shows "replica_at (chunk_replicas (supersedeCurrentVersion bucket key oid now db)) (c_id c) m
    = replica_at (chunk_replicas db) (c_id c) m"
proof -
  have False if ne: "o_id x \<noteq> oid"
      and pair: "(c_id c, Some (o_id x)) \<in> (\<lambda>c. (c_id c, c_object_id c)) ` set (chunks db)" for x
  proof -
    obtain c' where c': "c' \<in> set (chunks db)" "c_id c' = c_id c" "c_object_id c' = Some (o_id x)"
      using pair by force
    then have "c' = c" using wf_chunk_unique [OF wf c'(1) c(1)] by simp
    with c' c ne show False by simp
  qed
  then have "\<not> (\<exists>ob \<in> set (objects db). is_current bucket key ob \<and> o_id ob \<noteq> oid
      \<and> (c_id c, Some (o_id ob)) \<in> (\<lambda>c. (c_id c, c_object_id c)) ` set (chunks db))" by blast
  then show ?thesis unfolding replica_at_supersede by (rule if_not_P)
qed

lemma publish_effect:
  assumes wf: "wf_db db" and tr: "deletions_tracked db"
    and f: "find (\<lambda>ob. o_id ob = oid) (objects db) = Some ob" and up: "o_state ob = ObjectUploading"
    and fin: "finalise_object oid s n e now (supersedeCurrentVersion (o_bucket ob) (o_key ob) oid now db) = Inr (obj, db')"
  shows "HeadObject (o_bucket ob) (o_key ob) db' = Inr obj
      \<and> Obj_Bucket obj = o_bucket ob \<and> Obj_Key obj = o_key ob
      \<and> Obj_ID obj = oid \<and> Obj_SizeBytes obj = s \<and> Obj_ChunkCount obj = n \<and> Obj_ETag obj = e"
    and "HeadObject (o_bucket ob) (o_key ob) db = Inr old \<Longrightarrow>
           reclaiming (Obj_ID old) db'
         \<and> (\<exists>old'. GetObjectByID (Obj_ID old) db' = Inr old' \<and> Obj_State old' = ObjectDeleting)"
    and "(b, k) \<noteq> (o_bucket ob, o_key ob) \<Longrightarrow> HeadObject b k db' = HeadObject b k db"
proof -
  have ob: "ob \<in> set (objects db)" "o_id ob = oid" using find_Some_in [OF f] by auto
  note obj = publish_rows(1) [OF wf f fin] and rows = publish_rows(2) [OF wf f fin]
    and reps = publish_rows(3) [OF wf f fin] and cs = publish_rows(4) [OF wf f fin]
    and wf' = publish_rows(5) [OF wf f fin] and tr' = publish_rows(6) [OF wf f fin tr]
  have uniq: "x = ob" if "x \<in> set (objects db)" "o_id x = oid" for x
    using that ob wf_object_unique [OF wf that(1) ob(1)] by simp
  have bk: "Obj_Bucket obj = o_bucket ob" "Obj_Key obj = o_key ob" by (simp_all add: obj scanObject_def)
  have "complete_object s n e now ob \<in> set (objects db')"
    unfolding rows set_map using ob by (intro image_eqI [of _ _ ob]) auto
  then have "HeadObject (o_bucket ob) (o_key ob) db' = Inr obj"
    unfolding HeadObject_iff(1) [OF wf'] obj by (intro bexI [of _ "complete_object s n e now ob"]) auto
  then show "HeadObject (o_bucket ob) (o_key ob) db' = Inr obj
      \<and> Obj_Bucket obj = o_bucket ob \<and> Obj_Key obj = o_key ob
      \<and> Obj_ID obj = oid \<and> Obj_SizeBytes obj = s \<and> Obj_ChunkCount obj = n \<and> Obj_ETag obj = e"
    using ob bk by (simp add: obj scanObject_def complete_object_def nullString_def)
  show "reclaiming (Obj_ID old) db'
        \<and> (\<exists>old'. GetObjectByID (Obj_ID old) db' = Inr old' \<and> Obj_State old' = ObjectDeleting)"
    if head: "HeadObject (o_bucket ob) (o_key ob) db = Inr old"
  proof -
    obtain x where x: "x \<in> set (objects db)" "is_current (o_bucket ob) (o_key ob) x" "old = scanObject x"
      using head unfolding HeadObject_iff(1) [OF wf] by blast
    have ne: "o_id x \<noteq> oid" using uniq [OF x(1)] x(2) up by (cases "o_id x = oid") auto
    have "retire_object now x \<in> set (objects db')"
      unfolding rows set_map using x ne by (intro image_eqI [of _ _ x]) auto
    then have "GetObjectByID (o_id x) db' = Inr (scanObject (retire_object now x))"
      unfolding GetObjectByID_iff [OF wf'] by (intro bexI [of _ "retire_object now x"]) simp_all
    moreover have "reclaiming (o_id x) db'"
      by (rule reclaiming_supersede [OF tr' x(1) x(2) ne cs reps])
    ultimately show ?thesis using x(3) by (simp add: scanObject_def)
  qed
  show "HeadObject b k db' = HeadObject b k db" if bk': "(b, k) \<noteq> (o_bucket ob, o_key ob)"
  proof (rule HeadObject_frame [OF wf wf' rows])
    fix x assume x: "x \<in> set (objects db)" and cur: "is_current b k x \<or> is_current b k (if o_id x = oid then complete_object s n e now x
       else if is_current (o_bucket ob) (o_key ob) x then retire_object now x else x)"
    have "o_id x \<noteq> oid" using uniq [OF x] cur bk' by (cases "o_id x = oid") auto
    then show "(if o_id x = oid then complete_object s n e now x
       else if is_current (o_bucket ob) (o_key ob) x then retire_object now x else x) = x"
      using cur bk' by (auto split: if_splits)
  qed
qed

text \<open>
  C6 (overwriting is atomic). A failed CompleteUpload changes nothing. A successful one makes the
  uploaded version, with the given size, chunk count and ETag, what a reader of its key sees; the
  version it replaces is DELETING, and every replica of its chunks is DELETING and queued for
  deletion, while the replicas of the new version are left alone; no reader of another key
  notices.
\<close>

theorem complete_upload_atomic:
  assumes wf: "wf_db db" and tr: "deletions_tracked db"
    and eq: "CompleteUpload oid s n e now db = (res, db')"
  shows "case res of
      Inl err \<Rightarrow> db' = db
    | Inr obj \<Rightarrow>
        HeadObject (Obj_Bucket obj) (Obj_Key obj) db' = Inr obj
      \<and> Obj_ID obj = oid \<and> Obj_SizeBytes obj = s \<and> Obj_ChunkCount obj = n \<and> Obj_ETag obj = e
      \<and> (\<forall>c \<in> set (chunks db). c_object_id c = Some oid \<longrightarrow>
           (\<forall>m. replica_at (chunk_replicas db') (c_id c) m = replica_at (chunk_replicas db) (c_id c) m))
      \<and> (\<forall>old. HeadObject (Obj_Bucket obj) (Obj_Key obj) db = Inr old \<longrightarrow>
           reclaiming (Obj_ID old) db'
         \<and> (\<exists>old'. GetObjectByID (Obj_ID old) db' = Inr old' \<and> Obj_State old' = ObjectDeleting))
      \<and> (\<forall>b k. (b, k) \<noteq> (Obj_Bucket obj, Obj_Key obj) \<longrightarrow> HeadObject b k db' = HeadObject b k db)"
proof (cases res)
  case (Inl err)
  then show ?thesis using CompleteUpload_error eq by auto
next
  case (Inr obj)
  with eq have eq': "CompleteUpload oid s n e now db = (Inr obj, db')" by simp
  obtain ob where f: "find (\<lambda>ob. o_id ob = oid) (objects db) = Some ob" and up: "o_state ob = ObjectUploading"
    and "int (length (chunks_of_object oid (chunks db))) = n"
    and "int (sql_count (\<lambda>c. c_state c = ChunkCommitted) (chunks_of_object oid (chunks db))) = n"
    and fin: "finalise_object oid s n e now (supersedeCurrentVersion (o_bucket ob) (o_key ob) oid now db) = Inr (obj, db')"
    using eq' by (rule CompleteUpload_success)
  note eff = publish_effect [OF wf tr f up fin]
  have "replica_at (chunk_replicas db') (c_id c) m = replica_at (chunk_replicas db) (c_id c) m"
    if "c \<in> set (chunks db)" "c_object_id c = Some oid" for c m
    unfolding publish_rows(3) [OF wf f fin] by (rule supersede_keeps_new [OF wf that])
  then show ?thesis using eff(1) eff(2,3) Inr by auto
qed

lemma tracked_ex_db: "deletions_tracked ex_db"
  by (simp add: tracked_def ex_defs)

lemma full_ex_db: "completed_full ex_db"
  by (simp add: complete_ok_def owned_def chunks_of_object_def ex_defs)

theorem complete_upload_atomic_witness:
  "\<exists>obj db'. CompleteUpload 2 1 1 ''e'' 9 ex_db = (Inr obj, db') \<and> HeadObject ''b'' ''k'' db' = Inr obj
     \<and> Obj_ID obj = 2 \<and> reclaiming 1 db'"
proof -
  have res: "fst (CompleteUpload 2 1 1 ''e'' 9 ex_db) = Inr (scanObject (complete_object 1 1 ''e'' 9 (ex_object 2 2 ObjectUploading 0)))"
    by code_simp
  then obtain obj db' where eq: "CompleteUpload 2 1 1 ''e'' 9 ex_db = (Inr obj, db')" and obj: "obj = scanObject (complete_object 1 1 ''e'' 9 (ex_object 2 2 ObjectUploading 0))"
    by (metis prod.collapse)
  have "Obj_Bucket obj = ''b''" "Obj_Key obj = ''k''" by (simp_all add: obj scanObject_def complete_object_def ex_object_def)
  moreover have "HeadObject ''b'' ''k'' ex_db = Inr (scanObject (ex_object 1 1 ObjectComplete 1))" by code_simp
  ultimately show ?thesis
    using complete_upload_atomic [OF wf_ex_db tracked_ex_db eq] eq by (simp add: scanObject_def ex_object_def)
qed

subsection \<open>Deleting\<close>

lemma reclaiming_enqueue:
  assumes "deletions_tracked db'" "db' = enqueueObjectChunkDeletions oid now db"
  shows "reclaiming oid db'"
proof (rule reclaimingI [OF assms(1)])
  fix c n assume "c \<in> set (chunks db')" "c_object_id c = Some oid"
  then have "(c_id c, Some oid) \<in> (\<lambda>c. (c_id c, c_object_id c)) ` set (chunks db')" by force
  then have "(c_id c, Some oid) \<in> (\<lambda>c. (c_id c, c_object_id c)) ` set (chunks db)"
    using uncounted_ids [of "chunks db'" "chunks db"] by (simp add: assms(2))
  then show "replica_at (chunk_replicas db') (c_id c) n \<in> {None, Some ReplicaDeleting}"
    by (auto simp: assms(2) replica_at_enqueue)
qed



subsection \<open>Reading\<close>

lemma ChunksForObject_length:
  assumes wf: "wf_db db"
  shows "length (ChunksForObject oid True db) = card (readable_chunks db oid)"
proof -
  let ?P = "\<lambda>c. c_object_id c = Some oid \<and> c_state c = ChunkCommitted"
  let ?cs = "remdups_adj (map fst (layout_rows ?P True db))"
  have "length (ChunksForObject oid True db) = length ?cs" and "distinct ?cs"
    using chunksWhere_layout [OF wf, of ?P oid True] by (auto simp: ChunksForObject_def)
  moreover have "set ?cs = readable_chunks db oid" using fst_layout_rows [OF wf, of oid] by simp
  ultimately show ?thesis using distinct_card [of ?cs] by simp
qed

text \<open>
  C7 (an object is served whole or not at all). A read of a current version returns its layout
  exactly when each of its chunks has an AVAILABLE replica on a node that is not DEAD; as soon as
  one chunk has none, the read is refused with \<^verbatim>\<open>ErrConflict\<close>.
\<close>

theorem get_object_whole:
  assumes wf: "wf_db db" and full: "completed_full db" and head: "HeadObject bucket key db = Inr obj"
  shows "GetObject bucket key db =
    (if \<forall>c \<in> set (chunks db). c_object_id c = Some (Obj_ID obj) \<longrightarrow> (\<exists>n. readable db (c_id c) n)
     then Inr (obj, ChunksForObject (Obj_ID obj) True db) else Inl ErrConflict)"
proof -
  obtain ob where ob: "ob \<in> set (objects db)" "is_current bucket key ob" "obj = scanObject ob"
    using head unfolding HeadObject_iff(1) [OF wf] by blast
  let ?all = "set (chunks_of_object (o_id ob) (chunks db))"
  have own: "o_chunk_count ob = int (length (chunks_of_object (o_id ob) (chunks db)))"
    and com: "\<forall>c \<in> ?all. c_state c = ChunkCommitted"
    using complete_okD [OF full ob(1)] ob(2) by (auto simp: owned_def)
  have "distinct (map c_id (chunks db))" using wf by (simp add: wf_db_def positions_ok_def)
  then have "distinct (chunks_of_object (o_id ob) (chunks db))"
    by (simp add: chunks_of_object_def distinct_map)
  then have count: "o_chunk_count ob = int (card ?all)" using own by (simp add: distinct_card)
  have sub: "readable_chunks db (o_id ob) = {c \<in> ?all. \<exists>n. readable db (c_id c) n}"
    using com by (auto simp: readable_chunks_def chunks_of_object_def)
  have "card (readable_chunks db (o_id ob)) = card ?all \<longleftrightarrow> (\<forall>c \<in> ?all. \<exists>n. readable db (c_id c) n)"
  proof
    assume "card (readable_chunks db (o_id ob)) = card ?all"
    then have "readable_chunks db (o_id ob) = ?all" using sub by (intro card_subset_eq) auto
    then show "\<forall>c \<in> ?all. \<exists>n. readable db (c_id c) n" using sub by blast
  next
    assume "\<forall>c \<in> ?all. \<exists>n. readable db (c_id c) n"
    then have "readable_chunks db (o_id ob) = ?all" using sub by blast
    then show "card (readable_chunks db (o_id ob)) = card ?all" by simp
  qed
  moreover have "?all = {c \<in> set (chunks db). c_object_id c = Some (o_id ob)}"
    by (simp add: chunks_of_object_def)
  ultimately show ?thesis
    using head ob(3) count by (auto simp: GetObject_def ChunksForObject_length [OF wf] scanObject_def Let_def)
qed

theorem get_object_whole_witness:
  "\<exists>obj cs. GetObject ''b'' ''k'' ex_db = Inr (obj, cs) \<and> length cs = 1"
proof -
  have head: "HeadObject ''b'' ''k'' ex_db = Inr (scanObject (ex_object 1 1 ObjectComplete 1))" by code_simp
  have "readable ex_db 7 ''n1''" by (simp add: readable_def replica_at_def ex_defs)
  then have "\<forall>c \<in> set (chunks ex_db). c_object_id c = Some 1 \<longrightarrow> (\<exists>n. readable ex_db (c_id c) n)"
    by (auto simp: ex_db_def ex_chunk_def)
  moreover have "length (ChunksForObject 1 True ex_db) = 1" by code_simp
  ultimately show ?thesis
    using get_object_whole [OF wf_ex_db full_ex_db head] by (simp add: scanObject_def ex_object_def)
qed

subsection \<open>Listing\<close>

definition literal :: "string \<Rightarrow> bool" where
  "literal s \<longleftrightarrow> list_all (\<lambda>x. x \<notin> {CHR ''%'', CHR ''_'', CHR 0x5C}) s"

lemma sql_like_percent: "sql_like ''%'' s"
  by (induction s) simp_all

lemma sql_like_prefix: "literal prefix \<Longrightarrow> sql_like (prefix @ ''%'') s \<longleftrightarrow> (\<exists>t. s = prefix @ t)"
proof (induction prefix arbitrary: s)
  case Nil
  then show ?case using sql_like_percent by simp
next
  case (Cons p ps)
  then have "literal ps" "p \<noteq> CHR ''%''" "p \<noteq> CHR 0x5C" "p \<noteq> CHR ''_''" by (simp_all add: literal_def)
  with Cons.IH [of "tl s"] show ?case by (cases s) auto
qed



end
