(* ===== verification/Checksum.thy ===== *)
theory Checksum
  imports Flex_Prelude
begin

text \<open>
  \<^verbatim>\<open>internal/checksum\<close>: the hex digests that identify chunk contents, with the parts of
  \<^verbatim>\<open>crypto/sha256\<close> and \<^verbatim>\<open>encoding/hex\<close> it uses. SHA-256 is defined as in FIPS 180-4 and as the Go
  package implements it: a running state, a buffer of fewer than 64 pending bytes, and the number
  of bytes written.

  The lemmas show that hashing a stream piece by piece gives the digest of the whole, whatever
  the pieces are, that every digest is a well-formed checksum, and that the tee reader and writer
  account for exactly the bytes that passed through them.
\<close>

unbundle bit_operations_syntax

section \<open>SHA-256\<close>

definition sha256_K :: "32 word list" where
  "sha256_K = [
     0x428a2f98, 0x71374491, 0xb5c0fbcf, 0xe9b5dba5, 0x3956c25b, 0x59f111f1, 0x923f82a4, 0xab1c5ed5,
     0xd807aa98, 0x12835b01, 0x243185be, 0x550c7dc3, 0x72be5d74, 0x80deb1fe, 0x9bdc06a7, 0xc19bf174,
     0xe49b69c1, 0xefbe4786, 0x0fc19dc6, 0x240ca1cc, 0x2de92c6f, 0x4a7484aa, 0x5cb0a9dc, 0x76f988da,
     0x983e5152, 0xa831c66d, 0xb00327c8, 0xbf597fc7, 0xc6e00bf3, 0xd5a79147, 0x06ca6351, 0x14292967,
     0x27b70a85, 0x2e1b2138, 0x4d2c6dfc, 0x53380d13, 0x650a7354, 0x766a0abb, 0x81c2c92e, 0x92722c85,
     0xa2bfe8a1, 0xa81a664b, 0xc24b8b70, 0xc76c51a3, 0xd192e819, 0xd6990624, 0xf40e3585, 0x106aa070,
     0x19a4c116, 0x1e376c08, 0x2748774c, 0x34b0bcb5, 0x391c0cb3, 0x4ed8aa4a, 0x5b9cca4f, 0x682e6ff3,
     0x748f82ee, 0x78a5636f, 0x84c87814, 0x8cc70208, 0x90befffa, 0xa4506ceb, 0xbef9a3f7, 0xc67178f2]"

definition sha256_init :: "32 word list" where
  "sha256_init = [
     0x6a09e667, 0xbb67ae85, 0x3c6ef372, 0xa54ff53a, 0x510e527f, 0x9b05688c, 0x1f83d9ab, 0x5be0cd19]"


definition big_endian :: "bytes \<Rightarrow> 32 word" where
  "big_endian bs = foldl (\<lambda>acc b. push_bit 8 acc OR ucast b) 0 bs"

definition word_bytes :: "'a::len word \<Rightarrow> nat \<Rightarrow> bytes" where
  "word_bytes w n = map (\<lambda>i. ucast (drop_bit (8 * (n - 1 - i)) w)) [0..<n]"

fun message_schedule :: "nat \<Rightarrow> 32 word list \<Rightarrow> 32 word list" where
  "message_schedule 0 ws = ws"
| "message_schedule (Suc n) ws =
     (let t = length ws; v1 = ws ! (t - 2); v2 = ws ! (t - 15);
          t1 = word_rotr 17 v1 XOR word_rotr 19 v1 XOR drop_bit 10 v1;
          t2 = word_rotr 7 v2 XOR word_rotr 18 v2 XOR drop_bit 3 v2
      in message_schedule n (ws @ [t1 + ws ! (t - 7) + t2 + ws ! (t - 16)]))"

fun words_of_block :: "nat \<Rightarrow> bytes \<Rightarrow> 32 word list" where
  "words_of_block 0 bs = []"
| "words_of_block (Suc n) bs = big_endian (take 4 bs) # words_of_block n (drop 4 bs)"

definition sha256_round :: "32 word \<times> 32 word \<Rightarrow> 32 word list \<Rightarrow> 32 word list" where
  "sha256_round kw v =
     (case v of
        [a, b, c, d, e, f, g, h] \<Rightarrow>
          let t1 = h + (word_rotr 6 e XOR word_rotr 11 e XOR word_rotr 25 e)
                   + ((e AND f) XOR (NOT e AND g)) + fst kw + snd kw;
              t2 = (word_rotr 2 a XOR word_rotr 13 a XOR word_rotr 22 a)
                   + ((a AND b) XOR (a AND c) XOR (b AND c))
          in [t1 + t2, a, b, c, d + t1, e, f, g]
      | _ \<Rightarrow> v)"

definition sha256_block :: "32 word list \<Rightarrow> bytes \<Rightarrow> 32 word list" where
  "sha256_block hs block =
     (let w = message_schedule 48 (words_of_block 16 block);
          v = fold sha256_round (zip sha256_K w) hs
      in map2 (+) hs v)"

text \<open>The digest object: running state, pending bytes, number of bytes written (a \<^verbatim>\<open>uint64\<close>).\<close>

record digest =
  dg_h :: "32 word list"
  dg_x :: bytes
  dg_len :: "64 word"

definition New :: digest where
  "New = \<lparr>dg_h = sha256_init, dg_x = [], dg_len = 0\<rparr>"

fun absorb :: "32 word list \<Rightarrow> bytes \<Rightarrow> 32 word list \<times> bytes" where
  "absorb hs bs = (if length bs < 64 then (hs, bs) else absorb (sha256_block hs (take 64 bs)) (drop 64 bs))"

declare absorb.simps [simp del]

definition digest_write :: "digest \<Rightarrow> bytes \<Rightarrow> digest" where
  "digest_write d p =
     (let (hs, x) = absorb (dg_h d) (dg_x d @ p)
      in \<lparr>dg_h = hs, dg_x = x, dg_len = dg_len d + of_nat (length p)\<rparr>)"

definition padding :: "64 word \<Rightarrow> bytes" where
  "padding len =
     (let r = unat len mod 64
      in (0x80 # replicate ((if r < 56 then 56 - r else 64 + 56 - r) - 1) 0)
         @ word_bytes (push_bit 3 len) 8)"

definition digest_sum :: "digest \<Rightarrow> bytes" where
  "digest_sum d = concat (map (\<lambda>w. word_bytes w 4) (dg_h (digest_write d (padding (dg_len d)))))"

definition Sum256 :: "bytes \<Rightarrow> bytes" where
  "Sum256 b = digest_sum (digest_write New b)"

section \<open>Hexadecimal\<close>

definition hex_digit :: "nat \<Rightarrow> char" where
  "hex_digit n = ''0123456789abcdef'' ! n"

definition hex_encode :: "bytes \<Rightarrow> string" where
  "hex_encode bs = concat (map (\<lambda>b. [hex_digit (unat b div 16), hex_digit (unat b mod 16)]) bs)"

section \<open>The package\<close>

definition Sum :: "bytes \<Rightarrow> string" where
  "Sum b = hex_encode (Sum256 b)"

definition Hex :: "digest \<Rightarrow> string" where
  "Hex h = hex_encode (digest_sum h)"

text \<open>\<^verbatim>\<open>^[0-9a-f]{64}$\<close>\<close>

definition Valid :: "string \<Rightarrow> bool" where
  "Valid s \<longleftrightarrow> length s = 64 \<and> list_all (\<lambda>c. c \<in> set ''0123456789abcdef'') s"

text \<open>\<^verbatim>\<open>subtle.ConstantTimeCompare\<close> accumulates the differing bits of all byte pairs.\<close>

definition byte_of :: "char \<Rightarrow> byte" where
  "byte_of c = of_nat (of_char c)"

definition ConstantTimeCompare :: "string \<Rightarrow> string \<Rightarrow> int" where
  "ConstantTimeCompare x y =
     (if length x \<noteq> length y then 0
      else if foldl (\<lambda>v p. v OR (byte_of (fst p) XOR byte_of (snd p))) 0 (zip x y) = 0 then 1 else 0)"

definition Equal :: "string \<Rightarrow> string \<Rightarrow> bool" where
  "Equal a b = (if length a \<noteq> length b then False else ConstantTimeCompare a b = 1)"

datatype checksum_error = ErrMismatch string string string

definition Verify :: "string \<Rightarrow> string \<Rightarrow> string \<Rightarrow> checksum_error option" where
  "Verify subject expected actual =
     (if Equal expected actual then None else Some (ErrMismatch subject expected actual))"

text \<open>
  The tee reader and the tee writer. The wrapped stream is a parameter: a function that, asked
  for at most \<open>n\<close> bytes (or given bytes to write), returns what it delivered (how many bytes it
  took) and its error.
\<close>

record 'r reader =
  cr_r :: 'r
  cr_h :: digest
  cr_n :: int

definition NewReader :: "'r \<Rightarrow> 'r reader" where
  "NewReader r = \<lparr>cr_r = r, cr_h = New, cr_n = 0\<rparr>"

definition Read :: "(nat \<Rightarrow> 'r \<Rightarrow> (bytes \<times> 'e option) \<times> 'r) \<Rightarrow> nat \<Rightarrow> 'r reader \<Rightarrow> (bytes \<times> 'e option) \<times> 'r reader" where
  "Read read_inner n cr =
     (let ((bs, err), r') = read_inner n (cr_r cr);
          cr1 = cr\<lparr>cr_r := r'\<rparr>
      in ((bs, err),
          if length bs > 0
          then cr1\<lparr>cr_h := digest_write (cr_h cr1) bs, cr_n := wrap64 (cr_n cr1 + int (length bs))\<rparr>
          else cr1))"

definition Reader_Sum :: "'r reader \<Rightarrow> string" where
  "Reader_Sum cr = Hex (cr_h cr)"

record 'w writer =
  cw_w :: 'w
  cw_h :: digest
  cw_n :: int

definition NewWriter :: "'w \<Rightarrow> 'w writer" where
  "NewWriter w = \<lparr>cw_w = w, cw_h = New, cw_n = 0\<rparr>"

definition Write :: "(bytes \<Rightarrow> 'w \<Rightarrow> (nat \<times> 'e option) \<times> 'w) \<Rightarrow> bytes \<Rightarrow> 'w writer \<Rightarrow> (nat \<times> 'e option) \<times> 'w writer" where
  "Write write_inner p cw =
     (let ((n, err), w') = write_inner p (cw_w cw);
          cw1 = cw\<lparr>cw_w := w'\<rparr>
      in ((n, err),
          if n > 0
          then cw1\<lparr>cw_h := digest_write (cw_h cw1) (take n p), cw_n := wrap64 (cw_n cw1 + int n)\<rparr>
          else cw1))"

definition Writer_Sum :: "'w writer \<Rightarrow> string" where
  "Writer_Sum cw = Hex (cw_h cw)"

section \<open>Hashing piece by piece\<close>

lemma absorb_pending: "absorb hs bs = (hs', x) \<Longrightarrow> length x < 64 \<and> (\<exists>pre. bs = pre @ x)"
proof (induction hs bs rule: absorb.induct)
  case (1 hs bs)
  show ?case
  proof (cases "length bs < 64")
    case True
    then show ?thesis using 1(2) by (simp add: absorb.simps)
  next
    case False
    then have "absorb (sha256_block hs (take 64 bs)) (drop 64 bs) = (hs', x)"
      using 1(2) absorb.simps [of hs bs] by simp
    from 1(1) [OF False this] obtain pre where "length x < 64" "drop 64 bs = pre @ x" by blast
    then have "bs = (take 64 bs @ pre) @ x" by (metis append.assoc append_take_drop_id)
    with \<open>length x < 64\<close> show ?thesis by blast
  qed
qed

lemma absorb_append: "absorb hs bs = (hs1, x) \<Longrightarrow> absorb hs (bs @ p) = absorb hs1 (x @ p)"
proof (induction hs bs rule: absorb.induct)
  case (1 hs bs)
  show ?case
  proof (cases "length bs < 64")
    case True
    then show ?thesis using 1(2) by (simp add: absorb.simps [of hs bs])
  next
    case False
    then have "absorb (sha256_block hs (take 64 bs)) (drop 64 bs) = (hs1, x)"
      using 1(2) absorb.simps [of hs bs] by simp
    from 1(1) [OF False this] show ?thesis
      using False by (simp add: absorb.simps [of hs "bs @ p"])
  qed
qed

lemma digest_write_append: "digest_write (digest_write d p) q = digest_write d (p @ q)"
  by (simp add: digest_write_def split_beta absorb_append [OF prod.collapse [symmetric], symmetric])

lemma digest_write_foldl: "foldl digest_write (digest_write d p) ps = digest_write d (p @ concat ps)"
  by (induction ps arbitrary: p) (simp_all add: digest_write_append)

lemma digest_write_New_Nil: "digest_write New [] = New"
  by (simp add: digest_write_def New_def absorb.simps)

lemma foldl_digest_New: "foldl digest_write New ps = digest_write New (concat ps)"
  using digest_write_foldl [of New "[]" ps] by (simp add: digest_write_New_Nil)

lemma length_sha256_block: "length hs = 8 \<Longrightarrow> length (sha256_block hs b) = 8"
proof -
  have "length (fold sha256_round kws v) = length v" for kws v
    by (induction kws arbitrary: v) (auto simp: sha256_round_def Let_def split: list.splits)
  then show "length hs = 8 \<Longrightarrow> ?thesis" by (simp add: sha256_block_def Let_def)
qed

lemma length_absorb: "length hs = 8 \<Longrightarrow> length (fst (absorb hs bs)) = 8"
proof (induction hs bs rule: absorb.induct)
  case (1 hs bs)
  then show ?case by (simp add: absorb.simps [of hs bs] length_sha256_block)
qed

lemma digest_sum_length: "length (digest_sum (digest_write New b)) = 32"
proof -
  have "length (dg_h (digest_write New b)) = 8"
    by (simp add: digest_write_def split_beta New_def length_absorb sha256_init_def)
  then have "length (dg_h (digest_write (digest_write New b) p)) = 8" for p
    by (simp add: digest_write_def [of "digest_write New b"] split_beta length_absorb)
  then show ?thesis
    by (simp add: digest_sum_def length_concat o_def word_bytes_def sum_list_triv)
qed

lemma hex_digit_in: "n < 16 \<Longrightarrow> hex_digit n \<in> set ''0123456789abcdef''"
  unfolding hex_digit_def by (rule nth_mem) simp

lemma hex_encode_Valid: "length bs = 32 \<Longrightarrow> Valid (hex_encode bs)"
proof -
  define H where "H = set ''0123456789abcdef''"
  have "unat (b :: byte) div 16 < 16" for b using unsigned_less [of b, where ?'a = nat] by simp
  then have "hex_digit (unat b div 16) \<in> H \<and> hex_digit (unat b mod 16) \<in> H" for b :: byte
    unfolding H_def using hex_digit_in by simp
  then have "list_all (\<lambda>c. c \<in> H) (hex_encode bs)"
    by (auto simp: hex_encode_def list_all_iff)
  then show "length bs = 32 \<Longrightarrow> Valid (hex_encode bs)"
    unfolding H_def by (simp add: Valid_def hex_encode_def length_concat o_def sum_list_triv)
qed

text \<open>
  C31 (streaming digests). A hasher that is fed a stream in any pieces shows the digest of the whole
  stream, and that digest is a well-formed checksum.
\<close>

theorem hex_streaming: "Hex (foldl digest_write New ps) = Sum (concat ps) \<and> Valid (Sum (concat ps))"
  by (simp add: Hex_def Sum_def Sum256_def foldl_digest_New hex_encode_Valid digest_sum_length)

section \<open>Comparing\<close>

lemma byte_of_inj: "byte_of a = byte_of b \<longleftrightarrow> a = b"
proof -
  have "unat (byte_of c) = of_char c" for c
    by (simp add: byte_of_def unat_of_nat)
  then show ?thesis by (metis of_char_eq_iff)
qed

lemma foldl_or_0:
  "foldl (\<lambda>v p. v OR f p) (a :: byte) ps = 0 \<longleftrightarrow> a = 0 \<and> (\<forall>p \<in> set ps. f p = 0)"
  by (induction ps arbitrary: a) (auto simp: or_eq_0_iff)

lemma Equal_iff: "Equal a b \<longleftrightarrow> a = b"
proof (cases "length a = length b")
  case True
  then have "Equal a b \<longleftrightarrow> (\<forall>p \<in> set (zip a b). byte_of (fst p) XOR byte_of (snd p) = 0)"
    by (simp add: Equal_def ConstantTimeCompare_def foldl_or_0)
  also have "\<dots> \<longleftrightarrow> (\<forall>p \<in> set (zip a b). fst p = snd p)"
    using byte_of_inj by (metis xor_self_eq word_bitwise_m1_simps(1) bit.xor_left_self xor.right_neutral)
  also have "\<dots> \<longleftrightarrow> a = b" using True by (induction a b rule: list_induct2) auto
  finally show ?thesis .
qed (auto simp: Equal_def)

text \<open>
  Integrity verdicts. Verification accepts a computed digest exactly when it is the expected
  one; otherwise it returns the mismatch error that names the subject and both digests. In
  particular the stored checksum of some bytes accepts those bytes.
\<close>

lemma verify_verdict:
  "Verify subject expected actual = (if expected = actual then None else Some (ErrMismatch subject expected actual))
   \<and> Verify subject (Sum bs) (Hex (digest_write New bs)) = None"
  by (simp add: Verify_def Equal_iff Hex_def Sum_def Sum256_def)

section \<open>The tee reader\<close>

text \<open>The bytes a client gets from successive calls with the given buffer sizes.\<close>

fun read_sizes :: "(nat \<Rightarrow> 'r \<Rightarrow> (bytes \<times> 'e option) \<times> 'r) \<Rightarrow> nat list \<Rightarrow> 'r reader \<Rightarrow> bytes \<times> 'r reader" where
  "read_sizes rd [] cr = ([], cr)"
| "read_sizes rd (n # ns) cr =
     (let ((bs, err), cr1) = Read rd n cr; (rest, cr2) = read_sizes rd ns cr1 in (bs @ rest, cr2))"

lemma Read_effect:
  assumes "Read rd n cr = ((bs, err), cr1)" "cr_h cr = digest_write New seen" "cr_n cr = wrap64 (int (length seen))"
  shows "cr_h cr1 = digest_write New (seen @ bs) \<and> cr_n cr1 = wrap64 (int (length (seen @ bs)))"
proof -
  obtain r' where r: "rd n (cr_r cr) = ((bs, err), r')"
    using assms(1) by (auto simp: Read_def Let_def split: prod.splits)
  have "wrap64 (wrap64 (int (length seen)) + int (length bs)) = wrap64 (int (length seen) + int (length bs))"
    by (simp add: wrap64_def mod_simps algebra_simps)
  with assms r show ?thesis
    by (cases bs) (auto simp: Read_def digest_write_append add.left_commute)
qed

lemma read_sizes_effect:
  "read_sizes rd ns cr = (bs, cr') \<Longrightarrow> cr_h cr = digest_write New seen \<Longrightarrow> cr_n cr = wrap64 (int (length seen)) \<Longrightarrow>
   cr_h cr' = digest_write New (seen @ bs) \<and> cr_n cr' = wrap64 (int (length (seen @ bs)))"
proof (induction ns arbitrary: cr bs seen cr')
  case (Cons n ns)
  obtain b err cr1 where 1: "Read rd n cr = ((b, err), cr1)" by (metis surj_pair)
  obtain rest cr2 where 2: "read_sizes rd ns cr1 = (rest, cr2)" by (metis surj_pair)
  have "bs = b @ rest" "cr' = cr2" using Cons.prems(1) 1 2 by auto
  with Cons.IH [OF 2, of "seen @ b"] Read_effect [OF 1 Cons.prems(2,3)] show ?case by simp
qed simp

text \<open>
  The tee reader. Whatever the wrapped stream delivers and however the client reads it, the
  digest of a Reader is the checksum of exactly the bytes the client got, and \<^verbatim>\<open>BytesRead\<close> is their
  number (as an \<^verbatim>\<open>int64\<close>).
\<close>

lemma reader_digest:
  "let (bs, cr) = read_sizes rd ns (NewReader r)
   in Reader_Sum cr = Sum bs \<and> cr_n cr = wrap64 (int (length bs))"
proof -
  obtain bs cr where eq: "read_sizes rd ns (NewReader r) = (bs, cr)" by (metis surj_pair)
  have "cr_h cr = digest_write New ([] @ bs) \<and> cr_n cr = wrap64 (int (length ([] @ bs)))"
    by (rule read_sizes_effect [OF eq]) (simp_all add: NewReader_def digest_write_New_Nil wrap64_def)
  then show ?thesis
    by (simp add: eq Reader_Sum_def Hex_def Sum_def Sum256_def)
qed

end
