(* ===== verification/Go_Strings.thy ===== *)
theory Go_Strings
  imports Flex_Prelude
begin

text \<open>
  The text functions of Go's standard library that the components use: decimal numbers
  (\<^verbatim>\<open>strconv\<close>, \<^verbatim>\<open>fmt\<close>'s \<^verbatim>\<open>%d\<close>) and the helpers of package \<^verbatim>\<open>strings\<close>. A number that is printed
  is read back as the same number.
\<close>

section \<open>Trimming and searching\<close>

text \<open>\<^verbatim>\<open>strings.Trim\<close> with a set of characters.\<close>

definition trim :: "(char \<Rightarrow> bool) \<Rightarrow> string \<Rightarrow> string" where
  "trim P s = rev (dropWhile P (rev (dropWhile P s)))"

text \<open>White space below 128, as \<^verbatim>\<open>strings.TrimSpace\<close> sees it in ASCII text.\<close>

definition is_space :: "char \<Rightarrow> bool" where
  "is_space c \<longleftrightarrow> c \<in> {CHR '' '', CHR 0x09, CHR 0x0A, CHR 0x0B, CHR 0x0C, CHR 0x0D}"

definition HasPrefix :: "string \<Rightarrow> string \<Rightarrow> bool" where
  "HasPrefix s p \<longleftrightarrow> take (length p) s = p"

definition HasSuffix :: "string \<Rightarrow> string \<Rightarrow> bool" where
  "HasSuffix s p \<longleftrightarrow> length p \<le> length s \<and> drop (length s - length p) s = p"

definition TrimPrefix :: "string \<Rightarrow> string \<Rightarrow> string" where
  "TrimPrefix s p = (if HasPrefix s p then drop (length p) s else s)"

definition contains_char :: "string \<Rightarrow> char \<Rightarrow> bool" where
  "contains_char s c \<longleftrightarrow> list_ex (\<lambda>x. x = c) s"

text \<open>\<^verbatim>\<open>strings.Cut\<close> and \<^verbatim>\<open>strings.IndexByte\<close> for one character.\<close>

definition Cut :: "string \<Rightarrow> char \<Rightarrow> (string \<times> string) option" where
  "Cut s c = (if contains_char s c
     then Some (takeWhile (\<lambda>x. x \<noteq> c) s, tl (dropWhile (\<lambda>x. x \<noteq> c) s)) else None)"

lemma HasPrefix_iff: "HasPrefix s p \<longleftrightarrow> (\<exists>t. s = p @ t)"
  unfolding HasPrefix_def by (metis append_eq_conv_conj append_take_drop_id)

lemma HasPrefix_append [simp]: "HasPrefix (p @ t) p"
  by (simp add: HasPrefix_def)

lemma trim_append: "list_all P a \<Longrightarrow> list_all P b \<Longrightarrow> s = [] \<or> (\<not> P (hd s) \<and> \<not> P (last s)) \<Longrightarrow> trim P (a @ s @ b) = s"
proof -
  assume a: "list_all P a" and b: "list_all P b" and s: "s = [] \<or> (\<not> P (hd s) \<and> \<not> P (last s))"
  have drop: "dropWhile P (xs @ ys) = dropWhile P ys" if "list_all P xs" for xs ys
    using that by (induction xs) auto
  show ?thesis
  proof (cases "s = []")
    case True
    then show ?thesis using a b drop [of a b] drop [of b "[]"] by (auto simp: trim_def dest: set_dropWhileD)
  next
    case False
    then have "dropWhile P (a @ s @ b) = s @ b" using a s by (simp add: drop) (cases s; simp)
    moreover have "dropWhile P (rev (s @ b)) = rev s"
      using False b s drop [of "rev b" "rev s"] by (simp add: list_all_iff dropWhile_eq_self_iff hd_rev)
    ultimately show ?thesis by (simp add: trim_def)
  qed
qed

lemma trim_id: "s = [] \<or> (\<not> P (hd s) \<and> \<not> P (last s)) \<Longrightarrow> trim P s = s"
  using trim_append [of P "[]" "[]" s] by simp

lemma Cut_append: "\<not> contains_char a c \<Longrightarrow> Cut (a @ c # b) c = Some (a, b)"
  by (induction a) (auto simp: Cut_def contains_char_def)

lemma Cut_None: "Cut s c = None \<longleftrightarrow> \<not> contains_char s c"
  by (simp add: Cut_def)

section \<open>Decimal numbers\<close>

definition digit_char :: "nat \<Rightarrow> char" where
  "digit_char d = char_of (48 + d)"

definition is_digit :: "char \<Rightarrow> bool" where
  "is_digit c \<longleftrightarrow> 48 \<le> (of_char c :: nat) \<and> (of_char c :: nat) \<le> 57"

definition digit_value :: "char \<Rightarrow> nat" where
  "digit_value c = of_char c - 48"

fun decimal :: "nat \<Rightarrow> string" where
  "decimal n = (if n < 10 then [digit_char n] else decimal (n div 10) @ [digit_char (n mod 10)])"

declare decimal.simps [simp del]

definition decimal_int :: "int \<Rightarrow> string" where
  "decimal_int i = (if i < 0 then CHR ''-'' # decimal (nat (- i)) else decimal (nat i))"

definition digits_value :: "string \<Rightarrow> nat" where
  "digits_value s = foldl (\<lambda>v c. 10 * v + digit_value c) 0 s"

text \<open>\<^verbatim>\<open>strconv.ParseInt(s, 10, bits)\<close>: an optional sign, at least one digit, and a value in range.\<close>

definition ParseInt :: "nat \<Rightarrow> string \<Rightarrow> int option" where
  "ParseInt bits s =
     (let (neg, ds) = (case s of [] \<Rightarrow> (False, []) | c # cs \<Rightarrow>
            if c = CHR ''-'' then (True, cs) else if c = CHR ''+'' then (False, cs) else (False, s));
          v = (if neg then - int (digits_value ds) else int (digits_value ds))
      in if ds = [] \<or> \<not> list_all is_digit ds then None
         else if - (2 ^ (bits - 1)) \<le> v \<and> v < 2 ^ (bits - 1) then Some v else None)"

lemma digit_char_props:
  assumes "d < 10"
  shows "is_digit (digit_char d)" "digit_value (digit_char d) = d"
    "digit_char d \<noteq> CHR ''-''" "digit_char d \<noteq> CHR ''+''"
proof -
  have v: "(of_char (digit_char d) :: nat) = 48 + d" using assms by (simp add: digit_char_def)
  then show "is_digit (digit_char d)" "digit_value (digit_char d) = d"
    using assms by (simp_all add: is_digit_def digit_value_def)
  show "digit_char d \<noteq> CHR ''-''" "digit_char d \<noteq> CHR ''+''" using v by auto
qed

lemma digits_value_snoc: "digits_value (s @ [c]) = 10 * digits_value s + digit_value c"
  by (simp add: digits_value_def)

lemma decimal_value: "digits_value (decimal n) = n"
proof (induction n rule: decimal.induct)
  case (1 n)
  show ?case
  proof (cases "n < 10")
    case True
    then show ?thesis by (simp add: decimal.simps [of n] digits_value_def digit_char_props)
  next
    case False
    then show ?thesis using 1 by (simp add: decimal.simps [of n] digits_value_snoc digit_char_props)
  qed
qed

lemma decimal_digits: "list_all is_digit (decimal n) \<and> decimal n \<noteq> []"
proof (induction n rule: decimal.induct)
  case (1 n)
  show ?case
    using 1 by (cases "n < 10") (simp_all add: decimal.simps [of n] digit_char_props)
qed

lemma decimal_no_sign: "\<exists>c cs. decimal n = c # cs \<and> c \<noteq> CHR ''-'' \<and> c \<noteq> CHR ''+''"
  using decimal_digits [of n] by (cases "decimal n") (auto simp: is_digit_def)

lemma decimal_inj: "decimal m = decimal n \<Longrightarrow> m = n"
  using decimal_value by metis

lemma decimal_no_char: "\<not> is_digit c \<Longrightarrow> \<not> contains_char (decimal n) c"
  using decimal_digits [of n] by (auto simp: contains_char_def list_all_iff list_ex_iff)

text \<open>Reading back what \<^verbatim>\<open>%d\<close> prints.\<close>

lemma minus_power_le: "0 \<le> i \<Longrightarrow> - ((2 :: int) ^ (bits - 1)) \<le> i"
  by (rule order_trans [of _ 0]) simp_all

lemma minus_less_power: "0 \<le> i \<Longrightarrow> - i < (2 :: int) ^ (bits - 1)"
  by (rule le_less_trans [of _ 0]) simp_all

lemma ParseInt_decimal: "int n < 2 ^ (bits - 1) \<Longrightarrow> ParseInt bits (decimal n) = Some (int n)"
proof -
  assume "int n < 2 ^ (bits - 1)"
  obtain c cs where c: "decimal n = c # cs" "c \<noteq> CHR ''-''" "c \<noteq> CHR ''+''" using decimal_no_sign by blast
  then show "ParseInt bits (decimal n) = Some (int n)"
    using decimal_digits [of n] decimal_value [of n] \<open>int n < _\<close> minus_power_le [of "int n" bits]
    by (simp add: ParseInt_def Let_def)
qed

lemma ParseInt_negative: "int n \<le> 2 ^ (bits - 1) \<Longrightarrow> ParseInt bits (CHR ''-'' # decimal n) = Some (- int n)"
  using decimal_digits [of n] decimal_value [of n] minus_less_power [of "int n" bits]
  by (simp add: ParseInt_def Let_def)

lemma ParseInt_decimal_int:
  assumes "- (2 ^ (bits - 1)) \<le> i" "i < 2 ^ (bits - 1)"
  shows "ParseInt bits (decimal_int i) = Some i"
proof (cases "i < 0")
  case True
  then show ?thesis using assms ParseInt_negative [of "nat (- i)" bits] by (simp add: decimal_int_def)
next
  case False
  then show ?thesis using assms ParseInt_decimal [of "nat i" bits] by (simp add: decimal_int_def)
qed

lemma ParseInt_bounds: "ParseInt bits s = Some v \<Longrightarrow> - (2 ^ (bits - 1)) \<le> v \<and> v < 2 ^ (bits - 1)"
  by (auto simp: ParseInt_def Let_def split: prod.splits if_splits)

end
