(* ===== verification/Metadata_Multipart.thy ===== *)
theory Metadata_Multipart
  imports Metadata_Objects Checksum Go_Strings "HOL-Library.Multiset"
begin

text \<open>
  \<^verbatim>\<open>internal/metadata/multipart.go\<close>: multipart sessions. Parts are uploaded independently; completing
  the session re-parents their chunks to one new object version and renumbers them, without moving
  a byte.

  The lemmas show that every method keeps the three invariants of the store, and the properties
  that the assembled object is the concatenation of the parts in part order.
\<close>

section \<open>Types\<close>

record MultipartUpload =
  mu_ID :: uuid
  mu_Bucket :: string
  mu_Key :: string
  mu_State :: multipart_state
  mu_ChunkSize :: int
  mu_ContentType :: string
  mu_ObjectID :: "uuid option"
  mu_CreatedAt :: time
  mu_UpdatedAt :: time

record Part =
  Part_ID :: uuid
  Part_UploadID :: uuid
  Part_PartNumber :: int
  Part_State :: part_state
  Part_SizeBytes :: int
  Part_ChunkCount :: int
  Part_ETag :: string
  Part_CreatedAt :: time

record CompletedPartRef =
  ref_PartNumber :: int
  ref_ETag :: string

definition scan_upload :: "upload_row \<Rightarrow> MultipartUpload" where
  "scan_upload u = \<lparr>mu_ID = u_id u, mu_Bucket = u_bucket u, mu_Key = u_key u, mu_State = u_state u,
     mu_ChunkSize = u_chunk_size u, mu_ContentType = u_content_type u, mu_ObjectID = u_object_id u,
     mu_CreatedAt = u_created u, mu_UpdatedAt = u_updated u\<rparr>"

definition scan_part :: "part_row \<Rightarrow> Part" where
  "scan_part p = \<lparr>Part_ID = p_id p, Part_UploadID = p_upload_id p, Part_PartNumber = p_number p,
     Part_State = p_state p, Part_SizeBytes = p_size p, Part_ChunkCount = p_chunk_count p,
     Part_ETag = nullString (p_etag p), Part_CreatedAt = p_created p\<rparr>"

section \<open>Sessions and parts\<close>

definition CreateMultipartUpload ::
  "string \<Rightarrow> string \<Rightarrow> string \<Rightarrow> int \<Rightarrow> uuid \<Rightarrow> time \<Rightarrow> db \<Rightarrow> (db_error + MultipartUpload) \<times> db"
where
  "CreateMultipartUpload bucket key contentType chunkSize newID now = inTx (\<lambda>db.
     let u = \<lparr>u_id = newID, u_bucket = bucket, u_key = key, u_state = MultipartInProgress,
              u_chunk_size = chunkSize, u_content_type = contentType, u_object_id = None,
              u_created = now, u_updated = now, u_completed = None\<rparr>
     in if chunkSize \<le> 0 then Inl CheckViolation
        else if sql_exists (\<lambda>x. u_id x = newID) (multipart_uploads db) then Inl UniqueViolation
        else Inr (scan_upload u, db\<lparr>multipart_uploads := multipart_uploads db @ [u]\<rparr>))"

definition GetMultipartUpload :: "uuid \<Rightarrow> db \<Rightarrow> db_error + MultipartUpload" where
  "GetMultipartUpload uid db =
     (case find (\<lambda>u. u_id u = uid) (multipart_uploads db) of
        None \<Rightarrow> Inl ErrNotFound | Some u \<Rightarrow> Inr (scan_upload u))"

definition orphanPartChunks :: "uuid \<Rightarrow> time \<Rightarrow> db \<Rightarrow> db" where
  "orphanPartChunks partID now db =
     (let db1 = queue_replica_deletions (\<lambda>c. c_part_id c = Some partID) now db
      in db1\<lparr>chunks := sql_update (\<lambda>c. c_part_id c = Some partID)
               (\<lambda>c. c\<lparr>c_state := ChunkOrphaned\<rparr>) (chunks db1)\<rparr>)"

definition fail_part :: "time \<Rightarrow> part_row \<Rightarrow> part_row" where
  "fail_part now p = p\<lparr>p_state := PartFailed, p_updated := now\<rparr>"

definition new_part :: "uuid \<Rightarrow> uuid \<Rightarrow> int \<Rightarrow> time \<Rightarrow> part_row" where
  "new_part i uploadID partNumber now =
     \<lparr>p_id = i, p_upload_id = uploadID, p_number = partNumber, p_state = PartUploading, p_size = 0,
      p_chunk_count = 0, p_etag = None, p_created = now, p_updated = now, p_completed = None\<rparr>"

definition BeginPart :: "uuid \<Rightarrow> int \<Rightarrow> uuid \<Rightarrow> time \<Rightarrow> db \<Rightarrow> (db_error + Part) \<times> db" where
  "BeginPart uploadID partNumber newID now db =
     (if partNumber < 1 \<or> partNumber > 10000 then (Inl ErrConflict, db)
      else inTx (\<lambda>db.
        case find (\<lambda>u. u_id u = uploadID) (multipart_uploads db) of
          None \<Rightarrow> Inl ErrNotFound
        | Some u \<Rightarrow>
            if u_state u \<noteq> MultipartInProgress then Inl ErrConflict
            else
              let P = (\<lambda>p. p_upload_id p = uploadID \<and> p_number p = partNumber \<and> p_state p \<noteq> PartFailed);
                  priorIDs = map p_id (filter P (multipart_parts db));
                  db1 = fold (\<lambda>pid. orphanPartChunks pid now) priorIDs
                          (db\<lparr>multipart_parts := sql_update P (fail_part now) (multipart_parts db)\<rparr>);
                  part = new_part newID uploadID partNumber now
              in if sql_exists (\<lambda>p. p_id p = newID) (multipart_parts db1) then Inl UniqueViolation
                 else Inr (scan_part part,
                   db1\<lparr>multipart_parts := multipart_parts db1 @ [part],
                       multipart_uploads := sql_update (\<lambda>u. u_id u = uploadID)
                         (\<lambda>u. u\<lparr>u_updated := now\<rparr>) (multipart_uploads db1)\<rparr>)) db)"

definition chunks_of_part :: "uuid \<Rightarrow> chunk_row list \<Rightarrow> chunk_row list" where
  "chunks_of_part pid cs = filter (\<lambda>c. c_part_id c = Some pid) cs"

definition CompletePart :: "uuid \<Rightarrow> int \<Rightarrow> int \<Rightarrow> string \<Rightarrow> time \<Rightarrow> db \<Rightarrow> (db_error + unit) \<times> db" where
  "CompletePart partID sizeBytes chunkCount etag now = inTx (\<lambda>db.
     case find (\<lambda>p. p_id p = partID) (multipart_parts db) of
       None \<Rightarrow> Inl ErrNotFound
     | Some p \<Rightarrow>
         if p_state p \<noteq> PartUploading then Inl ErrConflict
         else
           let total = int (length (chunks_of_part partID (chunks db)));
               committed = int (sql_count (\<lambda>c. c_state c = ChunkCommitted) (chunks_of_part partID (chunks db)))
           in if total \<noteq> chunkCount \<or> committed \<noteq> chunkCount then Inl ErrDurabilityNotMet
              else if sizeBytes < 0 \<or> chunkCount < 0 then Inl CheckViolation
              else if sql_exists (\<lambda>p'. p_upload_id p' = p_upload_id p \<and> p_number p' = p_number p
                                      \<and> p_state p' = PartComplete) (multipart_parts db)
              then Inl UniqueViolation
              else Inr ((), db\<lparr>multipart_parts := sql_update (\<lambda>p. p_id p = partID)
                     (\<lambda>p. p\<lparr>p_state := PartComplete, p_size := sizeBytes, p_chunk_count := chunkCount,
                            p_etag := Some etag, p_completed := Some now, p_updated := now\<rparr>)
                     (multipart_parts db)\<rparr>))"

definition complete_parts :: "uuid \<Rightarrow> db \<Rightarrow> part_row list" where
  "complete_parts uploadID db = sort_key p_number
     (filter (\<lambda>p. p_upload_id p = uploadID \<and> p_state p = PartComplete) (multipart_parts db))"

definition ListParts :: "uuid \<Rightarrow> db \<Rightarrow> Part list" where
  "ListParts uploadID db = map scan_part (complete_parts uploadID db)"

section \<open>Completing a session\<close>

definition trim_quotes :: "string \<Rightarrow> string" where
  "trim_quotes = trim (\<lambda>c. c = CHR 0x22)"

definition MultipartETag :: "string list \<Rightarrow> string" where
  "MultipartETag partETags =
     Hex (foldl digest_write New (map (\<lambda>e. map byte_of (trim_quotes e)) partETags))
       @ ''-'' @ decimal (length partETags)"

text \<open>The client's manifest must name the completed parts, in order, with their ETags if given.\<close>

definition manifest_matches :: "CompletedPartRef list \<Rightarrow> part_row list \<Rightarrow> bool" where
  "manifest_matches expected parts \<longleftrightarrow> length expected = length parts
     \<and> list_all2 (\<lambda>want got. ref_PartNumber want = p_number got
          \<and> (ref_ETag want = '''' \<or> trim_quotes (ref_ETag want) = nullString (p_etag got))) expected parts"

text \<open>
  The chunks that become the object's: the COMMITTED chunks of the COMPLETE parts, ordered by part
  number and then by index. The statement numbers them from 0 in that order.
\<close>

definition part_number_of :: "db \<Rightarrow> chunk_row \<Rightarrow> int" where
  "part_number_of db c = (case find (\<lambda>p. Some (p_id p) = c_part_id c) (multipart_parts db) of
     None \<Rightarrow> 0 | Some p \<Rightarrow> p_number p)"

definition assembled :: "uuid \<Rightarrow> db \<Rightarrow> chunk_row list" where
  "assembled uploadID db = sort_key (\<lambda>c. (part_number_of db c, c_index c))
     (filter (\<lambda>c. c_state c = ChunkCommitted
        \<and> c_part_id c \<in> Some ` p_id ` set (filter (\<lambda>p. p_upload_id p = uploadID \<and> p_state p = PartComplete)
                                              (multipart_parts db)))
       (chunks db))"

definition position :: "'a \<Rightarrow> 'a list \<Rightarrow> int" where
  "position x xs = int (length (takeWhile (\<lambda>y. y \<noteq> x) xs))"

definition reparent :: "uuid \<Rightarrow> uuid \<Rightarrow> db \<Rightarrow> int \<times> db" where
  "reparent objectID uploadID db =
     (let renum = map c_id (assembled uploadID db)
      in (int (length renum),
          db\<lparr>chunks := sql_update (\<lambda>c. c_id c \<in> set renum)
               (\<lambda>c. c\<lparr>c_object_id := Some objectID, c_part_id := None, c_index := position (c_id c) renum\<rparr>)
               (chunks db)\<rparr>))"

definition orphan_leftovers :: "uuid \<Rightarrow> time \<Rightarrow> db \<Rightarrow> db" where
  "orphan_leftovers uploadID now db =
     (let db1 = enqueuePartChunkDeletions uploadID now db
      in db1\<lparr>chunks := sql_update
             (\<lambda>c. c_part_id c \<in> Some ` p_id ` set (filter (\<lambda>p. p_upload_id p = uploadID) (multipart_parts db1)))
             (\<lambda>c. c\<lparr>c_state := ChunkOrphaned\<rparr>) (chunks db1)\<rparr>)"

definition CompleteMultipartUpload ::
  "uuid \<Rightarrow> CompletedPartRef list \<Rightarrow> uuid \<Rightarrow> time \<Rightarrow> db \<Rightarrow> (db_error + Object) \<times> db"
where
  "CompleteMultipartUpload uploadID expected newID now = inTx (\<lambda>db.
     case find (\<lambda>u. u_id u = uploadID) (multipart_uploads db) of
       None \<Rightarrow> Inl ErrNotFound
     | Some u \<Rightarrow>
         if u_state u \<noteq> MultipartInProgress then Inl ErrConflict
         else
           let parts = complete_parts uploadID db;
               inFlight = sql_count (\<lambda>p. p_upload_id p = uploadID \<and> p_state p = PartUploading) (multipart_parts db)
           in if expected = [] \<and> inFlight > 0 then Inl ErrConflict
              else if parts = [] then Inl ErrConflict
              else if expected \<noteq> [] \<and> \<not> manifest_matches expected parts then Inl ErrConflict
              else
                let totalSize = foldl (\<lambda>a p. wrap64 (a + p_size p)) 0 parts;
                    totalChunks = foldl (\<lambda>a p. wrap32 (a + p_chunk_count p)) 0 parts;
                    etag = MultipartETag (map (\<lambda>p. nullString (p_etag p)) parts);
                    version = next_version (u_bucket u) (u_key u) db
                in (case insert_object (new_object newID (u_bucket u) (u_key u) version (u_chunk_size u)
                                          (u_content_type u) now) db of
                      Inl e \<Rightarrow> Inl e
                    | Inr db1 \<Rightarrow>
                        let (n, db2) = reparent newID uploadID db1
                        in if n \<noteq> totalChunks then Inl ErrConflict
                           else (case finalise_object newID totalSize totalChunks etag now
                                        (supersedeCurrentVersion (u_bucket u) (u_key u) newID now db2) of
                                   Inl e \<Rightarrow> Inl e
                                 | Inr (obj, db3) \<Rightarrow>
                                     let db4 = orphan_leftovers uploadID now db3
                                     in Inr (obj, db4\<lparr>multipart_uploads := sql_update (\<lambda>u. u_id u = uploadID)
                                          (\<lambda>u. u\<lparr>u_state := MultipartCompleted, u_object_id := Some newID,
                                                 u_completed := Some now, u_updated := now\<rparr>)
                                          (multipart_uploads db4)\<rparr>))))"

section \<open>Aborting a session\<close>

definition AbortMultipartUpload :: "uuid \<Rightarrow> time \<Rightarrow> db \<Rightarrow> (db_error + unit) \<times> db" where
  "AbortMultipartUpload uploadID now = inTx (\<lambda>db.
     let P = (\<lambda>u. u_id u = uploadID \<and> u_state u \<in> {MultipartInProgress, MultipartCompleting})
     in if sql_count P (multipart_uploads db) = 0
        then (if sql_exists (\<lambda>u. u_id u = uploadID) (multipart_uploads db) then Inr ((), db) else Inl ErrNotFound)
        else Inr ((), orphan_leftovers uploadID now
               (db\<lparr>multipart_uploads := sql_update P (\<lambda>u. u\<lparr>u_state := MultipartAborted, u_updated := now\<rparr>)
                      (multipart_uploads db),
                   multipart_parts := sql_update (\<lambda>p. p_upload_id p = uploadID \<and> p_state p \<noteq> PartFailed)
                      (fail_part now) (multipart_parts db)\<rparr>)))"

text \<open>The reaper aborts the quiet sessions one transaction after another and stops at the first error.\<close>

fun abort_each :: "uuid list \<Rightarrow> time \<Rightarrow> int \<Rightarrow> db \<Rightarrow> (int \<times> db_error option) \<times> db" where
  "abort_each [] now n db = ((n, None), db)"
| "abort_each (i # ids) now n db =
     (case AbortMultipartUpload i now db of
        (Inl e, db1) \<Rightarrow> ((n, Some e), db1)
      | (Inr _, db1) \<Rightarrow> abort_each ids now (n + 1) db1)"

definition ReapStaleMultipartUploads :: "duration \<Rightarrow> int \<Rightarrow> time \<Rightarrow> db \<Rightarrow> (int \<times> db_error option) \<times> db" where
  "ReapStaleMultipartUploads olderThan limit now db =
     (let ids = map u_id (sql_limit limit (sort_key u_updated
            (filter (\<lambda>u. u_state u = MultipartInProgress \<and> u_updated u < now - olderThan) (multipart_uploads db))))
      in abort_each ids now 0 db)"

section \<open>The invariants\<close>

lemma sql_update_cong: "(\<And>r. r \<in> set rows \<Longrightarrow> P r \<longleftrightarrow> Q r) \<Longrightarrow> sql_update P f rows = sql_update Q f rows"
  by (simp add: sql_update_def)

lemma wf_part_unique:
  "wf_db db \<Longrightarrow> p \<in> set (multipart_parts db) \<Longrightarrow> p' \<in> set (multipart_parts db) \<Longrightarrow> p_id p = p_id p' \<Longrightarrow> p = p'"
  by (auto simp: wf_db_def parts_ok_def intro: distinct_map_unique)

lemma wf_part_number_unique:
  "wf_db db \<Longrightarrow> p \<in> set (multipart_parts db) \<Longrightarrow> p' \<in> set (multipart_parts db) \<Longrightarrow> p_state p \<noteq> PartFailed \<Longrightarrow>
   p_state p' \<noteq> PartFailed \<Longrightarrow> p_upload_id p = p_upload_id p' \<Longrightarrow> p_number p = p_number p' \<Longrightarrow> p = p'"
  using distinct_map_unique [of "\<lambda>p. (p_upload_id p, p_number p)"
      "filter (\<lambda>p. p_state p \<noteq> PartFailed) (multipart_parts db)" p p']
  by (auto simp: wf_db_def parts_ok_def)

lemma wf_upload_unique:
  "wf_db db \<Longrightarrow> u \<in> set (multipart_uploads db) \<Longrightarrow> u' \<in> set (multipart_uploads db) \<Longrightarrow> u_id u = u_id u' \<Longrightarrow> u = u'"
  by (auto simp: wf_db_def uploads_ok_def intro: distinct_map_unique)

lemma wf_chunk_owner:
  "wf_db db \<Longrightarrow> c \<in> set (chunks db) \<Longrightarrow> (c_object_id c = None) \<noteq> (c_part_id c = None)"
  by (auto simp: wf_db_def positions_ok_def)

lemma orphan_part_frame [simp]:
  "objects (orphanPartChunks pid now db) = objects db"
  "storage_nodes (orphanPartChunks pid now db) = storage_nodes db"
  "multipart_uploads (orphanPartChunks pid now db) = multipart_uploads db"
  "multipart_parts (orphanPartChunks pid now db) = multipart_parts db"
  by (simp_all add: orphanPartChunks_def Let_def)

lemma enqueue_part_frame [simp]:
  "objects (enqueuePartChunkDeletions uid now db) = objects db"
  "storage_nodes (enqueuePartChunkDeletions uid now db) = storage_nodes db"
  "multipart_uploads (enqueuePartChunkDeletions uid now db) = multipart_uploads db"
  "multipart_parts (enqueuePartChunkDeletions uid now db) = multipart_parts db"
  by (simp_all add: enqueuePartChunkDeletions_def)

lemma orphan_leftovers_frame [simp]:
  "objects (orphan_leftovers uid now db) = objects db"
  "storage_nodes (orphan_leftovers uid now db) = storage_nodes db"
  "multipart_uploads (orphan_leftovers uid now db) = multipart_uploads db"
  "multipart_parts (orphan_leftovers uid now db) = multipart_parts db"
  by (simp_all add: orphan_leftovers_def Let_def)

lemma wf_orphan_part [wf_intros]: "wf_db db \<Longrightarrow> wf_db (orphanPartChunks pid now db)"
  by (auto simp: orphanPartChunks_def Let_def intro!: wf_update_chunks wf_queue_replica_deletions)

lemma wf_orphan_leftovers [wf_intros]: "wf_db db \<Longrightarrow> wf_db (orphan_leftovers uid now db)"
  by (auto simp: orphan_leftovers_def Let_def intro!: wf_update_chunks wf_enqueue)

lemma tracked_orphan_part [track_intros]: "deletions_tracked db \<Longrightarrow> deletions_tracked (orphanPartChunks pid now db)"
  by (simp add: orphanPartChunks_def Let_def tracked_queue_replica_deletions)

lemma tracked_orphan_leftovers [track_intros]:
  "deletions_tracked db \<Longrightarrow> deletions_tracked (orphan_leftovers uid now db)"
  by (simp add: orphan_leftovers_def Let_def tracked_enqueue)

text \<open>Orphaning chunks of parts never touches a chunk of an object.\<close>

lemma owned_update_in:
  assumes "\<And>c. c \<in> set cs \<Longrightarrow> P c \<Longrightarrow> c_object_id c \<noteq> Some oid \<and> c_object_id (f c) \<noteq> Some oid"
  shows "owned (sql_update P f cs) oid = owned cs oid"
  using assms by (induction cs) (auto simp: owned_def chunks_of_object_def sql_update_def)

lemma owned_orphan_parts:
  assumes "wf_db db" "\<And>c. P c \<Longrightarrow> c_part_id c \<noteq> None"
  shows "owned (sql_update P (\<lambda>c. c\<lparr>c_state := ChunkOrphaned\<rparr>) (chunks db)) oid = owned (chunks db) oid"
  using assms wf_chunk_owner by (intro owned_update_in) fastforce

lemma full_orphan_part:
  assumes "wf_db db" "completed_full db"
  shows "completed_full (orphanPartChunks pid now db)"
proof -
  let ?db1 = "queue_replica_deletions (\<lambda>c. c_part_id c = Some pid) now db"
  have wf1: "wf_db ?db1" using assms(1) by (rule wf_queue_replica_deletions)
  have full1: "completed_full ?db1" by (rule completed_full_frame [OF assms(2)]) simp_all
  show ?thesis
    unfolding orphanPartChunks_def Let_def
    by (rule complete_ok_owned [where own = "owned (chunks ?db1)"])
       (use full1 owned_orphan_parts [OF wf1, of "\<lambda>c. c_part_id c = Some pid"] in auto)
qed

lemma full_orphan_leftovers:
  assumes "wf_db db" "completed_full db"
  shows "completed_full (orphan_leftovers uid now db)"
proof -
  let ?db1 = "enqueuePartChunkDeletions uid now db"
  let ?P = "\<lambda>c. c_part_id c \<in> Some ` p_id ` set (filter (\<lambda>p. p_upload_id p = uid) (multipart_parts ?db1))"
  have wf1: "wf_db ?db1" using assms(1) by (rule wf_enqueue)
  have full1: "completed_full ?db1" by (rule completed_full_frame [OF assms(2)]) simp_all
  have own: "owned (sql_update ?P (\<lambda>c. c\<lparr>c_state := ChunkOrphaned\<rparr>) (chunks ?db1)) oid = owned (chunks ?db1) oid" for oid
    by (rule owned_orphan_parts [OF wf1]) auto
  show ?thesis
    unfolding orphan_leftovers_def Let_def
    by (rule complete_ok_owned [where own = "owned (chunks ?db1)"]) (use full1 own in auto)
qed

subsection \<open>Sessions and parts\<close>

lemma wf_CreateMultipartUpload [wf_intros]: "wf_db db \<Longrightarrow> wf_db (snd (CreateMultipartUpload b k ct cs i now db))"
  unfolding CreateMultipartUpload_def
  by (rule inTx_wf) (auto simp: Let_def bex_key_iff split: if_splits intro!: wf_insert_upload)

lemma tracked_CreateMultipartUpload [track_intros]:
  "deletions_tracked db \<Longrightarrow> deletions_tracked (snd (CreateMultipartUpload b k ct cs i now db))"
  unfolding CreateMultipartUpload_def by (rule inTx_tracked) (auto simp: Let_def split: if_splits)

lemma full_CreateMultipartUpload [full_intros]:
  "completed_full db \<Longrightarrow> completed_full (snd (CreateMultipartUpload b k ct cs i now db))"
  unfolding CreateMultipartUpload_def by (rule inTx_full) (auto simp: Let_def split: if_splits)

text \<open>What a successful BeginPart does: the superseded parts are failed and orphaned first.\<close>

definition superseded_db :: "uuid \<Rightarrow> int \<Rightarrow> time \<Rightarrow> db \<Rightarrow> db" where
  "superseded_db uploadID partNumber now db =
     (let P = (\<lambda>p. p_upload_id p = uploadID \<and> p_number p = partNumber \<and> p_state p \<noteq> PartFailed)
      in fold (\<lambda>pid. orphanPartChunks pid now) (map p_id (filter P (multipart_parts db)))
           (db\<lparr>multipart_parts := sql_update P (fail_part now) (multipart_parts db)\<rparr>))"

lemma BeginPart_success:
  assumes "BeginPart uploadID partNumber newID now db = (Inr part, db')"
  obtains "uploadID \<in> upload_ids db" "newID \<notin> part_ids (superseded_db uploadID partNumber now db)"
    "1 \<le> partNumber" "partNumber \<le> 10000" "part = scan_part (new_part newID uploadID partNumber now)"
    "db' = (superseded_db uploadID partNumber now db)\<lparr>
       multipart_parts := multipart_parts (superseded_db uploadID partNumber now db)
         @ [new_part newID uploadID partNumber now],
       multipart_uploads := sql_update (\<lambda>u. u_id u = uploadID) (\<lambda>u. u\<lparr>u_updated := now\<rparr>) (multipart_uploads db)\<rparr>"
proof -
  have uploads: "multipart_uploads (superseded_db uploadID partNumber now db) = multipart_uploads db"
    by (simp add: superseded_db_def Let_def fold_frame [where T = multipart_uploads])
  show ?thesis
    using assms that uploads
    by (auto simp: BeginPart_def inTx_def superseded_db_def Let_def bex_key_iff
        split: option.splits if_splits sum.splits dest!: find_Some_in)
qed

lemma BeginPart_error: "BeginPart uploadID partNumber newID now db = (Inl e, db') \<Longrightarrow> db' = db"
  by (auto simp: BeginPart_def inTx_def Let_def split: option.splits if_splits sum.splits)

lemma superseded_parts:
  "multipart_parts (superseded_db uploadID partNumber now db) =
     sql_update (\<lambda>p. p_upload_id p = uploadID \<and> p_number p = partNumber \<and> p_state p \<noteq> PartFailed)
       (fail_part now) (multipart_parts db)"
  "multipart_uploads (superseded_db uploadID partNumber now db) = multipart_uploads db"
  by (simp_all add: superseded_db_def Let_def fold_frame [where T = multipart_parts]
      fold_frame [where T = multipart_uploads])

lemma superseded_invariants:
  assumes "wf_db db"
  shows "wf_db (superseded_db uploadID partNumber now db)"
    and "deletions_tracked db \<Longrightarrow> deletions_tracked (superseded_db uploadID partNumber now db)"
    and "completed_full db \<Longrightarrow> completed_full (superseded_db uploadID partNumber now db)"
proof -
  let ?P = "\<lambda>p. p_upload_id p = uploadID \<and> p_number p = partNumber \<and> p_state p \<noteq> PartFailed"
  let ?db1 = "db\<lparr>multipart_parts := sql_update ?P (fail_part now) (multipart_parts db)\<rparr>"
  have wf1: "wf_db ?db1" using assms by (intro wf_update_parts) (auto simp: fail_part_def)
  then show "wf_db (superseded_db uploadID partNumber now db)"
    unfolding superseded_db_def Let_def by (rule fold_inv [where I = wf_db]) (rule wf_orphan_part)
  show "deletions_tracked (superseded_db uploadID partNumber now db)" if "deletions_tracked db"
    unfolding superseded_db_def Let_def
    by (rule fold_inv [where I = deletions_tracked]) (use that in \<open>auto intro: tracked_orphan_part\<close>)
  have "wf_db (fold (\<lambda>pid. orphanPartChunks pid now) ids ?db1)
      \<and> completed_full (fold (\<lambda>pid. orphanPartChunks pid now) ids ?db1)" if "completed_full db" for ids
  proof (rule fold_inv [where I = "\<lambda>db. wf_db db \<and> completed_full db"])
    show "wf_db ?db1 \<and> completed_full ?db1" using that wf1 by simp
    show "wf_db (orphanPartChunks pid now s) \<and> completed_full (orphanPartChunks pid now s)"
      if "wf_db s \<and> completed_full s" for pid s
      using that wf_orphan_part full_orphan_part by blast
  qed
  then show "completed_full (superseded_db uploadID partNumber now db)" if "completed_full db"
    using that unfolding superseded_db_def Let_def by blast
qed

lemma wf_BeginPart [wf_intros]:
  assumes "wf_db db"
  shows "wf_db (snd (BeginPart uploadID partNumber newID now db))"
proof (cases "BeginPart uploadID partNumber newID now db")
  case (Pair res db')
  show ?thesis
  proof (cases res)
    case (Inl e)
    then show ?thesis using Pair assms by (auto dest!: BeginPart_error)
  next
    case (Inr part)
    let ?db1 = "superseded_db uploadID partNumber now db"
    let ?db2 = "?db1\<lparr>multipart_parts := multipart_parts ?db1 @ [new_part newID uploadID partNumber now]\<rparr>"
    have eq: "BeginPart uploadID partNumber newID now db = (Inr part, db')" using Pair Inr by simp
    have u: "uploadID \<in> upload_ids db" and new: "newID \<notin> part_ids ?db1"
      and db': "db' = ?db2\<lparr>multipart_uploads :=
         sql_update (\<lambda>u. u_id u = uploadID) (\<lambda>u. u\<lparr>u_updated := now\<rparr>) (multipart_uploads ?db2)\<rparr>"
      using eq by (auto elim!: BeginPart_success simp: superseded_parts)
    have "wf_db ?db1" by (rule superseded_invariants(1) [OF assms])
    then have "wf_db ?db2"
    proof (rule wf_insert_part)
      fix p assume "p \<in> set (multipart_parts ?db1)"
        "p_upload_id p = p_upload_id (new_part newID uploadID partNumber now)"
        "p_number p = p_number (new_part newID uploadID partNumber now)"
      then have "p \<in> set (sql_update (\<lambda>p. p_upload_id p = uploadID \<and> p_number p = partNumber \<and> p_state p \<noteq> PartFailed)
          (fail_part now) (multipart_parts db))" "p_upload_id p = uploadID" "p_number p = partNumber"
        by (simp_all add: superseded_parts new_part_def)
      then show "p_state p = PartFailed"
        by (elim in_sql_updateE) (simp_all add: fail_part_def)
    next
      show "p_upload_id (new_part newID uploadID partNumber now) \<in> upload_ids ?db1"
        using u by (simp add: superseded_parts(2) new_part_def)
      show "p_id (new_part newID uploadID partNumber now) \<notin> part_ids ?db1" using new by (simp add: new_part_def)
    qed
    then have "wf_db db'" unfolding db' by (rule wf_update_uploads) simp
    then show ?thesis using Pair by simp
  qed
qed

lemma BeginPart_keeps:
  assumes "wf_db db"
  shows tracked_BeginPart: "deletions_tracked db \<Longrightarrow> deletions_tracked (snd (BeginPart uploadID partNumber newID now db))"
    and full_BeginPart: "completed_full db \<Longrightarrow> completed_full (snd (BeginPart uploadID partNumber newID now db))"
proof -
  obtain res db' where eq: "BeginPart uploadID partNumber newID now db = (res, db')" by (metis surj_pair)
  have "db' = db \<or> (objects db' = objects (superseded_db uploadID partNumber now db)
      \<and> chunks db' = chunks (superseded_db uploadID partNumber now db)
      \<and> chunk_replicas db' = chunk_replicas (superseded_db uploadID partNumber now db)
      \<and> chunk_deletions db' = chunk_deletions (superseded_db uploadID partNumber now db))"
  proof (cases res)
    case (Inl e)
    then show ?thesis using eq BeginPart_error by blast
  next
    case (Inr part)
    then have "BeginPart uploadID partNumber newID now db = (Inr part, db')" using eq by simp
    then show ?thesis by (rule BeginPart_success) simp
  qed
  then show "deletions_tracked db \<Longrightarrow> deletions_tracked (snd (BeginPart uploadID partNumber newID now db))"
    "completed_full db \<Longrightarrow> completed_full (snd (BeginPart uploadID partNumber newID now db))"
    using superseded_invariants(2,3) [OF assms, of uploadID partNumber now] eq by auto
qed

lemma CompletePart_success:
  assumes "CompletePart partID s n e now db = (Inr x, db')"
  obtains p where "find (\<lambda>p. p_id p = partID) (multipart_parts db) = Some p" "p_state p = PartUploading"
    "int (length (chunks_of_part partID (chunks db))) = n"
    "int (sql_count (\<lambda>c. c_state c = ChunkCommitted) (chunks_of_part partID (chunks db))) = n"
    "db' = db\<lparr>multipart_parts := sql_update (\<lambda>p. p_id p = partID)
         (\<lambda>p. p\<lparr>p_state := PartComplete, p_size := s, p_chunk_count := n,
                p_etag := Some e, p_completed := Some now, p_updated := now\<rparr>) (multipart_parts db)\<rparr>"
  using assms by (auto simp: CompletePart_def inTx_def Let_def split: option.splits if_splits sum.splits)

lemma CompletePart_error: "CompletePart partID s n e now db = (Inl err, db') \<Longrightarrow> db' = db"
  by (auto simp: CompletePart_def inTx_def Let_def split: option.splits if_splits sum.splits)

lemma wf_CompletePart [wf_intros]:
  assumes "wf_db db"
  shows "wf_db (snd (CompletePart partID s n e now db))"
proof (cases "CompletePart partID s n e now db")
  case (Pair res db')
  show ?thesis
  proof (cases res)
    case (Inl err)
    then show ?thesis using Pair assms by (auto dest!: CompletePart_error)
  next
    case (Inr x)
    let ?f = "\<lambda>p. p\<lparr>p_state := PartComplete, p_size := s, p_chunk_count := n,
                p_etag := Some e, p_completed := Some now, p_updated := now\<rparr>"
    obtain p where p: "find (\<lambda>p. p_id p = partID) (multipart_parts db) = Some p" "p_state p = PartUploading"
      and db': "db' = db\<lparr>multipart_parts := sql_update (\<lambda>p. p_id p = partID) ?f (multipart_parts db)\<rparr>"
      using Pair unfolding Inr by (rule CompletePart_success)
    have pin: "p \<in> set (multipart_parts db)" "p_id p = partID" using find_Some_in [OF p(1)] by auto
    have "p_state q = PartUploading" if "q \<in> set (multipart_parts db)" "p_id q = partID" for q
      using wf_part_unique [OF assms that(1) pin(1)] that pin p(2) by simp
    then have "sql_update (\<lambda>p. p_id p = partID) ?f (multipart_parts db)
        = sql_update (\<lambda>p. p_id p = partID \<and> p_state p = PartUploading) ?f (multipart_parts db)"
      by (intro sql_update_cong) blast
    moreover have "wf_db (db\<lparr>multipart_parts := sql_update (\<lambda>p. p_id p = partID \<and> p_state p = PartUploading) ?f
        (multipart_parts db)\<rparr>)" using assms by (rule wf_update_parts) simp
    ultimately show ?thesis using Pair db' by simp
  qed
qed

lemma CompletePart_frame:
  "chunks (snd (CompletePart partID s n e now db)) = chunks db"
  "objects (snd (CompletePart partID s n e now db)) = objects db"
  "chunk_replicas (snd (CompletePart partID s n e now db)) = chunk_replicas db"
  "chunk_deletions (snd (CompletePart partID s n e now db)) = chunk_deletions db"
  by (auto simp: CompletePart_def inTx_def Let_def split: option.splits if_splits sum.splits)

lemma keeps_CompletePart:
  shows tracked_CompletePart: "deletions_tracked db \<Longrightarrow> deletions_tracked (snd (CompletePart partID s n e now db))"
    and full_CompletePart: "completed_full db \<Longrightarrow> completed_full (snd (CompletePart partID s n e now db))"
  by (simp_all add: CompletePart_frame)

subsection \<open>Aborting\<close>

lemma abort_invariants:
  assumes "wf_db db"
  shows wf_AbortMultipartUpload: "wf_db (snd (AbortMultipartUpload uid now db))"
    and tracked_AbortMultipartUpload: "deletions_tracked db \<Longrightarrow> deletions_tracked (snd (AbortMultipartUpload uid now db))"
    and full_AbortMultipartUpload: "completed_full db \<Longrightarrow> completed_full (snd (AbortMultipartUpload uid now db))"
proof -
  let ?P = "\<lambda>u. u_id u = uid \<and> u_state u \<in> {MultipartInProgress, MultipartCompleting}"
  let ?us = "sql_update ?P (\<lambda>u. u\<lparr>u_state := MultipartAborted, u_updated := now\<rparr>) (multipart_uploads db)"
  let ?ps = "sql_update (\<lambda>p. p_upload_id p = uid \<and> p_state p \<noteq> PartFailed) (fail_part now) (multipart_parts db)"
  let ?db0 = "db\<lparr>multipart_uploads := ?us\<rparr>"
  let ?db1 = "?db0\<lparr>multipart_parts := ?ps\<rparr>"
  have "wf_db ?db0" using assms by (intro wf_update_uploads) auto
  then have "wf_db (?db0\<lparr>multipart_parts := sql_update (\<lambda>p. p_upload_id p = uid \<and> p_state p \<noteq> PartFailed)
      (fail_part now) (multipart_parts ?db0)\<rparr>)"
    by (rule wf_update_parts) (auto simp: fail_part_def)
  then have wf1: "wf_db ?db1" by simp
  have cases: "snd (AbortMultipartUpload uid now db) \<in> {db, orphan_leftovers uid now ?db1}"
    by (simp add: AbortMultipartUpload_def inTx_def Let_def)
  show "wf_db (snd (AbortMultipartUpload uid now db))"
    using cases assms wf_orphan_leftovers [OF wf1, of uid now] by auto
  show "deletions_tracked (snd (AbortMultipartUpload uid now db))" if "deletions_tracked db"
    using cases that tracked_orphan_leftovers [of ?db1 uid now] by auto
  show "completed_full (snd (AbortMultipartUpload uid now db))" if "completed_full db"
    using cases that full_orphan_leftovers [OF wf1, of uid now] by auto
qed

lemma abort_each_keeps:
  assumes "I db" "\<And>i db. I db \<Longrightarrow> I (snd (AbortMultipartUpload i now db))"
  shows "I (snd (abort_each ids now n db))"
  using assms(1)
proof (induction ids arbitrary: n db)
  case (Cons i ids)
  obtain res db1 where "AbortMultipartUpload i now db = (res, db1)" by (metis surj_pair)
  then show ?case using Cons assms(2) [OF Cons.prems, of i] by (cases res) auto
qed simp

lemma reap_multipart_invariants:
  assumes "wf_db db" "deletions_tracked db" "completed_full db"
  shows "wf_db (snd (ReapStaleMultipartUploads olderThan limit now db))
    \<and> deletions_tracked (snd (ReapStaleMultipartUploads olderThan limit now db))
    \<and> completed_full (snd (ReapStaleMultipartUploads olderThan limit now db))"
  unfolding ReapStaleMultipartUploads_def Let_def
  by (rule abort_each_keeps [where I = "\<lambda>db. wf_db db \<and> deletions_tracked db \<and> completed_full db"])
     (use assms abort_invariants in blast)+

section \<open>Assembling\<close>

lemma set_assembled:
  "set (assembled uid db) = {c \<in> set (chunks db). c_state c = ChunkCommitted
     \<and> (\<exists>p \<in> set (multipart_parts db). p_upload_id p = uid \<and> p_state p = PartComplete \<and> c_part_id c = Some (p_id p))}"
  by (auto simp: assembled_def)

lemma distinct_assembled: "wf_db db \<Longrightarrow> distinct (map c_id (assembled uid db))"
  by (auto simp: assembled_def wf_db_def positions_ok_def distinct_map inj_on_def)

lemma position_nth: "distinct xs \<Longrightarrow> i < length xs \<Longrightarrow> position (xs ! i) xs = int i"
proof (induction xs arbitrary: i)
  case (Cons x xs)
  then show ?case by (cases i) (auto simp: position_def)
qed simp

lemma position_inj:
  assumes "x \<in> set xs" "y \<in> set xs" "position x xs = position y xs"
  shows "x = y"
proof -
  have "xs ! length (takeWhile (\<lambda>z. z \<noteq> v) xs) = v" if "v \<in> set xs" for v
    using that by (induction xs) auto
  with assms show ?thesis unfolding position_def by (metis of_nat_eq_iff)
qed

definition move :: "uuid \<Rightarrow> uuid list \<Rightarrow> chunk_row \<Rightarrow> chunk_row" where
  "move oid renum c = c\<lparr>c_object_id := Some oid, c_part_id := None, c_index := position (c_id c) renum\<rparr>"

lemma move_fields [simp]:
  "c_id (move oid renum c) = c_id c" "c_object_id (move oid renum c) = Some oid" "c_part_id (move oid renum c) = None"
  "c_index (move oid renum c) = position (c_id c) renum" "c_state (move oid renum c) = c_state c"
  "c_available (move oid renum c) = c_available c" "c_size (move oid renum c) = c_size c"
  "c_checksum (move oid renum c) = c_checksum c"
  by (simp_all add: move_def)

lemma reparent_eq:
  "reparent oid uid db = (int (length (assembled uid db)),
     db\<lparr>chunks := sql_update (\<lambda>c. c_id c \<in> set (map c_id (assembled uid db)))
          (move oid (map c_id (assembled uid db))) (chunks db)\<rparr>)"
  by (simp add: reparent_def Let_def move_def [abs_def])

lemma wf_reparent:
  assumes wf: "wf_db db" and oid: "oid \<in> object_ids db"
    and fresh: "\<And>c. c \<in> set (chunks db) \<Longrightarrow> c_object_id c \<noteq> Some oid"
  shows "wf_db (snd (reparent oid uid db))"
proof -
  let ?ids = "map c_id (assembled uid db)"
  let ?cs = "sql_update (\<lambda>c. c_id c \<in> set ?ids) (move oid ?ids) (chunks db)"
  let ?key = "\<lambda>c. (c_object_id c, c_part_id c, c_index c)"
  have d: "distinct (map c_id (chunks db))" "distinct (map ?key (chunks db))"
    using wf by (auto simp: wf_db_def positions_ok_def)
  have ids: "distinct (map c_id ?cs)" using d by simp
  have inj: "x = y" if xy: "x \<in> set ?cs" "y \<in> set ?cs" and key: "?key x = ?key y" for x y
  proof -
    obtain x0 where x0: "x0 \<in> set (chunks db)" "x = (if c_id x0 \<in> set ?ids then move oid ?ids x0 else x0)"
      using xy(1) by (auto simp: set_sql_update)
    obtain y0 where y0: "y0 \<in> set (chunks db)" "y = (if c_id y0 \<in> set ?ids then move oid ?ids y0 else y0)"
      using xy(2) by (auto simp: set_sql_update)
    have same: "c_id x0 \<in> set ?ids \<longleftrightarrow> c_id y0 \<in> set ?ids"
      using key x0 y0 fresh [OF x0(1)] fresh [OF y0(1)] by (auto split: if_splits)
    have "x0 = y0"
    proof (cases "c_id x0 \<in> set ?ids")
      case True
      then have "position (c_id x0) ?ids = position (c_id y0) ?ids" using same key x0(2) y0(2) by simp
      then have "c_id x0 = c_id y0" using True same by (intro position_inj [of _ ?ids]) auto
      then show ?thesis using distinct_map_unique [OF d(1) x0(1) y0(1)] by simp
    next
      case False
      then have "?key x0 = ?key y0" using same key x0(2) y0(2) by simp
      then show ?thesis using distinct_map_unique [OF d(2) x0(1) y0(1)] by simp
    qed
    then show "x = y" using x0(2) y0(2) by simp
  qed
  have "distinct ?cs" using ids by (simp only: distinct_map)
  then have "distinct (map ?key ?cs)"
    unfolding distinct_map inj_on_def using inj by blast
  then have pos: "positions_ok ?cs"
    using ids wf_chunk_owner [OF wf]
    by (auto simp: positions_ok_def elim!: in_sql_updateE)
  have refs: "chunk_refs_ok (object_ids db) (part_ids db) ?cs"
    unfolding chunk_refs_ok_def using oid wf_chunk_ref [OF wf]
    by (intro conjI subsetI; elim imageE) (fastforce elim!: in_sql_updateE)+
  have cnt: "counters_exact (chunk_replicas db) ?cs"
    using wf_counter [OF wf] by (auto simp: counters_exact_def elim!: in_sql_updateE)
  show ?thesis
    using wf pos refs cnt by (simp add: reparent_eq wf_db_def)
qed

text \<open>The chunks of the new object, in table order and in index order.\<close>

lemma reparent_owned:
  assumes wf: "wf_db db" and fresh: "\<And>c. c \<in> set (chunks db) \<Longrightarrow> c_object_id c \<noteq> Some oid"
  shows "chunks_of_object oid (chunks (snd (reparent oid uid db))) =
      map (move oid (map c_id (assembled uid db))) (filter (\<lambda>c. c \<in> set (assembled uid db)) (chunks db))"
    and "\<And>oid'. oid' \<noteq> oid \<Longrightarrow> owned (chunks (snd (reparent oid uid db))) oid' = owned (chunks db) oid'"
proof -
  let ?ids = "map c_id (assembled uid db)"
  have mem: "c_id c \<in> set ?ids \<longleftrightarrow> c \<in> set (assembled uid db)" if "c \<in> set (chunks db)" for c
    using that wf_chunk_unique [OF wf] set_assembled [of uid db] by auto
  have "filter (\<lambda>c. c_object_id c = Some oid) (sql_update (\<lambda>c. c_id c \<in> set ?ids) (move oid ?ids) cs)
      = map (move oid ?ids) (filter (\<lambda>c. c \<in> set (assembled uid db)) cs)" if "set cs \<subseteq> set (chunks db)" for cs
    using that mem fresh by (induction cs) (auto simp: sql_update_def)
  then show "chunks_of_object oid (chunks (snd (reparent oid uid db))) =
      map (move oid ?ids) (filter (\<lambda>c. c \<in> set (assembled uid db)) (chunks db))"
    by (simp add: reparent_eq chunks_of_object_def)
  show "owned (chunks (snd (reparent oid uid db))) oid' = owned (chunks db) oid'" if "oid' \<noteq> oid" for oid'
  proof -
    have "c_object_id c = None" if "c \<in> set (chunks db)" "c_id c \<in> set ?ids" for c
      using that mem wf_chunk_owner [OF wf that(1)] by (auto simp: set_assembled)
    then show ?thesis using that by (simp add: reparent_eq) (rule owned_update_in; simp)
  qed
qed

lemma reparent_layout:
  assumes wf: "wf_db db" and fresh: "\<And>c. c \<in> set (chunks db) \<Longrightarrow> c_object_id c \<noteq> Some oid"
  shows "sort_key c_index (chunks_of_object oid (chunks (snd (reparent oid uid db)))) =
      map (move oid (map c_id (assembled uid db))) (assembled uid db)" (is "?l = ?r")
proof -
  let ?ids = "map c_id (assembled uid db)"
  have "map c_index ?r = map (\<lambda>x. position x ?ids) ?ids" by simp
  also have "\<dots> = map int [0..<length ?ids]"
    using position_nth [OF distinct_assembled [OF wf, of uid]] by (intro nth_equalityI) auto
  finally have idx: "map c_index ?r = map int [0..<length ?ids]" .
  have "sorted (map c_index ?r)" "distinct (map c_index ?r)"
    unfolding idx by (simp_all add: sorted_map distinct_map inj_on_def)
  then have r: "sorted (map c_index ?r)" "inj_on c_index (set ?r)" by (simp_all only: distinct_map)
  have m: "mset (chunks_of_object oid (chunks (snd (reparent oid uid db)))) = mset ?r"
  proof -
    have "distinct (chunks db)" using wf by (auto simp: wf_db_def positions_ok_def distinct_map)
    then have "mset (filter (\<lambda>c. c \<in> set (assembled uid db)) (chunks db)) = mset (assembled uid db)"
      using distinct_assembled [OF wf, of uid] set_assembled [of uid db]
      by (intro set_eq_iff_mset_eq_distinct [THEN iffD1]) (auto simp: distinct_map)
    moreover have "chunks_of_object oid (chunks (snd (reparent oid uid db))) =
      map (move oid ?ids) (filter (\<lambda>c. c \<in> set (assembled uid db)) (chunks db))"
      using wf fresh by (rule reparent_owned(1))
    ultimately show ?thesis by simp
  qed
  have "inj_on c_index (set (chunks_of_object oid (chunks (snd (reparent oid uid db)))))"
    using r(2) mset_eq_setD [OF m] by (simp only:)
  then show ?thesis using m r(1) by (intro sort_key_inj_key_eq)
qed

subsection \<open>The transaction\<close>

abbreviation total_size :: "part_row list \<Rightarrow> int" where
  "total_size parts \<equiv> foldl (\<lambda>a p. wrap64 (a + p_size p)) 0 parts"

abbreviation total_chunks :: "part_row list \<Rightarrow> int" where
  "total_chunks parts \<equiv> foldl (\<lambda>a p. wrap32 (a + p_chunk_count p)) 0 parts"

abbreviation parts_etag :: "part_row list \<Rightarrow> string" where
  "parts_etag parts \<equiv> MultipartETag (map (\<lambda>p. nullString (p_etag p)) parts)"

abbreviation complete_session :: "uuid \<Rightarrow> uuid \<Rightarrow> time \<Rightarrow> db \<Rightarrow> db" where
  "complete_session uid newID now db \<equiv> db\<lparr>multipart_uploads := sql_update (\<lambda>u. u_id u = uid)
     (\<lambda>u. u\<lparr>u_state := MultipartCompleted, u_object_id := Some newID,
            u_completed := Some now, u_updated := now\<rparr>) (multipart_uploads db)\<rparr>"

lemma insert_object_eq:
  "insert_object ob db = Inr db1 \<longleftrightarrow> 0 < o_chunk_size ob \<and> o_id ob \<notin> object_ids db \<and> db1 = db\<lparr>objects := objects db @ [ob]\<rparr>"
  by (auto simp: insert_object_def bex_key_iff)

lemma assembled_insert_object: "assembled uid (db\<lparr>objects := os\<rparr>) = assembled uid db"
  by (simp add: assembled_def part_number_of_def)

lemma CompleteMultipart_success:
  assumes "CompleteMultipartUpload uid expected newID now db = (Inr obj, db')"
  obtains u ob db1 db3 where
    "find (\<lambda>u. u_id u = uid) (multipart_uploads db) = Some u" "u_state u = MultipartInProgress"
    "complete_parts uid db \<noteq> []"
    "expected = [] \<longrightarrow> sql_count (\<lambda>p. p_upload_id p = uid \<and> p_state p = PartUploading) (multipart_parts db) = 0"
    "expected \<noteq> [] \<longrightarrow> manifest_matches expected (complete_parts uid db)"
    "ob = new_object newID (u_bucket u) (u_key u) (next_version (u_bucket u) (u_key u) db) (u_chunk_size u) (u_content_type u) now"
    "newID \<notin> object_ids db" "db1 = db\<lparr>objects := objects db @ [ob]\<rparr>"
    "int (length (assembled uid db)) = total_chunks (complete_parts uid db)"
    "finalise_object newID (total_size (complete_parts uid db)) (total_chunks (complete_parts uid db))
        (parts_etag (complete_parts uid db)) now
        (supersedeCurrentVersion (o_bucket ob) (o_key ob) newID now (snd (reparent newID uid db1))) = Inr (obj, db3)"
    "db' = complete_session uid newID now (orphan_leftovers uid now db3)"
  using assms
  by (auto simp: CompleteMultipartUpload_def inTx_def Let_def reparent_eq insert_object_eq assembled_insert_object
      new_object_def split: option.splits if_splits sum.splits)

lemma CompleteMultipart_error: "CompleteMultipartUpload uid expected newID now db = (Inl e, db') \<Longrightarrow> db' = db"
  by (auto simp: CompleteMultipartUpload_def inTx_def Let_def split: option.splits if_splits sum.splits prod.splits)

text \<open>The intermediate database, in which the new version has all its chunks but is not visible yet.\<close>

lemma staged:
  assumes wf: "wf_db db" and new: "newID \<notin> object_ids db" and ob: "o_id ob = newID" "o_state ob = ObjectUploading"
    and db1: "db1 = db\<lparr>objects := objects db @ [ob]\<rparr>" and db2: "db2 = snd (reparent newID uid db1)"
  shows "wf_db db1" "\<And>c. c \<in> set (chunks db1) \<Longrightarrow> c_object_id c \<noteq> Some newID" "wf_db db2"
    "find (\<lambda>ob. o_id ob = newID) (objects db2) = Some ob"
    "deletions_tracked db \<Longrightarrow> deletions_tracked db2"
    "completed_full db \<Longrightarrow> completed_full db2"
    "chunk_replicas db2 = chunk_replicas db" "multipart_uploads db2 = multipart_uploads db"
    "owned (chunks db2) newID = replicate (length (assembled uid db)) ChunkCommitted"
proof -
  show wf1: "wf_db db1" unfolding db1 using wf new ob by (intro wf_insert_object) auto
  show fresh: "c_object_id c \<noteq> Some newID" if "c \<in> set (chunks db1)" for c
    using that new wf_chunk_ref [OF wf, of c] by (auto simp: db1)
  have wf2: "wf_db (snd (reparent newID uid db1))"
    using wf1 _ fresh by (rule wf_reparent) (simp add: db1 ob)
  then show "wf_db db2" by (simp add: db2)
  have objs: "objects db2 = objects db @ [ob]" by (simp add: db2 reparent_eq db1)
  have "find (\<lambda>ob. o_id ob = newID) (xs @ [ob]) = Some ob" if "newID \<notin> o_id ` set xs" for xs
    using that ob by (induction xs) auto
  then show "find (\<lambda>ob. o_id ob = newID) (objects db2) = Some ob"
    using new unfolding objs by blast
  show "deletions_tracked db2" if "deletions_tracked db" using that by (simp add: db2 reparent_eq db1)
  show "chunk_replicas db2 = chunk_replicas db" "multipart_uploads db2 = multipart_uploads db"
    by (simp_all add: db2 reparent_eq db1)
  have own: "owned (chunks db2) oid' = owned (chunks db) oid'" if "oid' \<noteq> newID" for oid'
    using reparent_owned(2) [OF wf1, of newID oid' uid] fresh that by (simp add: db2 db1)
  show "completed_full db2" if full: "completed_full db"
    unfolding complete_ok_def objs
  proof (intro ballI impI)
    fix x assume "x \<in> set (objects db @ [ob])" "o_state x = ObjectComplete"
    then have x: "x \<in> set (objects db)" using ob by auto
    then have "o_id x \<noteq> newID" using new by force
    then show "o_chunk_count x = int (length (owned (chunks db2) (o_id x)))
        \<and> set (owned (chunks db2) (o_id x)) \<subseteq> {ChunkCommitted}"
      using complete_okD [OF full x \<open>o_state x = ObjectComplete\<close>] own by simp
  qed
  have "chunks_of_object newID (chunks db2) =
      map (move newID (map c_id (assembled uid db))) (filter (\<lambda>c. c \<in> set (assembled uid db)) (chunks db))"
    using reparent_owned(1) [OF wf1, of newID uid] fresh by (simp add: db2 db1 assembled_insert_object)
  moreover have "length (filter (\<lambda>c. c \<in> set (assembled uid db)) (chunks db)) = length (assembled uid db)"
  proof -
    have "distinct (chunks db)" using wf by (auto simp: wf_db_def positions_ok_def distinct_map)
    then have "length (filter (\<lambda>c. c \<in> set (assembled uid db)) (chunks db))
        = card {c \<in> set (chunks db). c \<in> set (assembled uid db)}" by (metis distinct_card distinct_filter set_filter)
    also have "{c \<in> set (chunks db). c \<in> set (assembled uid db)} = set (assembled uid db)" by (auto simp: set_assembled)
    also have "card \<dots> = length (assembled uid db)"
      using distinct_assembled [OF wf, of uid] by (simp add: distinct_map distinct_card)
    finally show ?thesis .
  qed
  moreover have "map c_state (filter (\<lambda>c. c \<in> set (assembled uid db)) cs)
      = replicate (length (filter (\<lambda>c. c \<in> set (assembled uid db)) cs)) ChunkCommitted" for cs
    by (induction cs) (auto simp: set_assembled)
  ultimately show "owned (chunks db2) newID = replicate (length (assembled uid db)) ChunkCommitted"
    by (simp add: owned_def o_def)
qed

lemma full_publish:
  assumes wf: "wf_db db" and full: "completed_full db"
    and fin: "finalise_object oid s n e now (supersedeCurrentVersion b k oid now db) = Inr (obj, db')"
    and own: "owned (chunks db) oid = replicate m ChunkCommitted" "n = int m"
  shows "completed_full db'"
proof -
  let ?db1 = "supersedeCurrentVersion b k oid now db"
  have same: "owned (chunks ?db1) = owned (chunks db)" by (rule owned_cong) simp
  have "completed_full ?db1"
    using full unfolding same supersede_objects by (auto intro!: complete_ok_update)
  then show ?thesis
    unfolding finalise_object_eq [OF fin] by (intro full_complete) (auto simp: same own)
qed

lemma publish_id:
  assumes wf: "wf_db db" and f: "find (\<lambda>ob. o_id ob = oid) (objects db) = Some ob"
    and fin: "finalise_object oid s n e now (supersedeCurrentVersion (o_bucket ob) (o_key ob) oid now db) = Inr (obj, db')"
  shows "oid \<in> object_ids db'"
proof -
  have "object_ids db' = object_ids db"
    unfolding publish_rows(2) [OF wf f fin] set_map image_image by (rule image_cong) auto
  then show ?thesis using find_Some_in [OF f] by auto
qed

lemma complete_multipart_invariants:
  assumes wf: "wf_db db"
  shows wf_CompleteMultipartUpload: "wf_db (snd (CompleteMultipartUpload uid expected newID now db))"
    and tracked_CompleteMultipartUpload:
      "deletions_tracked db \<Longrightarrow> deletions_tracked (snd (CompleteMultipartUpload uid expected newID now db))"
    and full_CompleteMultipartUpload:
      "completed_full db \<Longrightarrow> completed_full (snd (CompleteMultipartUpload uid expected newID now db))"
proof -
  obtain res db' where eq: "CompleteMultipartUpload uid expected newID now db = (res, db')" by (metis surj_pair)
  have "wf_db db' \<and> (deletions_tracked db \<longrightarrow> deletions_tracked db') \<and> (completed_full db \<longrightarrow> completed_full db')"
  proof (cases res)
    case (Inl e)
    then have "db' = db" using eq CompleteMultipart_error by blast
    then show ?thesis using wf by simp
  next
    case (Inr obj)
    with eq have "CompleteMultipartUpload uid expected newID now db = (Inr obj, db')" by simp
    then obtain u ob db1 db3 where
      "find (\<lambda>u. u_id u = uid) (multipart_uploads db) = Some u" and "u_state u = MultipartInProgress"
      and "complete_parts uid db \<noteq> []"
      and "expected = [] \<longrightarrow> sql_count (\<lambda>p. p_upload_id p = uid \<and> p_state p = PartUploading) (multipart_parts db) = 0"
      and "expected \<noteq> [] \<longrightarrow> manifest_matches expected (complete_parts uid db)"
      and ob: "ob = new_object newID (u_bucket u) (u_key u) (next_version (u_bucket u) (u_key u) db) (u_chunk_size u) (u_content_type u) now"
      and new: "newID \<notin> object_ids db" and db1: "db1 = db\<lparr>objects := objects db @ [ob]\<rparr>"
      and n: "int (length (assembled uid db)) = total_chunks (complete_parts uid db)"
      and fin: "finalise_object newID (total_size (complete_parts uid db)) (total_chunks (complete_parts uid db))
        (parts_etag (complete_parts uid db)) now
        (supersedeCurrentVersion (o_bucket ob) (o_key ob) newID now (snd (reparent newID uid db1))) = Inr (obj, db3)"
      and db': "db' = complete_session uid newID now (orphan_leftovers uid now db3)"
      by (rule CompleteMultipart_success)
    have o: "o_id ob = newID" "o_state ob = ObjectUploading" by (simp_all add: ob new_object_def)
    note st = staged [where uid = uid, OF wf new o db1 refl]
    have wf3: "wf_db db3" by (rule publish_rows(5) [OF st(3,4) fin])
    then have wf4: "wf_db (orphan_leftovers uid now db3)" by (rule wf_orphan_leftovers)
    have "newID \<in> object_ids db3" by (rule publish_id [OF st(3,4) fin])
    then have "wf_db db'" unfolding db' by (intro wf_update_uploads [OF wf4]) auto
    moreover have "deletions_tracked db'" if "deletions_tracked db"
    proof -
      have "deletions_tracked db3" by (rule publish_rows(6) [OF st(3,4) fin st(5) [OF that]])
      then show ?thesis unfolding db' using tracked_orphan_leftovers [of db3 uid now] by simp
    qed
    moreover have "completed_full db'" if "completed_full db"
    proof -
      have "completed_full db3" by (rule full_publish [OF st(3) st(6) [OF that] fin st(9) n [symmetric]])
      then show ?thesis unfolding db' using full_orphan_leftovers [OF wf3, of uid now] by simp
    qed
    ultimately show ?thesis by blast
  qed
  then show "wf_db (snd (CompleteMultipartUpload uid expected newID now db))"
    "deletions_tracked db \<Longrightarrow> deletions_tracked (snd (CompleteMultipartUpload uid expected newID now db))"
    "completed_full db \<Longrightarrow> completed_full (snd (CompleteMultipartUpload uid expected newID now db))"
    using eq by auto
qed

subsection \<open>The order of the assembled chunks\<close>

text \<open>The committed chunks of one part, in order.\<close>

definition part_chunks :: "db \<Rightarrow> part_row \<Rightarrow> chunk_row list" where
  "part_chunks db p = sort_key c_index
     (filter (\<lambda>c. c_part_id c = Some (p_id p) \<and> c_state c = ChunkCommitted) (chunks db))"

lemma set_part_chunks:
  "set (part_chunks db p) = {c \<in> set (chunks db). c_part_id c = Some (p_id p) \<and> c_state c = ChunkCommitted}"
  by (simp add: part_chunks_def)

lemma set_complete_parts:
  "set (complete_parts uid db) = {p \<in> set (multipart_parts db). p_upload_id p = uid \<and> p_state p = PartComplete}"
  by (simp add: complete_parts_def)

lemma complete_parts_strict: "wf_db db \<Longrightarrow> sorted_wrt (<) (map p_number (complete_parts uid db))"
proof -
  assume wf: "wf_db db"
  have "distinct (multipart_parts db)" using wf by (auto simp: wf_db_def parts_ok_def distinct_map)
  then have "distinct (map p_number (complete_parts uid db))"
    using wf_part_number_unique [OF wf] by (auto simp: complete_parts_def distinct_map inj_on_def)
  moreover have "sorted (map p_number (complete_parts uid db))" by (simp add: complete_parts_def)
  ultimately show ?thesis by (simp add: strict_sorted_iff)
qed

lemma part_number_of_chunk:
  assumes wf: "wf_db db" and p: "p \<in> set (multipart_parts db)" and c: "c_part_id c = Some (p_id p)"
  shows "part_number_of db c = p_number p"
proof -
  have "distinct (map p_id (multipart_parts db))" using wf by (simp add: wf_db_def parts_ok_def)
  from find_Some_distinct [OF this p] show ?thesis by (simp add: part_number_of_def c)
qed

lemma sorted_pair: "sorted (map k xs) \<Longrightarrow> sorted (map (\<lambda>x. (n :: int, k x)) xs)"
  by (induction xs) (auto simp: less_eq_prod_def)

lemma part_chunks_concat:
  assumes wf: "wf_db db" and "set ps \<subseteq> set (multipart_parts db)" and "sorted_wrt (<) (map p_number ps)"
  shows "sorted (map (\<lambda>c. (part_number_of db c, c_index c)) (concat (map (part_chunks db) ps)))
    \<and> distinct (concat (map (part_chunks db) ps))"
  using assms(2,3)
proof (induction ps)
  case (Cons p ps)
  have d: "distinct (chunks db)" using wf by (auto simp: wf_db_def positions_ok_def distinct_map)
  have num: "part_number_of db c = p_number q" if "q \<in> set (p # ps)" "c \<in> set (part_chunks db q)" for q c
    using that Cons.prems(1) by (intro part_number_of_chunk [OF wf]) (auto simp: set_part_chunks)
  let ?key = "\<lambda>c. (part_number_of db c, c_index c)"
  have lt: "p_number p < p_number q" if "q \<in> set ps" for q using that Cons.prems(2) by simp
  have "map ?key (part_chunks db p) = map (\<lambda>c. (p_number p, c_index c)) (part_chunks db p)" using num [of p] by auto
  moreover have "sorted (map (\<lambda>c. (p_number p, c_index c)) (part_chunks db p))"
    by (rule sorted_pair) (simp add: part_chunks_def)
  ultimately have s1: "sorted (map ?key (part_chunks db p))" by (simp only:)
  have IH: "sorted (map ?key (concat (map (part_chunks db) ps)))" "distinct (concat (map (part_chunks db) ps))"
    using Cons by simp_all
  have before: "part_number_of db x < part_number_of db y"
    if x: "x \<in> set (part_chunks db p)" and y: "y \<in> set (concat (map (part_chunks db) ps))" for x y
  proof -
    obtain q where q: "q \<in> set ps" "y \<in> set (part_chunks db q)" using y by auto
    then show ?thesis using num [of p x] num [of q y] x lt [OF q(1)] by simp
  qed
  then have "\<forall>x \<in> set (map ?key (part_chunks db p)). \<forall>y \<in> set (map ?key (concat (map (part_chunks db) ps))). x \<le> y"
    by (force simp: less_eq_prod_def)
  then have "sorted (map ?key (part_chunks db p @ concat (map (part_chunks db) ps)))"
    using s1 IH(1) unfolding map_append sorted_append by blast
  moreover have "set (part_chunks db p) \<inter> set (concat (map (part_chunks db) ps)) = {}" using before by fastforce
  moreover have "distinct (part_chunks db p)" using d by (simp add: part_chunks_def)
  ultimately show ?case using IH(2) unfolding list.map concat.simps distinct_append by blast
qed simp

lemma assembled_concat:
  assumes wf: "wf_db db"
  shows "assembled uid db = concat (map (part_chunks db) (complete_parts uid db))"
proof -
  let ?ys = "concat (map (part_chunks db) (complete_parts uid db))"
  let ?key = "\<lambda>c. (part_number_of db c, c_index c)"
  have ys: "sorted (map ?key ?ys)" "distinct ?ys"
    using part_chunks_concat [OF wf _ complete_parts_strict [OF wf, of uid]] by (auto simp: set_complete_parts)
  have sets: "set (assembled uid db) = set ?ys"
    by (auto simp: set_assembled set_complete_parts set_part_chunks)
  have inj: "inj_on ?key (set (assembled uid db))"
  proof (rule inj_onI)
    fix c c' assume cc: "c \<in> set (assembled uid db)" "c' \<in> set (assembled uid db)" and key: "?key c = ?key c'"
    obtain p where p: "p \<in> set (multipart_parts db)" "p_upload_id p = uid" "p_state p = PartComplete" "c_part_id c = Some (p_id p)"
      using cc(1) by (auto simp: set_assembled)
    obtain p' where p': "p' \<in> set (multipart_parts db)" "p_upload_id p' = uid" "p_state p' = PartComplete" "c_part_id c' = Some (p_id p')"
      using cc(2) by (auto simp: set_assembled)
    have "p = p'"
      using key part_number_of_chunk [OF wf p(1,4)] part_number_of_chunk [OF wf p'(1,4)] p p'
      by (intro wf_part_number_unique [OF wf p(1) p'(1)]) auto
    then have "(c_object_id c, c_part_id c, c_index c) = (c_object_id c', c_part_id c', c_index c')"
      using key p(4) p'(4) cc wf_chunk_owner [OF wf] by (auto simp: set_assembled) metis+
    moreover have "distinct (map (\<lambda>c. (c_object_id c, c_part_id c, c_index c)) (chunks db))"
      using wf by (simp add: wf_db_def positions_ok_def)
    ultimately show "c = c'" using cc by (auto simp: set_assembled dest: distinct_map_unique)
  qed
  have "distinct (assembled uid db)" using distinct_assembled [OF wf, of uid] by (simp add: distinct_map)
  then have "mset (assembled uid db) = mset ?ys"
    using set_eq_iff_mset_eq_distinct [of "assembled uid db" ?ys] sets ys(2) by blast
  then have "sort_key ?key (assembled uid db) = ?ys" using inj ys(1) by (intro sort_key_inj_key_eq)
  moreover have "sort_key ?key (assembled uid db) = assembled uid db"
    by (rule sort_key_id_if_sorted) (simp add: assembled_def)
  ultimately show ?thesis by simp
qed

text \<open>The view of a chunk that reading depends on, besides its replicas.\<close>

abbreviation chunk_slot :: "chunk_row \<Rightarrow> int \<times> uuid \<times> int \<times> string option" where
  "chunk_slot c \<equiv> (c_index c, c_id c, c_size c, c_checksum c)"

lemma map_insort_key: "map f (insort_key (\<lambda>x. k (f x)) x xs) = insort_key k (f x) (map f xs)"
  by (induction xs) simp_all

lemma map_sort_key: "map f (sort_key (\<lambda>x. k (f x)) xs) = sort_key k (map f xs)"
  by (induction xs) (simp_all add: map_insort_key)

lemma slots_cong:
  assumes "map uncounted cs = map uncounted cs'"
  shows "map chunk_slot (sort_key c_index (chunks_of_object oid cs)) = map chunk_slot (sort_key c_index (chunks_of_object oid cs'))"
proof -
  have "map chunk_slot (sort_key c_index (chunks_of_object oid cs))
      = map chunk_slot (sort_key c_index (chunks_of_object oid (map uncounted cs)))" for cs
  proof -
    have "chunks_of_object oid (map uncounted cs) = map uncounted (chunks_of_object oid cs)"
      by (induction cs) (simp_all add: chunks_of_object_def uncounted_def)
    moreover have "sort_key c_index (map uncounted xs) = map uncounted (sort_key c_index xs)" for xs
      using map_sort_key [of uncounted c_index xs] by (simp add: uncounted_def)
    ultimately show ?thesis by (simp add: o_def uncounted_def)
  qed
  from this [of cs] this [of cs'] assms show ?thesis by simp
qed

subsection \<open>Properties\<close>

lemma chunks_of_object_update_in:
  assumes "\<And>c. c \<in> set cs \<Longrightarrow> P c \<Longrightarrow> c_object_id c \<noteq> Some oid \<and> c_object_id (f c) \<noteq> Some oid"
  shows "chunks_of_object oid (sql_update P f cs) = chunks_of_object oid cs"
  using assms by (induction cs) (auto simp: chunks_of_object_def sql_update_def)

lemma slots_orphan_leftovers:
  assumes wf: "wf_db db"
  shows "map chunk_slot (sort_key c_index (chunks_of_object oid (chunks (orphan_leftovers uid now db))))
    = map chunk_slot (sort_key c_index (chunks_of_object oid (chunks db)))"
proof -
  let ?db1 = "enqueuePartChunkDeletions uid now db"
  have wf1: "wf_db ?db1" using wf by (rule wf_enqueue)
  have "chunks_of_object oid (chunks (orphan_leftovers uid now db)) = chunks_of_object oid (chunks ?db1)"
    unfolding orphan_leftovers_def Let_def
    using wf_chunk_owner [OF wf1] by (simp, intro chunks_of_object_update_in) fastforce
  moreover have "map chunk_slot (sort_key c_index (chunks_of_object oid (chunks ?db1)))
      = map chunk_slot (sort_key c_index (chunks_of_object oid (chunks db)))" by (rule slots_cong) simp
  ultimately show ?thesis by simp
qed

lemma replica_at_orphan_leftovers:
  "replica_at (chunk_replicas (orphan_leftovers uid now db)) cid n =
    (if \<exists>c \<in> set (chunks db). c_part_id c \<in> Some ` p_id ` {p \<in> set (multipart_parts db). p_upload_id p = uid} \<and> c_id c = cid
     then map_option (\<lambda>_. ReplicaDeleting) (replica_at (chunk_replicas db) cid n)
     else replica_at (chunk_replicas db) cid n)"
  by (simp add: orphan_leftovers_def Let_def enqueuePartChunkDeletions_def replica_at_queue_deletions)

lemma moved_slots:
  assumes "distinct (map c_id cs)"
  shows "map chunk_slot (map (move oid (map c_id cs)) cs) = map (\<lambda>(i, c). (int i, c_id c, c_size c, c_checksum c)) (enumerate 0 cs)"
proof (rule nth_equalityI)
  fix i assume "i < length (map chunk_slot (map (move oid (map c_id cs)) cs))"
  then show "map chunk_slot (map (move oid (map c_id cs)) cs) ! i
      = map (\<lambda>(i, c). (int i, c_id c, c_size c, c_checksum c)) (enumerate 0 cs) ! i"
    using position_nth [OF assms, of i] by (simp add: nth_enumerate_eq)
qed simp

lemma moved_replicas:
  assumes wf: "wf_db db2" and cs: "map uncounted (chunks db3) = map uncounted (chunks db2)"
    and c: "c \<in> set (chunks db2)" "c_part_id c = None"
  shows "replica_at (chunk_replicas (orphan_leftovers uid now db3)) (c_id c) n = replica_at (chunk_replicas db3) (c_id c) n"
proof -
  have "c_part_id c3 = None" if c3: "c3 \<in> set (chunks db3)" "c_id c3 = c_id c" for c3
  proof -
    have "uncounted c3 \<in> set (map uncounted (chunks db2))" using c3(1) unfolding cs [symmetric] by simp
    then obtain c2 where c2: "c2 \<in> set (chunks db2)" "uncounted c3 = uncounted c2" by auto
    then have "c_id c2 = c_id c3" "c_part_id c2 = c_part_id c3" by (metis uncounted_def chunk_row.ext_inject chunk_row.surjective chunk_row.update_convs(8))+
    then show ?thesis using wf_chunk_unique [OF wf c2(1) c(1)] c3(2) c(2) by simp
  qed
  then show ?thesis unfolding replica_at_orphan_leftovers by force
qed

text \<open>
  C15 (assembling a multipart upload). A completed multipart upload is what readers of its key see
  from then on. Its chunks are the committed chunks of the completed parts, in the order of the
  parts and of the chunks within a part, numbered from 0 without a gap, with the sizes and
  checksums they had; none of their replicas changed; the size is the sum of the sizes of the
  parts and the chunk count the number of chunks.
\<close>

theorem complete_multipart_assembles:
  assumes wf: "wf_db db" and tr: "deletions_tracked db"
    and eq: "CompleteMultipartUpload uid expected newID now db = (Inr obj, db')"
    and all: "chunks_in_order = concat (map (part_chunks db) (complete_parts uid db))"
  shows "HeadObject (Obj_Bucket obj) (Obj_Key obj) db' = Inr obj \<and> Obj_ID obj = newID
    \<and> map chunk_slot (sort_key c_index (chunks_of_object newID (chunks db')))
        = map (\<lambda>(i, c). (int i, c_id c, c_size c, c_checksum c)) (enumerate 0 chunks_in_order)
    \<and> (\<forall>c \<in> set chunks_in_order. \<forall>n. replica_at (chunk_replicas db') (c_id c) n = replica_at (chunk_replicas db) (c_id c) n)
    \<and> Obj_ChunkCount obj = int (length chunks_in_order)
    \<and> Obj_SizeBytes obj = total_size (complete_parts uid db)"
proof -
  obtain u ob db1 db3 where
      "find (\<lambda>u. u_id u = uid) (multipart_uploads db) = Some u" and "u_state u = MultipartInProgress"
      and "complete_parts uid db \<noteq> []"
      and "expected = [] \<longrightarrow> sql_count (\<lambda>p. p_upload_id p = uid \<and> p_state p = PartUploading) (multipart_parts db) = 0"
      and "expected \<noteq> [] \<longrightarrow> manifest_matches expected (complete_parts uid db)"
      and ob: "ob = new_object newID (u_bucket u) (u_key u) (next_version (u_bucket u) (u_key u) db) (u_chunk_size u) (u_content_type u) now"
      and new: "newID \<notin> object_ids db" and db1: "db1 = db\<lparr>objects := objects db @ [ob]\<rparr>"
      and n: "int (length (assembled uid db)) = total_chunks (complete_parts uid db)"
      and fin: "finalise_object newID (total_size (complete_parts uid db)) (total_chunks (complete_parts uid db))
        (parts_etag (complete_parts uid db)) now
        (supersedeCurrentVersion (o_bucket ob) (o_key ob) newID now (snd (reparent newID uid db1))) = Inr (obj, db3)"
      and db': "db' = complete_session uid newID now (orphan_leftovers uid now db3)"
    using eq by (rule CompleteMultipart_success)
  let ?db2 = "snd (reparent newID uid db1)"
  have o: "o_id ob = newID" "o_state ob = ObjectUploading" by (simp_all add: ob new_object_def)
  note st = staged [where uid = uid, OF wf new o db1 refl]
  note eff = publish_effect(1) [OF st(3) st(5) [OF tr] st(4) o(2) fin]
  note cs3 = publish_rows(4) [OF st(3,4) fin]
  have A: "assembled uid db1 = chunks_in_order" "assembled uid db = chunks_in_order"
    using assembled_concat [OF wf, of uid] by (simp_all add: all db1 assembled_insert_object)
  have "HeadObject (o_bucket ob) (o_key ob) db' = HeadObject (o_bucket ob) (o_key ob) db3"
    by (simp add: HeadObject_def db')
  then have head: "HeadObject (Obj_Bucket obj) (Obj_Key obj) db' = Inr obj" using eff by simp
  have "map chunk_slot (sort_key c_index (chunks_of_object newID (chunks db')))
      = map chunk_slot (sort_key c_index (chunks_of_object newID (chunks db3)))"
    using slots_orphan_leftovers [OF publish_rows(5) [OF st(3,4) fin], of newID uid now] by (simp add: db')
  also have "\<dots> = map chunk_slot (sort_key c_index (chunks_of_object newID (chunks ?db2)))"
    by (rule slots_cong [OF cs3])
  also have "sort_key c_index (chunks_of_object newID (chunks ?db2)) = map (move newID (map c_id chunks_in_order)) chunks_in_order"
    using reparent_layout [OF st(1), of newID uid] st(2) by (simp add: A)
  also have "map chunk_slot \<dots> = map (\<lambda>(i, c). (int i, c_id c, c_size c, c_checksum c)) (enumerate 0 chunks_in_order)"
    using distinct_assembled [OF wf, of uid] by (intro moved_slots) (simp add: A)
  finally have slots: "map chunk_slot (sort_key c_index (chunks_of_object newID (chunks db')))
      = map (\<lambda>(i, c). (int i, c_id c, c_size c, c_checksum c)) (enumerate 0 chunks_in_order)" .
  have "replica_at (chunk_replicas db') (c_id c) m = replica_at (chunk_replicas db) (c_id c) m"
    if c: "c \<in> set chunks_in_order" for c m
  proof -
    let ?c = "move newID (map c_id chunks_in_order) c"
    have "c \<in> set (chunks db1)" using c set_assembled [of uid db1] by (auto simp: A)
    then have "?c \<in> set (chunks ?db2)" using c by (simp add: reparent_eq A) (rule in_sql_updateI(1); simp)
    then show ?thesis
      using moved_replicas [OF st(3) cs3, of ?c uid now m] supersede_keeps_new [OF st(3), of ?c newID _ _ now m]
      by (simp add: db' publish_rows(3) [OF st(3,4) fin] st(7))
  qed
  then show ?thesis using head slots eff n by (simp add: A)
qed

definition ex_mp :: db where
  "ex_mp = ex_db\<lparr>multipart_parts := [(ex_part 4 3 1 PartComplete)\<lparr>p_chunk_count := 1\<rparr>],
     chunks := chunks ex_db @ [(ex_chunk 9 1 ChunkCommitted 0)\<lparr>c_object_id := None, c_part_id := Some 4\<rparr>]\<rparr>"

lemma ex_mp_invariants: "wf_db ex_mp" "deletions_tracked ex_mp"
  by (simp_all add: wf_db_def ex_mp_def ex_defs objects_ok_def uploads_ok_def parts_ok_def positions_ok_def
      chunk_refs_ok_def counters_exact_def replicas_ok_def deletions_ok_def jobs_ok_def recons_ok_def
      available_count_def sql_count_def tracked_def)

text \<open>When nothing stands in its way, completing succeeds.\<close>

lemma finalise_succeeds:
  assumes "oid \<in> object_ids db" "0 \<le> s" "0 \<le> n"
  shows "\<exists>obj db'. finalise_object oid s n e now db = Inr (obj, db')"
proof -
  let ?os = "sql_update (\<lambda>ob. o_id ob = oid) (complete_object s n e now) (objects db)"
  have "oid \<in> o_id ` set ?os" using assms(1) by simp
  then obtain x where "x \<in> set ?os" "o_id x = oid" by blast
  then have "find (\<lambda>ob. o_id ob = oid) ?os \<noteq> None"
    using find_None_not [of "\<lambda>ob. o_id ob = oid" ?os x] by auto
  then show ?thesis using assms by (auto simp: finalise_object_def Let_def)
qed

lemma CompleteMultipart_succeeds:
  assumes u: "find (\<lambda>u. u_id u = uid) (multipart_uploads db) = Some u" "u_state u = MultipartInProgress" "0 < u_chunk_size u"
    and parts: "complete_parts uid db \<noteq> []"
    and ex: "if expected = [] then sql_count (\<lambda>p. p_upload_id p = uid \<and> p_state p = PartUploading) (multipart_parts db) = 0
        else manifest_matches expected (complete_parts uid db)"
    and new: "newID \<notin> object_ids db" and n: "int (length (assembled uid db)) = total_chunks (complete_parts uid db)"
    and sz: "0 \<le> total_size (complete_parts uid db)"
  shows "\<exists>obj db'. CompleteMultipartUpload uid expected newID now db = (Inr obj, db')"
proof -
  let ?ob = "new_object newID (u_bucket u) (u_key u) (next_version (u_bucket u) (u_key u) db) (u_chunk_size u) (u_content_type u) now"
  let ?db1 = "db\<lparr>objects := objects db @ [?ob]\<rparr>"
  have ins: "insert_object ?ob db = Inr ?db1" using u(3) new by (simp add: insert_object_eq new_object_def)
  obtain db2 where rep: "reparent newID uid ?db1 = (total_chunks (complete_parts uid db), db2)"
    using n by (simp add: reparent_eq assembled_insert_object)
  let ?dbs = "supersedeCurrentVersion (u_bucket u) (u_key u) newID now db2"
  have "objects db2 = objects db @ [?ob]" using rep by (auto simp: reparent_eq)
  moreover have "o_id ?ob = newID" by (simp add: new_object_def)
  ultimately have "newID \<in> object_ids ?dbs" by (simp add: supersede_objects)
  then obtain obj db3 where "finalise_object newID (total_size (complete_parts uid db)) (total_chunks (complete_parts uid db))
      (parts_etag (complete_parts uid db)) now ?dbs = Inr (obj, db3)"
    using finalise_succeeds [OF _ sz, of newID ?dbs "total_chunks (complete_parts uid db)"] n by (metis of_nat_0_le_iff)
  then show ?thesis
    using u parts ex ins rep by (simp add: CompleteMultipartUpload_def inTx_def Let_def split: if_splits)
qed

lemma ex_mp_completes: "\<exists>obj db'. CompleteMultipartUpload 3 [] 20 9 ex_mp = (Inr obj, db')"
proof (rule CompleteMultipart_succeeds)
  show "find (\<lambda>u. u_id u = 3) (multipart_uploads ex_mp) = Some (ex_upload 3)" by code_simp
  show "int (length (assembled 3 ex_mp)) = total_chunks (complete_parts 3 ex_mp)" by code_simp
  show "0 \<le> total_size (complete_parts 3 ex_mp)" by code_simp
  show "complete_parts 3 ex_mp \<noteq> []" by code_simp
qed (simp_all add: ex_upload_def ex_mp_def ex_db_def ex_part_def ex_object_def sql_count_def)

theorem complete_multipart_assembles_witness:
  "\<exists>obj db'. CompleteMultipartUpload 3 [] 20 9 ex_mp = (Inr obj, db') \<and> Obj_ID obj = 20 \<and> Obj_ChunkCount obj = 1
     \<and> map chunk_slot (sort_key c_index (chunks_of_object 20 (chunks db'))) = [(0, 9, 1, None)]"
proof -
  obtain obj db' where eq: "CompleteMultipartUpload 3 [] 20 9 ex_mp = (Inr obj, db')" using ex_mp_completes by blast
  have "concat (map (part_chunks ex_mp) (complete_parts 3 ex_mp))
      = [(ex_chunk 9 1 ChunkCommitted 0)\<lparr>c_object_id := None, c_part_id := Some 4\<rparr>]" by code_simp
  with complete_multipart_assembles [OF ex_mp_invariants eq refl] eq show ?thesis by (auto simp: ex_chunk_def)
qed

end
