(* ===== verification/Job_Queue.thy ===== *)
theory Job_Queue
  imports Flex_Prelude
begin

text \<open>
  The contract of a leased job queue, shared by repair jobs and node reconciliations: a worker
  claims a job, which is then held in its name until the lease lapses; expired leases are
  reclaimed. The client's lemma: until its lease lapses, a claimed job is granted to nobody else,
  whatever claims and reclaims happen in between.
\<close>

text \<open>A lease without an expiry never lapses: in SQL, a comparison with NULL is not true.\<close>

definition lapsed :: "time \<Rightarrow> time option \<Rightarrow> bool" where
  "lapsed now lease = (case lease of None \<Rightarrow> False | Some t \<Rightarrow> t < now)"

datatype queue_op = Claim string duration time | Reclaim time

fun op_time :: "queue_op \<Rightarrow> time" where
  "op_time (Claim w l t) = t"
| "op_time (Reclaim t) = t"

text \<open>The jobs that a sequence of operations grants, in order.\<close>

fun granted ::
  "(string \<Rightarrow> duration \<Rightarrow> time \<Rightarrow> 's \<Rightarrow> int option \<times> 's) \<Rightarrow> (time \<Rightarrow> 's \<Rightarrow> 's) \<Rightarrow> queue_op list \<Rightarrow> 's \<Rightarrow> int list"
where
  "granted claim reclaim [] s = []"
| "granted claim reclaim (Claim w l t # ops) s =
     (case claim w l t s of
        (None, s') \<Rightarrow> granted claim reclaim ops s'
      | (Some i, s') \<Rightarrow> i # granted claim reclaim ops s')"
| "granted claim reclaim (Reclaim t # ops) s = granted claim reclaim ops (reclaim t s)"

locale leased_queue =
  fixes inv :: "'s \<Rightarrow> bool" and jobs :: "'s \<Rightarrow> 'j list" and jid :: "'j \<Rightarrow> int"
    and held :: "'j \<Rightarrow> (string \<times> time option) option"
    and claim :: "string \<Rightarrow> duration \<Rightarrow> time \<Rightarrow> 's \<Rightarrow> int option \<times> 's" and reclaim :: "time \<Rightarrow> 's \<Rightarrow> 's"
  assumes claim_inv: "inv s \<Longrightarrow> inv (snd (claim w l t s))"
    and reclaim_inv: "inv s \<Longrightarrow> inv (reclaim t s)"
    and jid_unique: "inv s \<Longrightarrow> j \<in> set (jobs s) \<Longrightarrow> j' \<in> set (jobs s) \<Longrightarrow> jid j = jid j' \<Longrightarrow> j = j'"
    and claim_free: "inv s \<Longrightarrow> claim w l t s = (Some i, s') \<Longrightarrow> \<exists>j \<in> set (jobs s). jid j = i \<and> held j = None"
    and claim_takes: "inv s \<Longrightarrow> claim w l t s = (Some i, s') \<Longrightarrow>
          \<exists>j \<in> set (jobs s'). jid j = i \<and> held j = Some (w, Some (t + l))"
    and claim_keeps: "inv s \<Longrightarrow> j \<in> set (jobs s) \<Longrightarrow> held j \<noteq> None \<Longrightarrow> j \<in> set (jobs (snd (claim w l t s)))"
    and reclaim_keeps: "inv s \<Longrightarrow> j \<in> set (jobs s) \<Longrightarrow> held j = Some (w, e) \<Longrightarrow> \<not> lapsed t e \<Longrightarrow> j \<in> set (jobs (reclaim t s))"
    and reclaim_frees: "inv s \<Longrightarrow> j \<in> set (jobs s) \<Longrightarrow> held j = Some (w, e) \<Longrightarrow> lapsed t e \<Longrightarrow>
          \<exists>j' \<in> set (jobs (reclaim t s)). jid j' = jid j \<and> held j' = None"
begin

lemma held_not_granted:
  assumes "inv s" "j \<in> set (jobs s)" "held j = Some (w, Some e)" "\<forall>p \<in> set ops. op_time p \<le> e"
  shows "jid j \<notin> set (granted claim reclaim ops s)"
  using assms(1,2,4)
proof (induction ops arbitrary: s)
  case (Cons p ops)
  show ?case
  proof (cases p)
    case (Claim w' l' t')
    obtain r s' where c: "claim w' l' t' s = (r, s')" by (metis surj_pair)
    have s': "inv s'" "j \<in> set (jobs s')"
      using claim_inv [OF Cons.prems(1), of w' l' t'] claim_keeps [OF Cons.prems(1,2), of w' l' t'] assms(3) c by auto
    have "jid j \<noteq> i" if r: "r = Some i" for i
    proof -
      obtain j' where "j' \<in> set (jobs s)" "jid j' = i" "held j' = None"
        using claim_free [OF Cons.prems(1)] c r by blast
      then show ?thesis using jid_unique [OF Cons.prems(1,2), of j'] assms(3) by auto
    qed
    then show ?thesis using Cons.IH [OF s'] Cons.prems(3) c by (cases r) (simp_all add: Claim)
  next
    case (Reclaim t')
    then have "\<not> lapsed t' (Some e)" using Cons.prems(3) by (simp add: lapsed_def)
    then have "j \<in> set (jobs (reclaim t' s))" using reclaim_keeps [OF Cons.prems(1,2) assms(3)] by blast
    then show ?thesis using Cons.IH [OF reclaim_inv [OF Cons.prems(1)]] Cons.prems(3) by (simp add: Reclaim)
  qed
qed simp

lemma lease_exclusive:
  assumes "inv s" "claim w l t s = (Some i, s')" "\<forall>p \<in> set ops. op_time p \<le> t + l"
  shows "i \<notin> set (granted claim reclaim ops s')"
proof -
  obtain j where j: "j \<in> set (jobs s')" "jid j = i" "held j = Some (w, Some (t + l))"
    using claim_takes [OF assms(1,2)] by blast
  have "inv s'" using claim_inv [OF assms(1), of w l t] assms(2) by simp
  from held_not_granted [OF this j(1,3) assms(3)] j(2) show ?thesis by simp
qed

lemma lease_returns:
  assumes "inv s" "claim w l t s = (Some i, s')" "t + l < t'"
  shows "\<exists>j \<in> set (jobs (reclaim t' s')). jid j = i \<and> held j = None"
proof -
  obtain j where j: "j \<in> set (jobs s')" "jid j = i" "held j = Some (w, Some (t + l))"
    using claim_takes [OF assms(1,2)] by blast
  have "inv s'" using claim_inv [OF assms(1), of w l t] assms(2) by simp
  moreover have "lapsed t' (Some (t + l))" using assms(3) by (simp add: lapsed_def)
  ultimately show ?thesis using reclaim_frees [OF _ j(1,3)] j(2) by blast
qed

end

end
