(* ===== verification/Metadata_Repair.thy ===== *)
theory Metadata_Repair
  imports Metadata_Multipart Job_Queue
begin

text \<open>
  \<^verbatim>\<open>internal/metadata/repair.go\<close>: the durability accounting and the queue of repair jobs. Jobs are
  leased: a worker claims a due PENDING job, which makes it RUNNING until it is closed or the lease
  expires.
\<close>

section \<open>Durability\<close>

text \<open>\<^verbatim>\<open>liveOwnerPredicate\<close>: the chunk belongs to an object or a part that is not garbage.\<close>

definition live_owner :: "db \<Rightarrow> chunk_row \<Rightarrow> bool" where
  "live_owner db c \<longleftrightarrow>
     sql_exists (\<lambda>ob. Some (o_id ob) = c_object_id c \<and> o_state ob \<in> {ObjectComplete, ObjectUploading}) (objects db)
   \<or> sql_exists (\<lambda>p. Some (p_id p) = c_part_id c \<and> p_state p \<in> {PartUploading, PartComplete}
          \<and> sql_exists (\<lambda>u. u_id u = p_upload_id p \<and> u_state u = MultipartInProgress) (multipart_uploads db))
       (multipart_parts db)"

definition DurabilityCounts :: "int \<Rightarrow> db \<Rightarrow> int \<times> int" where
  "DurabilityCounts replicationFactor db =
     (let rows = filter (\<lambda>c. c_state c = ChunkCommitted \<and> c_available c < replicationFactor \<and> live_owner db c) (chunks db)
      in (int (length rows), int (sql_count (\<lambda>c. c_available c = 0) rows)))"

definition CommittedChunkCount :: "db \<Rightarrow> int" where
  "CommittedChunkCount db = int (sql_count (\<lambda>c. c_state c = ChunkCommitted \<and> live_owner db c) (chunks db))"

section \<open>Scanning\<close>

definition new_job :: "int \<Rightarrow> uuid \<Rightarrow> time \<Rightarrow> job_row" where
  "new_job i cid now = \<lparr>j_id = i, j_chunk = cid, j_state = JobPending, j_source = None, j_target = None,
     j_attempts = 0, j_last_error = None, j_owner = None, j_lease = None, j_next = now, j_created = now,
     j_updated = now, j_finished = None\<rparr>"

text \<open>\<^verbatim>\<open>INSERT INTO repair_jobs .. ON CONFLICT (chunk_id) WHERE state IN ('PENDING', 'RUNNING') DO NOTHING\<close>\<close>

fun insert_jobs :: "time \<Rightarrow> uuid list \<Rightarrow> int \<times> db \<Rightarrow> int \<times> db" where
  "insert_jobs now [] s = s"
| "insert_jobs now (cid # cids) (n, db) =
     insert_jobs now cids
       (if sql_exists (\<lambda>j. j_chunk j = cid \<and> active (j_state j)) (repair_jobs db)
        then (n, db\<lparr>seq_jobs := seq_jobs db + 1\<rparr>)
        else (n + 1, db\<lparr>seq_jobs := seq_jobs db + 1,
                       repair_jobs := repair_jobs db @ [new_job (seq_jobs db) cid now]\<rparr>))"

definition damaged :: "int \<Rightarrow> db \<Rightarrow> chunk_row \<Rightarrow> bool" where
  "damaged replicationFactor db c \<longleftrightarrow> c_state c = ChunkCommitted \<and> c_available c < replicationFactor
     \<and> c_available c > 0 \<and> live_owner db c"

definition EnqueueRepairs :: "int \<Rightarrow> int \<Rightarrow> time \<Rightarrow> db \<Rightarrow> int \<times> db" where
  "EnqueueRepairs replicationFactor limit now db =
     insert_jobs now (map c_id (sql_limit limit (sort_key (\<lambda>c. (c_available c, c_id c))
       (filter (damaged replicationFactor db) (chunks db))))) (0, db)"

section \<open>Trimming\<close>

text \<open>
  The AVAILABLE replicas of a chunk, emptiest node first: \<^verbatim>\<open>ROW_NUMBER() OVER (ORDER BY
  n.used_bytes ASC, n.id)\<close>. The nodes beyond rank \<open>replicationFactor\<close> lose their replica.
\<close>

definition ranked_nodes :: "uuid \<Rightarrow> db \<Rightarrow> node_id list" where
  "ranked_nodes cid db = map n_id (sort_key (\<lambda>n. (n_used n, n_id n))
     (filter (\<lambda>n. sql_exists (\<lambda>r. r_node r = n_id n \<and> r_chunk r = cid \<and> r_state r = ReplicaAvailable) (chunk_replicas db))
       (storage_nodes db)))"

definition trim_chunk :: "int \<Rightarrow> time \<Rightarrow> uuid \<Rightarrow> db \<Rightarrow> int \<times> db" where
  "trim_chunk replicationFactor now cid db =
     (case find (\<lambda>c. c_id c = cid) (chunks db) of
        None \<Rightarrow> (0, db)
      | Some c \<Rightarrow>
          if c_available c - replicationFactor \<le> 0 then (0, db)
          else
            let victims = drop (nat replicationFactor) (ranked_nodes cid db);
                P = (\<lambda>r. r_chunk r = cid \<and> r_node r \<in> set victims);
                db1 = update_replicas P (set_replica_state ReplicaDeleting now) db;
                doomed = filter (\<lambda>r. r_chunk r = cid \<and> r_state r = ReplicaDeleting) (chunk_replicas db1)
            in (int (sql_count P (chunk_replicas db)),
                insert_deletions now (map (\<lambda>r. (r_chunk r, r_node r)) doomed) db1))"

fun trim_each :: "int \<Rightarrow> time \<Rightarrow> uuid list \<Rightarrow> int \<times> db \<Rightarrow> int \<times> db" where
  "trim_each rf now [] s = s"
| "trim_each rf now (cid # cids) (trimmed, db) =
     (let (n, db1) = trim_chunk rf now cid db in trim_each rf now cids (trimmed + n, db1))"

definition TrimOverReplicatedChunks :: "int \<Rightarrow> int \<Rightarrow> time \<Rightarrow> db \<Rightarrow> int \<times> db" where
  "TrimOverReplicatedChunks replicationFactor limit now db =
     trim_each replicationFactor now
       (map c_id (sql_limit limit (sort_key (\<lambda>c. (- c_available c, c_id c))
          (filter (\<lambda>c. c_state c = ChunkCommitted \<and> c_available c > replicationFactor \<and> live_owner db c) (chunks db)))))
       (0, db)"

section \<open>Leases\<close>

definition ReclaimExpiredRepairLeases :: "time \<Rightarrow> db \<Rightarrow> int \<times> db" where
  "ReclaimExpiredRepairLeases now db =
     (let P = (\<lambda>j. j_state j = JobRunning \<and> lapsed now (j_lease j))
      in (int (sql_count P (repair_jobs db)),
          db\<lparr>repair_jobs := sql_update P (\<lambda>j. j\<lparr>j_state := JobPending, j_owner := None, j_lease := None,
               j_next := now, j_updated := now,
               j_last_error := (case j_last_error j of
                  None \<Rightarrow> Some ''lease expired; reclaimed after coordinator restart'' | Some e \<Rightarrow> Some e)\<rparr>)
               (repair_jobs db)\<rparr>))"

record RepairJob =
  Job_ID :: int
  Job_ChunkID :: uuid
  Job_State :: job_state
  Job_SourceNodeID :: string
  Job_TargetNodeID :: string
  Job_Attempts :: int
  Job_LastError :: string
  Job_CreatedAt :: time
  Job_UpdatedAt :: time
  Job_FinishedAt :: time

record RepairTarget =
  rt_Job :: RepairJob
  rt_Checksum :: string
  rt_Size :: int
  rt_Sources :: "Replica list"
  rt_Occupied :: "node_id list"
  rt_DesiredReplicas :: int
  rt_StaleReplicas :: int
  rt_TransientOccupancy :: int

definition due_jobs :: "time \<Rightarrow> db \<Rightarrow> job_row list" where
  "due_jobs now db = sort_key (\<lambda>j. (j_next j, j_id j))
     (filter (\<lambda>j. j_state j = JobPending \<and> j_next j \<le> now) (repair_jobs db))"

definition repair_sources :: "uuid \<Rightarrow> db \<Rightarrow> Replica list" where
  "repair_sources cid db = map (\<lambda>n. \<lparr>Rep_ChunkID = cid, Rep_NodeID = n_id n, Rep_Address = n_address n,
       Rep_NodeHealth = Some (n_health n), Rep_State = ReplicaAvailable, Rep_UpdatedAt = 0\<rparr>)
     (sort_key (\<lambda>n. (n_active n, n_id n))
       (filter (\<lambda>n. n_health n \<noteq> StateDead
            \<and> sql_exists (\<lambda>r. r_node r = n_id n \<and> r_chunk r = cid \<and> r_state r = ReplicaAvailable) (chunk_replicas db))
         (storage_nodes db)))"

definition claim_job :: "string \<Rightarrow> duration \<Rightarrow> time \<Rightarrow> job_row \<Rightarrow> job_row" where
  "claim_job owner lease now j = j\<lparr>j_state := JobRunning, j_owner := Some owner, j_lease := Some (now + lease),
     j_attempts := j_attempts j + 1, j_updated := now\<rparr>"

definition ClaimRepairJob ::
  "string \<Rightarrow> duration \<Rightarrow> int \<Rightarrow> time \<Rightarrow> db \<Rightarrow> (db_error + RepairTarget) \<times> db"
where
  "ClaimRepairJob owner lease replicationFactor now = inTx (\<lambda>db.
     case due_jobs now db of
       [] \<Rightarrow> Inl ErrNoRepairWork
     | j0 # _ \<Rightarrow>
         let j = claim_job owner lease now j0;
             db1 = db\<lparr>repair_jobs := sql_update (\<lambda>j. j_id j = j_id j0) (claim_job owner lease now) (repair_jobs db)\<rparr>
         in (case find (\<lambda>c. c_id c = j_chunk j) (chunks db1) of
               None \<Rightarrow> Inl ErrNotFound
             | Some c \<Rightarrow>
                 let reps = filter (\<lambda>r. r_chunk r = j_chunk j) (chunk_replicas db1)
                 in Inr (\<lparr>rt_Job = \<lparr>Job_ID = j_id j, Job_ChunkID = j_chunk j, Job_State = j_state j,
                             Job_SourceNodeID = '''', Job_TargetNodeID = '''', Job_Attempts = j_attempts j,
                             Job_LastError = nullString (j_last_error j), Job_CreatedAt = j_created j,
                             Job_UpdatedAt = 0, Job_FinishedAt = 0\<rparr>,
                          rt_Checksum = nullString (c_checksum c), rt_Size = c_size c,
                          rt_Sources = repair_sources (j_chunk j) db1,
                          rt_Occupied = map r_node reps,
                          rt_DesiredReplicas = max 0 (replicationFactor - c_available c),
                          rt_StaleReplicas = int (sql_count (\<lambda>r. r_state r = ReplicaStale) reps),
                          rt_TransientOccupancy = int (sql_count (\<lambda>r. r_state r \<noteq> ReplicaAvailable) reps)\<rparr>, db1)))"

section \<open>Closing jobs\<close>

definition RecordRepairPlan :: "int \<Rightarrow> node_id \<Rightarrow> node_id \<Rightarrow> time \<Rightarrow> db \<Rightarrow> db" where
  "RecordRepairPlan jobID source target now db =
     db\<lparr>repair_jobs := sql_update (\<lambda>j. j_id j = jobID)
          (\<lambda>j. j\<lparr>j_source := Some source, j_target := Some target, j_updated := now\<rparr>) (repair_jobs db)\<rparr>"

definition close_job :: "string option \<Rightarrow> time \<Rightarrow> job_row \<Rightarrow> job_row" where
  "close_job err now j = j\<lparr>j_state := JobSucceeded, j_owner := None, j_lease := None, j_last_error := err,
     j_finished := Some now, j_updated := now\<rparr>"

text \<open>The statement that records a verified copy.\<close>

definition record_copy :: "uuid \<Rightarrow> node_id \<Rightarrow> (replica_row \<Rightarrow> replica_row) \<Rightarrow> time \<Rightarrow> db \<Rightarrow> db_error + db" where
  "record_copy cid node f now db = upsert_replica (new_replica cid ReplicaAvailable (Some now) now node) f db"

definition CompleteRepair :: "int \<Rightarrow> uuid \<Rightarrow> node_id \<Rightarrow> time \<Rightarrow> db \<Rightarrow> (db_error + int) \<times> db" where
  "CompleteRepair jobID chunkID targetNode now = inTx (\<lambda>db.
     case record_copy chunkID targetNode
            (\<lambda>r. r\<lparr>r_state := ReplicaAvailable, r_updated := now, r_verified := Some now, r_last_error := None\<rparr>) now db of
       Inl e \<Rightarrow> Inl e
     | Inr db1 \<Rightarrow>
         (case find (\<lambda>c. c_id c = chunkID) (chunks db1) of
            None \<Rightarrow> Inl ErrNoRows
          | Some c \<Rightarrow> Inr (c_available c,
              db1\<lparr>repair_jobs := sql_update (\<lambda>j. j_id j = jobID) (close_job None now) (repair_jobs db1)\<rparr>)))"

definition CompleteRepairForTest :: "uuid \<Rightarrow> node_id \<Rightarrow> time \<Rightarrow> db \<Rightarrow> (db_error + int) \<times> db" where
  "CompleteRepairForTest chunkID nodeID now = inTx (\<lambda>db.
     case record_copy chunkID nodeID (set_replica_state ReplicaAvailable now) now db of
       Inl e \<Rightarrow> Inl e
     | Inr db1 \<Rightarrow>
         (case find (\<lambda>c. c_id c = chunkID) (chunks db1) of
            None \<Rightarrow> Inl ErrNoRows | Some c \<Rightarrow> Inr (c_available c, db1)))"

definition FinishRepairAsNoop :: "int \<Rightarrow> string \<Rightarrow> time \<Rightarrow> db \<Rightarrow> db" where
  "FinishRepairAsNoop jobID reason now db =
     db\<lparr>repair_jobs := sql_update (\<lambda>j. j_id j = jobID) (close_job (Some (truncate_string reason 500)) now) (repair_jobs db)\<rparr>"

text \<open>
  Re-opening a job is refused by the unique index when its chunk has another active job.
\<close>

definition fail_job :: "string \<Rightarrow> duration \<Rightarrow> int \<Rightarrow> time \<Rightarrow> job_row \<Rightarrow> job_row" where
  "fail_job cause backoff maxAttempts now j =
     j\<lparr>j_state := (if j_attempts j \<ge> maxAttempts then JobFailed else JobPending), j_owner := None, j_lease := None,
       j_last_error := Some (truncate_string cause 500), j_next := now + backoff,
       j_finished := (if j_attempts j \<ge> maxAttempts then Some now else None), j_updated := now\<rparr>"

definition FailRepair :: "int \<Rightarrow> string \<Rightarrow> duration \<Rightarrow> int \<Rightarrow> time \<Rightarrow> db \<Rightarrow> (db_error + bool) \<times> db" where
  "FailRepair jobID cause backoff maxAttempts now = inTx (\<lambda>db.
     case find (\<lambda>j. j_id j = jobID) (repair_jobs db) of
       None \<Rightarrow> Inl ErrNoRows
     | Some j \<Rightarrow>
         if j_attempts j < maxAttempts
            \<and> sql_exists (\<lambda>a. j_id a \<noteq> jobID \<and> j_chunk a = j_chunk j \<and> active (j_state a)) (repair_jobs db)
         then Inl UniqueViolation
         else Inr (j_attempts j \<ge> maxAttempts,
           db\<lparr>repair_jobs := sql_update (\<lambda>j. j_id j = jobID) (fail_job cause backoff maxAttempts now) (repair_jobs db)\<rparr>))"

definition RequeueFailedRepairs :: "int \<Rightarrow> time \<Rightarrow> db \<Rightarrow> (db_error + int) \<times> db" where
  "RequeueFailedRepairs limit now = inTx (\<lambda>db.
     let cand = map j_id (sql_limit limit (sort_key j_updated (filter (\<lambda>j. j_state j = JobFailed
            \<and> sql_exists (\<lambda>c. c_id c = j_chunk j \<and> c_state c = ChunkCommitted) (chunks db)) (repair_jobs db))));
         P = (\<lambda>j. j_id j \<in> set cand \<and> \<not> sql_exists (\<lambda>a. j_chunk a = j_chunk j \<and> active (j_state a)) (repair_jobs db));
         js = sql_update P (\<lambda>j. j\<lparr>j_state := JobPending, j_attempts := 0, j_next := now,
                j_finished := None, j_updated := now\<rparr>) (repair_jobs db)
     in if distinct (map j_chunk (filter (\<lambda>j. active (j_state j)) js))
        then Inr (int (sql_count P (repair_jobs db)), db\<lparr>repair_jobs := js\<rparr>)
        else Inl UniqueViolation)"

section \<open>Damage reports\<close>

definition MarkReplicaCorrupt :: "uuid \<Rightarrow> node_id \<Rightarrow> string \<Rightarrow> time \<Rightarrow> db \<Rightarrow> (db_error + int) \<times> db" where
  "MarkReplicaCorrupt chunkID nodeID detail now = inTx (\<lambda>db.
     let db1 = update_replicas (\<lambda>r. r_chunk r = chunkID \<and> r_node r = nodeID \<and> r_state r \<noteq> ReplicaDeleting)
                 (\<lambda>r. r\<lparr>r_state := ReplicaCorrupt, r_updated := now, r_last_error := Some (truncate_string detail 500)\<rparr>) db
     in (case find (\<lambda>c. c_id c = chunkID) (chunks db1) of
           None \<Rightarrow> Inl ErrNotFound
         | Some c \<Rightarrow> Inr (c_available c, insert_deletions now [(chunkID, nodeID)] db1)))"

definition DropReplica :: "uuid \<Rightarrow> node_id \<Rightarrow> db \<Rightarrow> db" where
  "DropReplica chunkID nodeID db = delete_replicas (\<lambda>r. r_chunk r = chunkID \<and> r_node r = nodeID) db"

section \<open>Reports and housekeeping\<close>

definition RepairCounts :: "db \<Rightarrow> job_state \<Rightarrow> int option" where
  "RepairCounts db s =
     (let n = sql_count (\<lambda>j. j_state j = s) (repair_jobs db) in if n = 0 then None else Some (int n))"

definition scan_job :: "job_row \<Rightarrow> RepairJob" where
  "scan_job j = \<lparr>Job_ID = j_id j, Job_ChunkID = j_chunk j, Job_State = j_state j,
     Job_SourceNodeID = nullString (j_source j), Job_TargetNodeID = nullString (j_target j),
     Job_Attempts = j_attempts j, Job_LastError = nullString (j_last_error j), Job_CreatedAt = j_created j,
     Job_UpdatedAt = j_updated j, Job_FinishedAt = nullTime (j_finished j)\<rparr>"

definition RecentRepairJobs :: "int \<Rightarrow> db \<Rightarrow> RepairJob list" where
  "RecentRepairJobs limit0 db =
     (let limit = (if limit0 \<le> 0 \<or> limit0 > 200 then 50 else limit0)
      in map scan_job (sql_limit limit (sort_key (\<lambda>j. - j_updated j) (repair_jobs db))))"

definition finished_before :: "time \<Rightarrow> time option \<Rightarrow> bool" where
  "finished_before t f = (case f of None \<Rightarrow> False | Some x \<Rightarrow> x < t)"

definition PurgeFinishedRepairJobs :: "duration \<Rightarrow> int \<Rightarrow> int \<Rightarrow> time \<Rightarrow> db \<Rightarrow> int \<times> db" where
  "PurgeFinishedRepairJobs olderThan replicationFactor limit now db =
     (let old = map j_id (sql_limit limit (sort_key (\<lambda>j. nullTime (j_finished j))
            (filter (\<lambda>j. j_state j = JobSucceeded \<and> finished_before (now - olderThan) (j_finished j)) (repair_jobs db))));
          P1 = (\<lambda>j. j_id j \<in> set old);
          db1 = db\<lparr>repair_jobs := sql_delete P1 (repair_jobs db)\<rparr>;
          resolved = map j_id (sql_limit limit (filter (\<lambda>j. j_state j = JobFailed
            \<and> (case find (\<lambda>c. c_id c = j_chunk j) (chunks db1) of
                 None \<Rightarrow> True | Some c \<Rightarrow> c_available c \<ge> replicationFactor)) (repair_jobs db1)));
          P2 = (\<lambda>j. j_id j \<in> set resolved);
          db2 = db1\<lparr>repair_jobs := sql_delete P2 (repair_jobs db1)\<rparr>
      in (int (sql_count P1 (repair_jobs db)) + int (sql_count P2 (repair_jobs db1)), db2))"

definition VerifyDurabilityCounters :: "db \<Rightarrow> int \<times> db" where
  "VerifyDurabilityCounters db =
     (let P = (\<lambda>c. c_available c \<noteq> available_count (chunk_replicas db) (c_id c))
      in (int (sql_count P (chunks db)),
          db\<lparr>chunks := sql_update P (\<lambda>c. c\<lparr>c_available := available_count (chunk_replicas db) (c_id c)\<rparr>) (chunks db)\<rparr>))"

section \<open>The invariants\<close>

lemma insert_jobs_frame [simp]:
  "chunks (snd (insert_jobs now cids (n, db))) = chunks db"
  "objects (snd (insert_jobs now cids (n, db))) = objects db"
  "chunk_replicas (snd (insert_jobs now cids (n, db))) = chunk_replicas db"
  "chunk_deletions (snd (insert_jobs now cids (n, db))) = chunk_deletions db"
  by (induction cids arbitrary: n db) simp_all

lemma wf_insert_jobs:
  "wf_db db \<Longrightarrow> set cids \<subseteq> chunk_ids db \<Longrightarrow> wf_db (snd (insert_jobs now cids (n, db)))"
proof (induction cids arbitrary: n db)
  case (Cons cid cids)
  have "wf_db (db\<lparr>seq_jobs := seq_jobs db + 1, repair_jobs := repair_jobs db @ [new_job (seq_jobs db) cid now]\<rparr>)"
    if "\<not> sql_exists (\<lambda>j. j_chunk j = cid \<and> active (j_state j)) (repair_jobs db)"
    using Cons.prems that by (intro wf_insert_job) (auto simp: new_job_def)
  then show ?case
    using Cons wf_burn_seqs(1) [OF Cons.prems(1)]
    by (cases "sql_exists (\<lambda>j. j_chunk j = cid \<and> active (j_state j)) (repair_jobs db)") (simp_all only: insert_jobs.simps if_True if_False, simp_all)
qed simp

lemma wf_EnqueueRepairs [wf_intros]: "wf_db db \<Longrightarrow> wf_db (snd (EnqueueRepairs rf limit now db))"
  unfolding EnqueueRepairs_def
  by (rule wf_insert_jobs) (auto simp: sql_limit_def dest!: in_set_takeD)

lemma keeps_EnqueueRepairs:
  "deletions_tracked db \<Longrightarrow> deletions_tracked (snd (EnqueueRepairs rf limit now db))"
  "completed_full db \<Longrightarrow> completed_full (snd (EnqueueRepairs rf limit now db))"
  by (simp_all add: EnqueueRepairs_def)

text \<open>Trimming one chunk: what changes, and that it keeps the invariants.\<close>

lemma trim_chunk_cases:
  obtains "trim_chunk rf now cid db = (0, db)"
  | victims db1 where "victims = drop (nat rf) (ranked_nodes cid db)"
      "db1 = update_replicas (\<lambda>r. r_chunk r = cid \<and> r_node r \<in> set victims) (set_replica_state ReplicaDeleting now) db"
      "trim_chunk rf now cid db =
         (int (sql_count (\<lambda>r. r_chunk r = cid \<and> r_node r \<in> set victims) (chunk_replicas db)),
          insert_deletions now (map (\<lambda>r. (r_chunk r, r_node r))
            (filter (\<lambda>r. r_chunk r = cid \<and> r_state r = ReplicaDeleting) (chunk_replicas db1))) db1)"
proof (cases "\<exists>c. find (\<lambda>c. c_id c = cid) (chunks db) = Some c \<and> c_available c - rf > 0")
  case True
  then show ?thesis using that(2) [OF refl refl] by (auto simp: trim_chunk_def Let_def)
next
  case False
  then have "trim_chunk rf now cid db = (0, db)" by (auto simp: trim_chunk_def split: option.splits)
  then show ?thesis by (rule that(1))
qed

lemma wf_trim_chunk: "wf_db db \<Longrightarrow> wf_db (snd (trim_chunk rf now cid db))"
  by (cases rf now cid db rule: trim_chunk_cases) (auto intro!: wf_insert_deletions wf_update_replicas)

lemma tracked_trim_chunk:
  assumes "deletions_tracked db"
  shows "deletions_tracked (snd (trim_chunk rf now cid db))"
proof (cases rf now cid db rule: trim_chunk_cases)
  case (2 victims db1)
  have "r \<in> set (chunk_replicas db)" if "r \<in> set (chunk_replicas db1)" "r_chunk r \<noteq> cid" for r
    using that by (auto simp: 2 elim!: in_sql_updateE)
  then show ?thesis
    using assms by (auto simp: 2(3) queued_insert_deletions tracked_def) (auto simp: 2(2))
qed (use assms in simp)

lemma full_trim_chunk: "completed_full db \<Longrightarrow> completed_full (snd (trim_chunk rf now cid db))"
proof (cases rf now cid db rule: trim_chunk_cases)
  case (2 victims db1)
  assume "completed_full db"
  then show ?thesis by (rule completed_full_frame) (simp_all add: 2(3), simp_all add: 2(2))
qed simp

lemma trim_each_keeps:
  assumes "I db" "\<And>cid db. I db \<Longrightarrow> I (snd (trim_chunk rf now cid db))"
  shows "I (snd (trim_each rf now cids (n, db)))"
  using assms(1)
proof (induction cids arbitrary: n db)
  case (Cons cid cids)
  show ?case using Cons.IH [OF assms(2) [OF Cons.prems]] by (simp add: case_prod_beta)
qed simp

lemma keeps_TrimOverReplicatedChunks:
  "wf_db db \<Longrightarrow> wf_db (snd (TrimOverReplicatedChunks rf limit now db))"
  "deletions_tracked db \<Longrightarrow> deletions_tracked (snd (TrimOverReplicatedChunks rf limit now db))"
  "completed_full db \<Longrightarrow> completed_full (snd (TrimOverReplicatedChunks rf limit now db))"
proof -
  show "wf_db (snd (TrimOverReplicatedChunks rf limit now db))" if "wf_db db"
    unfolding TrimOverReplicatedChunks_def by (rule trim_each_keeps [where I = wf_db]) (use that wf_trim_chunk in auto)
  show "deletions_tracked (snd (TrimOverReplicatedChunks rf limit now db))" if "deletions_tracked db"
    unfolding TrimOverReplicatedChunks_def
    by (rule trim_each_keeps [where I = deletions_tracked]) (use that tracked_trim_chunk in auto)
  show "completed_full (snd (TrimOverReplicatedChunks rf limit now db))" if "completed_full db"
    unfolding TrimOverReplicatedChunks_def
    by (rule trim_each_keeps [where I = completed_full]) (use that full_trim_chunk in auto)
qed

text \<open>Statements on the jobs.\<close>

lemma keeps_job_updates:
  "deletions_tracked db \<Longrightarrow> deletions_tracked (db\<lparr>repair_jobs := js\<rparr>)"
  "completed_full db \<Longrightarrow> completed_full (db\<lparr>repair_jobs := js\<rparr>)"
  by simp_all

lemma keeps_ReclaimExpiredRepairLeases:
  "wf_db db \<Longrightarrow> wf_db (snd (ReclaimExpiredRepairLeases now db))"
  "deletions_tracked db \<Longrightarrow> deletions_tracked (snd (ReclaimExpiredRepairLeases now db))"
  "completed_full db \<Longrightarrow> completed_full (snd (ReclaimExpiredRepairLeases now db))"
  by (auto simp: ReclaimExpiredRepairLeases_def Let_def intro!: wf_update_jobs)

lemma wf_job_unique:
  "wf_db db \<Longrightarrow> j \<in> set (repair_jobs db) \<Longrightarrow> j' \<in> set (repair_jobs db) \<Longrightarrow> j_id j = j_id j' \<Longrightarrow> j = j'"
  by (auto simp: wf_db_def jobs_ok_def intro: distinct_map_unique)

lemma set_due_jobs: "set (due_jobs now db) = {j \<in> set (repair_jobs db). j_state j = JobPending \<and> j_next j \<le> now}"
  by (simp add: due_jobs_def)

lemma ClaimRepairJob_cases:
  obtains e where "ClaimRepairJob owner lease rf now db = (Inl e, db)"
  | j0 js t where "due_jobs now db = j0 # js" "rt_Job t = \<lparr>Job_ID = j_id j0, Job_ChunkID = j_chunk j0,
        Job_State = JobRunning, Job_SourceNodeID = '''', Job_TargetNodeID = '''', Job_Attempts = j_attempts j0 + 1,
        Job_LastError = nullString (j_last_error j0), Job_CreatedAt = j_created j0, Job_UpdatedAt = 0, Job_FinishedAt = 0\<rparr>"
      "ClaimRepairJob owner lease rf now db =
        (Inr t, db\<lparr>repair_jobs := sql_update (\<lambda>j. j_id j = j_id j0) (claim_job owner lease now) (repair_jobs db)\<rparr>)"
proof (cases "due_jobs now db")
  case Nil
  then show ?thesis using that(1) by (simp add: ClaimRepairJob_def inTx_def)
next
  case (Cons j0 js)
  have chunk: "j_chunk (claim_job owner lease now j0) = j_chunk j0" by (simp add: claim_job_def)
  show ?thesis
  proof (cases "find (\<lambda>c. c_id c = j_chunk j0) (chunks db)")
    case None
    then show ?thesis using that(1) Cons by (simp add: ClaimRepairJob_def inTx_def Let_def chunk)
  next
    case (Some c)
    then obtain t where "ClaimRepairJob owner lease rf now db =
        (Inr t, db\<lparr>repair_jobs := sql_update (\<lambda>j. j_id j = j_id j0) (claim_job owner lease now) (repair_jobs db)\<rparr>)"
      "rt_Job t = \<lparr>Job_ID = j_id j0, Job_ChunkID = j_chunk j0,
        Job_State = JobRunning, Job_SourceNodeID = '''', Job_TargetNodeID = '''', Job_Attempts = j_attempts j0 + 1,
        Job_LastError = nullString (j_last_error j0), Job_CreatedAt = j_created j0, Job_UpdatedAt = 0, Job_FinishedAt = 0\<rparr>"
      using Cons by (simp add: ClaimRepairJob_def inTx_def Let_def chunk) (simp add: claim_job_def)
    then show ?thesis using that(2) [OF Cons] by blast
  qed
qed

lemma wf_claim_update:
  assumes "wf_db db" "j0 \<in> set (due_jobs now db)"
  shows "wf_db (db\<lparr>repair_jobs := sql_update (\<lambda>j. j_id j = j_id j0) (claim_job owner lease now) (repair_jobs db)\<rparr>)"
proof -
  have j0: "j0 \<in> set (repair_jobs db)" "j_state j0 = JobPending" using assms(2) by (auto simp: set_due_jobs)
  have "sql_update (\<lambda>j. j_id j = j_id j0) (claim_job owner lease now) (repair_jobs db)
      = sql_update (\<lambda>j. j_id j = j_id j0 \<and> j_state j = JobPending) (claim_job owner lease now) (repair_jobs db)"
    using wf_job_unique [OF assms(1) _ j0(1)] j0(2) by (intro sql_update_cong) blast
  then show ?thesis using assms(1) by (auto simp: claim_job_def intro!: wf_update_jobs)
qed

lemma keeps_ClaimRepairJob:
  "wf_db db \<Longrightarrow> wf_db (snd (ClaimRepairJob owner lease rf now db))"
  "deletions_tracked db \<Longrightarrow> deletions_tracked (snd (ClaimRepairJob owner lease rf now db))"
  "completed_full db \<Longrightarrow> completed_full (snd (ClaimRepairJob owner lease rf now db))"
  by (cases owner lease rf now db rule: ClaimRepairJob_cases; auto intro!: wf_claim_update)+

text \<open>The three invariants together.\<close>

definition store_ok :: "db \<Rightarrow> bool" where
  "store_ok db \<longleftrightarrow> wf_db db \<and> deletions_tracked db \<and> completed_full db"

lemma store_okD: "store_ok db \<Longrightarrow> wf_db db" "store_ok db \<Longrightarrow> deletions_tracked db" "store_ok db \<Longrightarrow> completed_full db"
  by (simp_all add: store_ok_def)

lemma store_okI: "wf_db db \<Longrightarrow> deletions_tracked db \<Longrightarrow> completed_full db \<Longrightarrow> store_ok db"
  by (simp add: store_ok_def)

named_theorems ok_intros \<open>operations that keep the store's invariants\<close>

lemma inTx_ok:
  assumes "store_ok db" "\<And>x db'. body db = Inr (x, db') \<Longrightarrow> store_ok db'"
  shows "store_ok (snd (inTx body db))"
  using assms by (auto simp: inTx_def split: sum.splits)

lemma ok_jobs_update:
  assumes "store_ok db" "\<And>j. P j \<Longrightarrow> j_id (f j) = j_id j \<and> j_chunk (f j) = j_chunk j
          \<and> (active (j_state (f j)) \<longrightarrow> active (j_state j))"
  shows "store_ok (db\<lparr>repair_jobs := sql_update P f (repair_jobs db)\<rparr>)"
  using assms by (auto simp: store_ok_def intro!: wf_update_jobs)

lemma ok_jobs_delete: "store_ok db \<Longrightarrow> store_ok (db\<lparr>repair_jobs := sql_delete P (repair_jobs db)\<rparr>)"
  by (auto simp: store_ok_def intro!: wf_delete_jobs)

lemma ok_update_replicas:
  assumes "store_ok db" "\<And>r. P r \<Longrightarrow> r_chunk (f r) = r_chunk r \<and> r_node (f r) = r_node r \<and> r_state (f r) \<noteq> ReplicaDeleting"
  shows "store_ok (update_replicas P f db)"
proof (rule store_okI)
  show "wf_db (update_replicas P f db)" using assms by (auto intro!: wf_update_replicas dest: store_okD)
  have "tracked (queued db) (sql_update P f (chunk_replicas db))"
    using store_okD(2) [OF assms(1)] by (rule tracked_update) (use assms(2) in auto)
  then show "deletions_tracked (update_replicas P f db)" by simp
  show "completed_full (update_replicas P f db)" by (rule completed_full_frame [OF store_okD(3) [OF assms(1)]]) simp_all
qed

lemma ok_delete_replicas: "store_ok db \<Longrightarrow> store_ok (delete_replicas P db)"
proof (rule store_okI)
  assume ok: "store_ok db"
  show "wf_db (delete_replicas P db)" using ok by (auto intro!: wf_delete_replicas dest: store_okD)
  show "deletions_tracked (delete_replicas P db)" using store_okD(2) [OF ok] by (simp add: tracked_delete)
  show "completed_full (delete_replicas P db)" by (rule completed_full_frame [OF store_okD(3) [OF ok]]) simp_all
qed

lemma ok_insert_deletions: "store_ok db \<Longrightarrow> store_ok (insert_deletions now ps db)"
  by (auto simp: store_ok_def queued_insert_deletions intro: wf_insert_deletions tracked_mono)

lemma ok_record_copy:
  assumes "store_ok db" "record_copy cid node f now db = Inr db'"
    and f: "\<And>r. r_chunk (f r) = r_chunk r \<and> r_node (f r) = r_node r \<and> r_state (f r) = ReplicaAvailable"
  shows "store_ok db'"
proof (rule store_okI)
  let ?row = "new_replica cid ReplicaAvailable (Some now) now node"
  have up: "upsert_replica ?row f db = Inr db'" using assms(2) by (simp add: record_copy_def)
  show "wf_db db'" by (rule wf_upsert_replica [OF store_okD(1) [OF assms(1)] up]) (simp add: f)
  show "deletions_tracked db'"
    by (rule tracked_upsert_replica [OF store_okD(2) [OF assms(1)] up]) (simp_all add: f new_replica_def)
  have "upsert_replicas (\<lambda>_. ?row) f [node] db = Inr db'" using up by simp
  from upsert_replicas_mask [OF this] show "completed_full db'"
    by (intro completed_full_frame [OF store_okD(3) [OF assms(1)]]) auto
qed

lemma ok_CompleteRepair [ok_intros]: "store_ok db \<Longrightarrow> store_ok (snd (CompleteRepair jobID cid node now db))"
  unfolding CompleteRepair_def
  by (rule inTx_ok)
     (auto split: sum.splits option.splits intro!: ok_jobs_update elim!: ok_record_copy [rotated] simp: close_job_def)

lemma ok_CompleteRepairForTest [ok_intros]: "store_ok db \<Longrightarrow> store_ok (snd (CompleteRepairForTest cid node now db))"
  unfolding CompleteRepairForTest_def
  by (rule inTx_ok) (auto split: sum.splits option.splits elim!: ok_record_copy [rotated] simp: set_replica_state_def)

lemma ok_repair_simple [ok_intros]:
  assumes "store_ok db"
  shows "store_ok (RecordRepairPlan jobID s t now db)"
    "store_ok (FinishRepairAsNoop jobID reason now db)"
    "store_ok (DropReplica cid nid db)"
    "store_ok (snd (EnqueueRepairs rf limit now db))"
    "store_ok (snd (TrimOverReplicatedChunks rf limit now db))"
    "store_ok (snd (ReclaimExpiredRepairLeases now db))"
    "store_ok (snd (ClaimRepairJob owner lease rf now db))"
  using assms
  by (auto simp: RecordRepairPlan_def FinishRepairAsNoop_def DropReplica_def close_job_def
      intro!: ok_jobs_update ok_delete_replicas)
     (auto simp: store_ok_def intro: wf_EnqueueRepairs keeps_EnqueueRepairs keeps_TrimOverReplicatedChunks
       keeps_ReclaimExpiredRepairLeases keeps_ClaimRepairJob)

lemma ok_PurgeFinishedRepairJobs [ok_intros]:
  assumes "store_ok db"
  shows "store_ok (snd (PurgeFinishedRepairJobs olderThan rf limit now db))"
  unfolding PurgeFinishedRepairJobs_def Let_def snd_conv
  by (rule ok_jobs_delete [OF ok_jobs_delete [OF assms]])

lemma wf_reopen_job:
  assumes wf: "wf_db db" and j: "find (\<lambda>j. j_id j = jobID) (repair_jobs db) = Some j"
    and f: "\<And>x. j_id (f x) = j_id x \<and> j_chunk (f x) = j_chunk x"
    and free: "active (j_state (f j)) \<Longrightarrow> \<not> (\<exists>a \<in> set (repair_jobs db). j_id a \<noteq> jobID \<and> j_chunk a = j_chunk j \<and> active (j_state a))"
  shows "wf_db (db\<lparr>repair_jobs := sql_update (\<lambda>j. j_id j = jobID) f (repair_jobs db)\<rparr>)"
proof -
  let ?js = "sql_update (\<lambda>j. j_id j = jobID) f (repair_jobs db)"
  have jin: "j \<in> set (repair_jobs db)" "j_id j = jobID" using find_Some_in [OF j] by auto
  have old: "distinct (map j_id (repair_jobs db))" "distinct (map j_chunk (filter (\<lambda>j. active (j_state j)) (repair_jobs db)))"
    using wf by (auto simp: wf_db_def jobs_ok_def)
  have orig: "(x \<in> set (repair_jobs db) \<and> j_id x \<noteq> jobID) \<or> x = f j" if "x \<in> set ?js" for x
    using that wf_job_unique [OF wf _ jin(1)] jin(2) by (elim in_sql_updateE) auto
  have ids: "distinct (map j_id ?js)" using old f by simp
  have "x = y" if "x \<in> set ?js" "y \<in> set ?js" "active (j_state x)" "active (j_state y)" "j_chunk x = j_chunk y" for x y
    using orig [OF that(1)] orig [OF that(2)] that(3-5) free f [of j]
      distinct_map_unique [OF old(2), of x y] by auto
  then have "distinct (map j_chunk (filter (\<lambda>j. active (j_state j)) ?js))"
    using ids by (auto simp: distinct_map inj_on_def)
  then have "jobs_ok (seq_jobs db) (chunk_ids db) ?js"
    using wf f ids unfolding wf_db_def jobs_ok_def by auto
  then show ?thesis using wf by (simp add: wf_db_def)
qed

lemma ok_FailRepair [ok_intros]:
  assumes "store_ok db"
  shows "store_ok (snd (FailRepair jobID cause backoff maxAttempts now db))"
  unfolding FailRepair_def
proof (rule inTx_ok [OF assms])
  fix x db' assume "(case find (\<lambda>j. j_id j = jobID) (repair_jobs db) of
       None \<Rightarrow> Inl ErrNoRows
     | Some j \<Rightarrow>
         if j_attempts j < maxAttempts
            \<and> sql_exists (\<lambda>a. j_id a \<noteq> jobID \<and> j_chunk a = j_chunk j \<and> active (j_state a)) (repair_jobs db)
         then Inl UniqueViolation
         else Inr (j_attempts j \<ge> maxAttempts,
           db\<lparr>repair_jobs := sql_update (\<lambda>j. j_id j = jobID) (fail_job cause backoff maxAttempts now) (repair_jobs db)\<rparr>)) = Inr (x, db')"
  then obtain j where j: "find (\<lambda>j. j_id j = jobID) (repair_jobs db) = Some j"
    and free: "\<not> (j_attempts j < maxAttempts \<and> (\<exists>a \<in> set (repair_jobs db). j_id a \<noteq> jobID \<and> j_chunk a = j_chunk j \<and> active (j_state a)))"
    and db': "db' = db\<lparr>repair_jobs := sql_update (\<lambda>j. j_id j = jobID) (fail_job cause backoff maxAttempts now) (repair_jobs db)\<rparr>"
    by (auto split: option.splits if_splits)
  have "wf_db db'" unfolding db'
    by (rule wf_reopen_job [OF store_okD(1) [OF assms] j]) (use free in \<open>auto simp: fail_job_def split: if_splits\<close>)
  then show "store_ok db'" using assms by (simp add: store_ok_def db')
qed

lemma ok_RequeueFailedRepairs [ok_intros]:
  assumes "store_ok db"
  shows "store_ok (snd (RequeueFailedRepairs limit now db))"
proof -
  have "wf_db (db\<lparr>repair_jobs := sql_update P f (repair_jobs db)\<rparr>)"
    if "distinct (map j_chunk (filter (\<lambda>j. active (j_state j)) (sql_update P f (repair_jobs db))))"
      "\<And>j. j_id (f j) = j_id j \<and> j_chunk (f j) = j_chunk j" for P f
    using that store_okD(1) [OF assms] unfolding wf_db_def jobs_ok_def by simp
  then show ?thesis
    using assms unfolding RequeueFailedRepairs_def
    by (intro inTx_ok) (auto simp: Let_def store_ok_def split: if_splits)
qed

lemma ok_MarkReplicaCorrupt [ok_intros]: "store_ok db \<Longrightarrow> store_ok (snd (MarkReplicaCorrupt cid nid detail now db))"
  unfolding MarkReplicaCorrupt_def
  by (rule inTx_ok) (auto simp: Let_def simp del: insert_deletions.simps split: option.splits
      intro!: ok_insert_deletions ok_update_replicas)

lemma VerifyDurabilityCounters_wf: "wf_db db \<Longrightarrow> VerifyDurabilityCounters db = (0, db)"
  using wf_counter [of db] by (simp add: VerifyDurabilityCounters_def Let_def sql_count_0_iff sql_update_none)

section \<open>Trimming is safe\<close>

text \<open>The keys of nodes and replicas are in order; nothing is assumed of the counters.\<close>

definition keys_ok :: "db \<Rightarrow> bool" where
  "keys_ok db \<longleftrightarrow> distinct (map n_id (storage_nodes db)) \<and> replicas_ok (chunk_ids db) (node_ids db) (chunk_replicas db)"

lemma wf_keys_ok: "wf_db db \<Longrightarrow> keys_ok db"
  by (simp add: wf_db_def keys_ok_def)

abbreviation available_at :: "db \<Rightarrow> uuid \<Rightarrow> node_id set" where
  "available_at db cid \<equiv> r_node ` {r \<in> set (chunk_replicas db). r_chunk r = cid \<and> r_state r = ReplicaAvailable}"

lemma available_count_at:
  assumes "keys_ok db"
  shows "available_count (chunk_replicas db) cid = int (card (available_at db cid))"
proof -
  let ?A = "filter (\<lambda>r. r_chunk r = cid \<and> r_state r = ReplicaAvailable) (chunk_replicas db)"
  have d: "distinct (map (\<lambda>r. (r_chunk r, r_node r)) (chunk_replicas db))"
    using assms by (simp add: keys_ok_def replicas_ok_def)
  then have "distinct ?A" by (simp add: distinct_map)
  then have 1: "card (set ?A) = length ?A" by (rule distinct_card)
  have "inj_on r_node (set ?A)"
    using distinct_map_unique [OF d] by (auto simp: inj_on_def)
  then have "card (r_node ` set ?A) = card (set ?A)" by (rule card_image)
  then show ?thesis using 1 by (simp add: available_count_def sql_count_def)
qed

lemma ranked_nodes_props:
  assumes "keys_ok db"
  shows "distinct (ranked_nodes cid db)" "set (ranked_nodes cid db) = available_at db cid"
proof -
  show "distinct (ranked_nodes cid db)"
    using assms by (auto simp: ranked_nodes_def keys_ok_def distinct_map inj_on_def)
  have "r_node r \<in> node_ids db" if "r \<in> set (chunk_replicas db)" for r
    using that assms by (auto simp: keys_ok_def replicas_ok_def)
  then show "set (ranked_nodes cid db) = available_at db cid"
    by (force simp: ranked_nodes_def)
qed

lemma trim_chunk_frame:
  "storage_nodes (snd (trim_chunk rf now cid db)) = storage_nodes db"
  "map uncounted (chunks (snd (trim_chunk rf now cid db))) = map uncounted (chunks db)"
  by (cases rf now cid db rule: trim_chunk_cases; simp)+

lemma uncounted_chunk_ids: "map uncounted cs = map uncounted cs' \<Longrightarrow> c_id ` set cs = c_id ` set cs'"
  using uncounted_ids [of cs cs'] by (metis (no_types, lifting) fst_conv image_cong image_image)

lemma available_at_demoted:
  "r_node ` {r \<in> set (sql_update (\<lambda>r. r_chunk r = cid \<and> r_node r \<in> V) (set_replica_state ReplicaDeleting now) rs).
       r_chunk r = cid \<and> r_state r = ReplicaAvailable}
   = r_node ` {r \<in> set rs. r_chunk r = cid \<and> r_state r = ReplicaAvailable} - V" (is "r_node ` ?L = r_node ` ?R - V")
proof
  show "r_node ` ?L \<subseteq> r_node ` ?R - V"
  proof
    fix n assume "n \<in> r_node ` ?L"
    then obtain r where r: "r \<in> set (sql_update (\<lambda>r. r_chunk r = cid \<and> r_node r \<in> V) (set_replica_state ReplicaDeleting now) rs)"
      "r_chunk r = cid" "r_state r = ReplicaAvailable" "n = r_node r" by blast
    from r(1) show "n \<in> r_node ` ?R - V"
      by (rule in_sql_updateE) (use r(2-4) in \<open>simp_all add: set_replica_state_def\<close>)
  qed
  show "r_node ` ?R - V \<subseteq> r_node ` ?L"
  proof
    fix n assume "n \<in> r_node ` ?R - V"
    then obtain r where r: "r \<in> set rs" "r_chunk r = cid" "r_state r = ReplicaAvailable" "n = r_node r" "r_node r \<notin> V" by blast
    then have "r \<in> ?L" using in_sql_updateI(2) [of r rs "\<lambda>r. r_chunk r = cid \<and> r_node r \<in> V"] by simp
    then show "n \<in> r_node ` ?L" using r(4) by blast
  qed
qed

lemma trim_chunk_count:
  assumes keys: "keys_ok db"
  shows "available_count (chunk_replicas (snd (trim_chunk rf now cid db))) cid' =
      (if cid' = cid \<and> (\<exists>c. find (\<lambda>c. c_id c = cid) (chunks db) = Some c \<and> rf < c_available c)
       then min (max 0 rf) (available_count (chunk_replicas db) cid) else available_count (chunk_replicas db) cid')"
    and "keys_ok (snd (trim_chunk rf now cid db))"
proof -
  let ?db' = "snd (trim_chunk rf now cid db)"
  have reps: "chunk_replicas ?db' = chunk_replicas db \<or> (\<exists>P. chunk_replicas ?db' = sql_update P (set_replica_state ReplicaDeleting now) (chunk_replicas db))"
    by (cases rf now cid db rule: trim_chunk_cases) auto
  then show keys': "keys_ok ?db'"
    using keys trim_chunk_frame [of rf now cid db] uncounted_chunk_ids [OF trim_chunk_frame(2) [of rf now cid db]]
    by (elim disjE exE) (simp_all add: keys_ok_def replicas_ok_def set_replica_state_def)
  show "available_count (chunk_replicas ?db') cid' =
      (if cid' = cid \<and> (\<exists>c. find (\<lambda>c. c_id c = cid) (chunks db) = Some c \<and> rf < c_available c)
       then min (max 0 rf) (available_count (chunk_replicas db) cid) else available_count (chunk_replicas db) cid')"
  proof (cases "\<exists>c. find (\<lambda>c. c_id c = cid) (chunks db) = Some c \<and> rf < c_available c")
    case True
    let ?ranked = "ranked_nodes cid db"
    have r: "chunk_replicas ?db' = sql_update (\<lambda>r. r_chunk r = cid \<and> r_node r \<in> set (drop (nat rf) ?ranked))
        (set_replica_state ReplicaDeleting now) (chunk_replicas db)"
      using True by (auto simp: trim_chunk_def Let_def)
    have "available_at ?db' cid = available_at db cid - set (drop (nat rf) ?ranked)"
      unfolding r by (rule available_at_demoted)
    also have "\<dots> = set (take (nat rf) ?ranked)"
    proof -
      have "set ?ranked = set (take (nat rf) ?ranked) \<union> set (drop (nat rf) ?ranked)"
        by (metis append_take_drop_id set_append)
      then show ?thesis
        using ranked_nodes_props [OF keys, of cid] set_take_disj_set_drop_if_distinct [of ?ranked "nat rf" "nat rf"] by auto
    qed
    finally have "available_count (chunk_replicas ?db') cid = int (length (take (nat rf) ?ranked))"
      using available_count_at [OF keys'] distinct_card [OF distinct_take [OF ranked_nodes_props(1) [OF keys, of cid]]] by simp
    moreover have "available_count (chunk_replicas db) cid = int (length ?ranked)"
      using available_count_at [OF keys, of cid] distinct_card [OF ranked_nodes_props(1) [OF keys, of cid]]
        ranked_nodes_props(2) [OF keys, of cid] by simp
    moreover have "int (length (take (nat rf) ?ranked)) = min (max 0 rf) (int (length ?ranked))"
      unfolding length_take by (cases "rf \<le> 0") (simp_all add: min_def max_def, linarith)
    moreover have "available_count (chunk_replicas ?db') cid' = available_count (chunk_replicas db) cid'" if "cid' \<noteq> cid"
      unfolding r using that by (intro available_count_update) (auto simp: set_replica_state_def)
    ultimately show ?thesis using True by (cases "cid' = cid") (simp_all only: if_True if_False simp_thms)
  next
    case False
    then have "trim_chunk rf now cid db = (0, db)" by (auto simp: trim_chunk_def split: option.splits)
    then show ?thesis using False by auto
  qed
qed

lemma trim_each_count:
  assumes "keys_ok db"
  shows "min (max 0 rf) (available_count (chunk_replicas db) cid)
      \<le> available_count (chunk_replicas (snd (trim_each rf now cids (n, db)))) cid
    \<and> available_count (chunk_replicas (snd (trim_each rf now cids (n, db)))) cid \<le> available_count (chunk_replicas db) cid"
  using assms
proof (induction cids arbitrary: n db)
  case (Cons i cids)
  let ?db1 = "snd (trim_chunk rf now i db)"
  have "min (max 0 rf) (available_count (chunk_replicas db) cid) \<le> available_count (chunk_replicas ?db1) cid
      \<and> available_count (chunk_replicas ?db1) cid \<le> available_count (chunk_replicas db) cid"
    unfolding trim_chunk_count(1) [OF Cons.prems] by auto
  then show ?case
    using Cons.IH [OF trim_chunk_count(2) [OF Cons.prems, of rf now i], of "n + fst (trim_chunk rf now i db)"]
    by (auto simp: case_prod_beta)
qed simp

section \<open>Properties\<close>

lemma trim_each_exact:
  assumes "wf_db db" "cid \<in> set cids" "cid \<in> chunk_ids db" "rf < available_count (chunk_replicas db) cid" "0 \<le> rf"
  shows "available_count (chunk_replicas (snd (trim_each rf now cids (n, db)))) cid = rf"
  using assms(1-4)
proof (induction cids arbitrary: n db)
  case (Cons i cids)
  let ?db1 = "snd (trim_chunk rf now i db)"
  have keys: "keys_ok db" "keys_ok ?db1" using Cons.prems(1) wf_trim_chunk wf_keys_ok by blast+
  have step: "snd (trim_each rf now (i # cids) (n, db)) = snd (trim_each rf now cids (n + fst (trim_chunk rf now i db), ?db1))"
    by (simp add: case_prod_beta)
  show ?case
  proof (cases "i = cid")
    case True
    obtain c where c: "c \<in> set (chunks db)" "c_id c = cid" using Cons.prems(3) by blast
    have "distinct (map c_id (chunks db))" using Cons.prems(1) by (simp add: wf_db_def positions_ok_def)
    from find_Some_distinct [OF this c(1)] have "find (\<lambda>c. c_id c = cid) (chunks db) = Some c" by (simp add: c(2))
    moreover have "rf < c_available c" using wf_counter [OF Cons.prems(1) c(1)] c(2) Cons.prems(4) by simp
    ultimately have "available_count (chunk_replicas ?db1) cid = rf"
      using trim_chunk_count(1) [OF keys(1), of rf now i cid] True Cons.prems(4) assms(5) by auto
    then show ?thesis
      using trim_each_count [OF keys(2), of rf cid now cids "n + fst (trim_chunk rf now i db)"] assms(5)
      unfolding step by auto
  next
    case False
    then have "available_count (chunk_replicas ?db1) cid = available_count (chunk_replicas db) cid"
      using trim_chunk_count(1) [OF keys(1), of rf now i cid] by auto
    then show ?thesis
      unfolding step using Cons.IH [OF wf_trim_chunk [OF Cons.prems(1)], of rf now i "n + fst (trim_chunk rf now i db)"] Cons.prems False
        uncounted_chunk_ids [OF trim_chunk_frame(2) [of rf now i db]] by auto
  qed
qed simp

text \<open>
  C18 (trimming). Trimming never takes a chunk below the replication factor (nor below what it had
  if it had fewer), and never adds a replica, whatever the counters say: only the keys of the
  tables are assumed to be in order. When the counters are right and the batch is large enough,
  every live, committed, over-replicated chunk ends with exactly the replication factor.
\<close>

theorem trim_safe:
  assumes keys: "keys_ok db" and eq: "TrimOverReplicatedChunks rf limit now db = (trimmed, db')"
  shows "min (max 0 rf) (available_count (chunk_replicas db) cid) \<le> available_count (chunk_replicas db') cid
    \<and> available_count (chunk_replicas db') cid \<le> available_count (chunk_replicas db) cid
    \<and> (wf_db db \<and> 0 \<le> rf \<and> int (length (chunks db)) \<le> limit \<longrightarrow>
        (\<forall>c \<in> set (chunks db). c_state c = ChunkCommitted \<and> live_owner db c \<and> rf < c_available c \<longrightarrow>
           available_count (chunk_replicas db') (c_id c) = rf))"
proof -
  let ?P = "\<lambda>c. c_state c = ChunkCommitted \<and> c_available c > rf \<and> live_owner db c"
  let ?ids = "map c_id (sql_limit limit (sort_key (\<lambda>c. (- c_available c, c_id c)) (filter ?P (chunks db))))"
  have db': "db' = snd (trim_each rf now ?ids (0, db))" using eq by (simp add: TrimOverReplicatedChunks_def)
  have "available_count (chunk_replicas db') (c_id c) = rf"
    if "wf_db db" "0 \<le> rf" "int (length (chunks db)) \<le> limit" and c: "c \<in> set (chunks db)" "?P c" for c
  proof -
    have "length (filter ?P (chunks db)) \<le> nat limit"
      using that(3) length_filter_le [of ?P "chunks db"] by linarith
    then have "c_id c \<in> set ?ids" using c by (simp add: sql_limit_def)
    then show ?thesis unfolding db'
      using c wf_counter [OF that(1) c(1)] by (intro trim_each_exact [OF that(1) _ _ _ that(2)]) auto
  qed
  then show ?thesis using trim_each_count [OF keys, of rf cid now ?ids 0] unfolding db' by auto
qed

definition ex_over :: db where
  "ex_over = ex_db\<lparr>chunk_replicas := chunk_replicas ex_db @ [ex_replica 7 ''n3'' ReplicaAvailable],
     chunks := [ex_chunk 7 1 ChunkCommitted 3, ex_chunk 8 2 ChunkCommitted 2]\<rparr>"

lemma wf_ex_over: "wf_db ex_over"
  by (simp add: wf_db_def ex_over_def ex_defs objects_ok_def uploads_ok_def parts_ok_def positions_ok_def
      chunk_refs_ok_def counters_exact_def replicas_ok_def deletions_ok_def jobs_ok_def recons_ok_def
      available_count_def sql_count_def)

theorem trim_safe_witness:
  "\<exists>db'. TrimOverReplicatedChunks 2 10 9 ex_over = (1, db')
     \<and> available_count (chunk_replicas ex_over) 7 = 3 \<and> available_count (chunk_replicas db') 7 = 2"
proof -
  have "fst (TrimOverReplicatedChunks 2 10 9 ex_over) = 1" by code_simp
  then obtain db' where eq: "TrimOverReplicatedChunks 2 10 9 ex_over = (1, db')" by (metis prod.collapse)
  have c: "ex_chunk 7 1 ChunkCommitted 3 \<in> set (chunks ex_over)" by (simp add: ex_over_def)
  have "live_owner ex_over (ex_chunk 7 1 ChunkCommitted 3)" by (simp add: live_owner_def ex_over_def ex_defs)
  with trim_safe [OF wf_keys_ok [OF wf_ex_over] eq] wf_ex_over c
  have "available_count (chunk_replicas db') 7 = 2" by (auto simp: ex_over_def ex_chunk_def)
  moreover have "available_count (chunk_replicas ex_over) 7 = 3" by code_simp
  ultimately show ?thesis using eq by blast
qed

subsection \<open>Leases\<close>

definition job_held :: "job_row \<Rightarrow> (string \<times> time option) option" where
  "job_held j = (if j_state j = JobRunning then Some (nullString (j_owner j), j_lease j) else None)"

definition claim_repair :: "int \<Rightarrow> string \<Rightarrow> duration \<Rightarrow> time \<Rightarrow> db \<Rightarrow> int option \<times> db" where
  "claim_repair rf owner lease now db =
     (case ClaimRepairJob owner lease rf now db of
        (Inl e, db') \<Rightarrow> (None, db') | (Inr t, db') \<Rightarrow> (Some (Job_ID (rt_Job t)), db'))"

definition reclaim_repair :: "time \<Rightarrow> db \<Rightarrow> db" where
  "reclaim_repair now db = snd (ReclaimExpiredRepairLeases now db)"

lemma claim_repair_cases:
  obtains "claim_repair rf owner lease now db = (None, db)"
  | j0 where "j0 \<in> set (repair_jobs db)" "j_state j0 = JobPending"
      "claim_repair rf owner lease now db = (Some (j_id j0),
         db\<lparr>repair_jobs := sql_update (\<lambda>j. j_id j = j_id j0) (claim_job owner lease now) (repair_jobs db)\<rparr>)"
proof (cases owner lease rf now db rule: ClaimRepairJob_cases)
  case (1 e)
  then show ?thesis using that(1) by (simp add: claim_repair_def)
next
  case (2 j0 js t)
  have "j0 \<in> set (due_jobs now db)" by (simp add: 2(1))
  then show ?thesis using that(2) [of j0] 2(2,3) by (simp add: claim_repair_def set_due_jobs)
qed

lemma reclaim_expired:
  assumes "j \<in> set (repair_jobs db)" "j_state j = JobRunning" "lapsed now (j_lease j)"
  shows "\<exists>j' \<in> set (repair_jobs (reclaim_repair now db)). j_id j' = j_id j \<and> j_state j' = JobPending"
proof -
  let ?P = "\<lambda>j. j_state j = JobRunning \<and> lapsed now (j_lease j)"
  let ?f = "\<lambda>j. j\<lparr>j_state := JobPending, j_owner := None, j_lease := None, j_next := now, j_updated := now,
             j_last_error := (case j_last_error j of
                None \<Rightarrow> Some ''lease expired; reclaimed after coordinator restart'' | Some e \<Rightarrow> Some e)\<rparr>"
  have "?f j \<in> set (sql_update ?P ?f (repair_jobs db))" using assms by (intro in_sql_updateI(1)) simp_all
  then have "?f j \<in> set (repair_jobs (reclaim_repair now db))"
    by (simp add: reclaim_repair_def ReclaimExpiredRepairLeases_def Let_def)
  then show ?thesis by (rule rev_bexI) simp
qed

interpretation repair_queue: leased_queue wf_db repair_jobs j_id job_held "claim_repair rf" reclaim_repair for rf
proof
  fix s w l t i s' j j' e t'
  show "wf_db (snd (claim_repair rf w l t s))" if "wf_db s"
    using keeps_ClaimRepairJob(1) [OF that, of w l rf t] by (auto simp: claim_repair_def split: prod.split sum.split)
  show "wf_db (reclaim_repair t s)" if "wf_db s"
    using keeps_ReclaimExpiredRepairLeases(1) [OF that] by (simp add: reclaim_repair_def)
  show "j = j'" if "wf_db s" "j \<in> set (repair_jobs s)" "j' \<in> set (repair_jobs s)" "j_id j = j_id j'"
    using that by (rule wf_job_unique)
  show "\<exists>j \<in> set (repair_jobs s). j_id j = i \<and> job_held j = None" if "wf_db s" "claim_repair rf w l t s = (Some i, s')"
  proof (cases rf w l t s rule: claim_repair_cases)
    case (2 j0)
    then have "j_id j0 = i" "job_held j0 = None" using that(2) by (simp_all add: job_held_def)
    then show ?thesis using 2(1) by blast
  qed (use that in simp)
  show "\<exists>j \<in> set (repair_jobs s'). j_id j = i \<and> job_held j = Some (w, Some (t + l))"
    if "wf_db s" "claim_repair rf w l t s = (Some i, s')"
  proof (cases rf w l t s rule: claim_repair_cases)
    case (2 j0)
    have "claim_job w l t j0 \<in> set (sql_update (\<lambda>j. j_id j = j_id j0) (claim_job w l t) (repair_jobs s))"
      by (rule in_sql_updateI(1)) (simp_all add: 2(1))
    moreover have "j_id (claim_job w l t j0) = j_id j0" "job_held (claim_job w l t j0) = Some (w, Some (t + l))"
      by (simp_all add: job_held_def claim_job_def nullString_def)
    moreover have "i = j_id j0" "repair_jobs s' = sql_update (\<lambda>j. j_id j = j_id j0) (claim_job w l t) (repair_jobs s)"
      using that(2) 2(3) by auto
    ultimately show ?thesis by metis
  qed (use that in simp)
  show "j \<in> set (repair_jobs (snd (claim_repair rf w l t s)))"
    if "wf_db s" "j \<in> set (repair_jobs s)" "job_held j \<noteq> None"
  proof (cases rf w l t s rule: claim_repair_cases)
    case (2 j0)
    have "j_id j \<noteq> j_id j0" using wf_job_unique [OF that(1,2) 2(1)] 2(2) that(3) by (auto simp: job_held_def)
    then show ?thesis using 2(3) that(2) by (simp add: in_sql_updateI(2))
  qed (use that in simp)
  show "j \<in> set (repair_jobs (reclaim_repair t s))"
    if "wf_db s" "j \<in> set (repair_jobs s)" "job_held j = Some (w, e)" "\<not> lapsed t e"
    using that by (auto simp: reclaim_repair_def ReclaimExpiredRepairLeases_def Let_def job_held_def
        split: if_splits intro: in_sql_updateI(2))
  show "\<exists>j' \<in> set (repair_jobs (reclaim_repair t s)). j_id j' = j_id j \<and> job_held j' = None"
    if "wf_db s" "j \<in> set (repair_jobs s)" "job_held j = Some (w, e)" "lapsed t e"
  proof -
    have "j_state j = JobRunning" "lapsed t (j_lease j)" using that by (auto simp: job_held_def split: if_splits)
    from reclaim_expired [OF that(2) this] obtain j' where
      "j' \<in> set (repair_jobs (reclaim_repair t s))" "j_id j' = j_id j" "j_state j' = JobPending" by blast
    moreover from this have "job_held j' = None" by (simp add: job_held_def)
    ultimately show ?thesis by blast
  qed
qed

text \<open>
  C20 (a repair is held by one worker). While the lease of a claimed job runs, no sequence of
  further claims and lease sweeps grants the same job again; once it has lapsed, the next sweep
  makes the job PENDING again, so that a crashed worker never blocks it.
\<close>

theorem repair_lease_exclusive:
  assumes "wf_db db" "claim_repair rf owner lease now db = (Some i, db')" "\<forall>p \<in> set ops. op_time p \<le> now + lease"
  shows "i \<notin> set (granted (claim_repair rf) reclaim_repair ops db')
    \<and> (\<forall>t > now + lease. \<exists>j \<in> set (repair_jobs (reclaim_repair t db')). j_id j = i \<and> j_state j = JobPending)"
proof -
  have "\<exists>j \<in> set (repair_jobs (reclaim_repair t db')). j_id j = i \<and> j_state j = JobPending" if "now + lease < t" for t
  proof -
    obtain j0 where j0: "j0 \<in> set (repair_jobs db)" "j_id j0 = i"
      and db': "db' = db\<lparr>repair_jobs := sql_update (\<lambda>j. j_id j = i) (claim_job owner lease now) (repair_jobs db)\<rparr>"
      using assms(2) by (cases rf owner lease now db rule: claim_repair_cases) auto
    let ?j = "claim_job owner lease now j0"
    have "?j \<in> set (repair_jobs db')" unfolding db' using j0 by (simp add: in_sql_updateI(1))
    from reclaim_expired [OF this, of t] show ?thesis
      using that j0(2) by (simp add: claim_job_def lapsed_def)
  qed
  then show ?thesis using repair_queue.lease_exclusive [OF assms] by blast
qed


text \<open>A queue with one job: chunk 7 has two replicas where three are wanted.\<close>

definition ex_queue :: db where
  "ex_queue = snd (EnqueueRepairs 3 1 5 ex_db)"

lemma repair_lease_exclusive_witness:
  "\<exists>db'. claim_repair 3 ''a'' 60 10 ex_queue = (Some 1, db')
     \<and> 1 \<notin> set (granted (claim_repair 3) reclaim_repair [Claim ''b'' 60 20, Reclaim 30, Claim ''c'' 60 40] db')
     \<and> (\<exists>j \<in> set (repair_jobs (reclaim_repair 71 db')). j_id j = 1 \<and> j_state j = JobPending)"
proof -
  have "wf_db ex_queue" unfolding ex_queue_def by (rule wf_EnqueueRepairs [OF wf_ex_db])
  moreover have "fst (claim_repair 3 ''a'' 60 10 ex_queue) = Some 1" by code_simp
  then obtain db' where eq: "claim_repair 3 ''a'' 60 10 ex_queue = (Some 1, db')" by (metis prod.collapse)
  ultimately show ?thesis
    using repair_lease_exclusive [of ex_queue 3 "''a''" 60 10 1 db' "[Claim ''b'' 60 20, Reclaim 30, Claim ''c'' 60 40]"]
    by auto
qed

end
