(* ===== verification/Metadata_GC.thy ===== *)
theory Metadata_GC
  imports Metadata_Repair
begin

text \<open>
  \<^verbatim>\<open>internal/metadata/gc.go\<close>: the queue of replica deletions, the removal of rows whose bytes are
  gone, and the cluster statistics.
\<close>

section \<open>The deletion queue\<close>

record PendingDeletion =
  pd_ID :: int
  pd_ChunkID :: uuid
  pd_NodeID :: node_id
  pd_Address :: string
  pd_Attempts :: int

definition lease_deletion :: "duration \<Rightarrow> time \<Rightarrow> deletion_row \<Rightarrow> deletion_row" where
  "lease_deletion lease now d = d\<lparr>d_attempts := d_attempts d + 1, d_next := now + lease\<rparr>"

definition due_deletions :: "int \<Rightarrow> time \<Rightarrow> db \<Rightarrow> int list" where
  "due_deletions limit now db =
     map d_id (sql_limit limit (sort_key d_next (filter (\<lambda>d. d_next d \<le> now) (chunk_deletions db))))"

definition scan_deletion :: "db \<Rightarrow> deletion_row \<Rightarrow> PendingDeletion" where
  "scan_deletion db d = \<lparr>pd_ID = d_id d, pd_ChunkID = d_chunk d, pd_NodeID = d_node d,
     pd_Address = (case find (\<lambda>n. n_id n = d_node d) (storage_nodes db) of None \<Rightarrow> '''' | Some n \<Rightarrow> n_address n),
     pd_Attempts = d_attempts d\<rparr>"

definition ClaimDeletions :: "int \<Rightarrow> duration \<Rightarrow> time \<Rightarrow> db \<Rightarrow> PendingDeletion list \<times> db" where
  "ClaimDeletions limit lease now db =
     (let P = (\<lambda>d. d_id d \<in> set (due_deletions limit now db));
          db1 = db\<lparr>chunk_deletions := sql_update P (lease_deletion lease now) (chunk_deletions db)\<rparr>
      in (map (scan_deletion db) (filter P (chunk_deletions db1)), db1))"

definition FinishDeletion :: "int \<Rightarrow> uuid \<Rightarrow> node_id \<Rightarrow> db \<Rightarrow> (db_error + unit) \<times> db" where
  "FinishDeletion i chunkID nodeID = inTx (\<lambda>db.
     let db1 = delete_replicas (\<lambda>r. r_chunk r = chunkID \<and> r_node r = nodeID) db
     in Inr ((), db1\<lparr>chunk_deletions := sql_delete (\<lambda>d. d_id d = i) (chunk_deletions db1)\<rparr>))"

definition expire_deletion :: "int \<Rightarrow> int \<Rightarrow> bool tx" where
  "expire_deletion i maxAttempts db =
     (let P = (\<lambda>d. d_id d = i \<and> d_attempts d \<ge> maxAttempts);
          db1 = db\<lparr>chunk_deletions := sql_delete P (chunk_deletions db)\<rparr>
      in (case filter P (chunk_deletions db) of
            [] \<Rightarrow> Inr (False, db1)
          | d # _ \<Rightarrow> Inr (True, delete_replicas (\<lambda>r. r_chunk r = d_chunk d \<and> r_node r = d_node d
                                          \<and> r_state r = ReplicaDeleting) db1)))"

definition FailDeletion :: "int \<Rightarrow> string \<Rightarrow> duration \<Rightarrow> int \<Rightarrow> time \<Rightarrow> db \<Rightarrow> (db_error + unit) \<times> db" where
  "FailDeletion i cause backoff maxAttempts now db =
     (case inTx (expire_deletion i maxAttempts) db of
        (Inl e, db1) \<Rightarrow> (Inl e, db1)
      | (Inr expired, db1) \<Rightarrow>
          if expired then (Inr (), db1)
          else (Inr (), db1\<lparr>chunk_deletions := sql_update (\<lambda>d. d_id d = i)
                  (\<lambda>d. d\<lparr>d_last_error := Some (truncate_string cause 500), d_next := now + backoff\<rparr>)
                  (chunk_deletions db1)\<rparr>))"

section \<open>Removing rows\<close>

definition reclaimed_chunk :: "db \<Rightarrow> chunk_row \<Rightarrow> bool" where
  "reclaimed_chunk db c \<longleftrightarrow> c_state c = ChunkOrphaned
     \<and> \<not> sql_exists (\<lambda>r. r_chunk r = c_id c) (chunk_replicas db)
     \<and> \<not> sql_exists (\<lambda>d. d_chunk d = c_id c) (chunk_deletions db)"

definition reclaimed_object :: "db \<Rightarrow> object_row \<Rightarrow> bool" where
  "reclaimed_object db ob \<longleftrightarrow> o_state ob \<in> {ObjectDeleting, ObjectFailed}
     \<and> \<not> sql_exists (\<lambda>c. c_object_id c = Some (o_id ob)
            \<and> sql_exists (\<lambda>r. r_chunk r = c_id c) (chunk_replicas db)) (chunks db)
     \<and> \<not> sql_exists (\<lambda>c. c_object_id c = Some (o_id ob)
            \<and> sql_exists (\<lambda>d. d_chunk d = c_id c) (chunk_deletions db)) (chunks db)"

definition PurgeReclaimedChunks :: "int \<Rightarrow> db \<Rightarrow> (db_error + int \<times> int) \<times> db" where
  "PurgeReclaimedChunks limit = inTx (\<lambda>db.
     let cids = map c_id (sql_limit limit (filter (reclaimed_chunk db) (chunks db)));
         db1 = delete_chunks (\<lambda>c. c_id c \<in> set cids) db;
         oids = map o_id (sql_limit limit (filter (reclaimed_object db1) (objects db1)))
     in Inr ((int (sql_count (\<lambda>c. c_id c \<in> set cids) (chunks db)),
              int (sql_count (\<lambda>ob. o_id ob \<in> set oids) (objects db1))),
             delete_objects (\<lambda>ob. o_id ob \<in> set oids) db1))"

definition finished_upload :: "time \<Rightarrow> db \<Rightarrow> upload_row \<Rightarrow> bool" where
  "finished_upload before db u \<longleftrightarrow> u_state u \<in> {MultipartCompleted, MultipartAborted} \<and> u_updated u < before
     \<and> \<not> sql_exists (\<lambda>p. p_upload_id p = u_id u \<and> sql_exists (\<lambda>c. c_part_id c = Some (p_id p)) (chunks db))
           (multipart_parts db)"

definition PurgeCompletedMultipartUploads :: "duration \<Rightarrow> int \<Rightarrow> time \<Rightarrow> db \<Rightarrow> int \<times> db" where
  "PurgeCompletedMultipartUploads olderThan limit now db =
     (let ids = map u_id (sql_limit limit (filter (finished_upload (now - olderThan) db) (multipart_uploads db)))
      in (int (sql_count (\<lambda>u. u_id u \<in> set ids) (multipart_uploads db)), delete_uploads (\<lambda>u. u_id u \<in> set ids) db))"

section \<open>Statistics\<close>

record ClusterStats =
  cs_TotalChunks :: int
  cs_UnderReplicatedChunks :: int
  cs_UnavailableChunks :: int
  cs_ObjectsByState :: "object_state \<Rightarrow> int option"
  cs_RepairJobsByState :: "job_state \<Rightarrow> int option"

definition objects_by_state :: "db \<Rightarrow> object_state \<Rightarrow> int option" where
  "objects_by_state db s =
     (let n = sql_count (\<lambda>ob. o_state ob = s) (objects db) in if n = 0 then None else Some (int n))"

definition cluster_stats :: "int \<Rightarrow> db \<Rightarrow> ClusterStats" where
  "cluster_stats replicationFactor db =
     (let (under, unavailable) = DurabilityCounts replicationFactor db
      in \<lparr>cs_TotalChunks = CommittedChunkCount db, cs_UnderReplicatedChunks = under,
          cs_UnavailableChunks = unavailable, cs_ObjectsByState = objects_by_state db,
          cs_RepairJobsByState = RepairCounts db\<rparr>)"

definition ReplicaCountsForObject :: "uuid \<Rightarrow> db \<Rightarrow> uuid \<Rightarrow> int option" where
  "ReplicaCountsForObject objectID db cid =
     (if sql_exists (\<lambda>c. c_id c = cid \<and> c_object_id c = Some objectID) (chunks db)
      then Some (available_count (chunk_replicas db) cid) else None)"


section \<open>The deletion queue keeps the invariants\<close>

lemma ok_deletions_update:
  assumes "store_ok db" "\<And>d. P d \<Longrightarrow> d_id (f d) = d_id d \<and> d_chunk (f d) = d_chunk d \<and> d_node (f d) = d_node d"
  shows "store_ok (db\<lparr>chunk_deletions := sql_update P f (chunk_deletions db)\<rparr>)"
  using assms by (simp add: store_ok_def wf_update_deletions)

lemma ok_ClaimDeletions [ok_intros]: "store_ok db \<Longrightarrow> store_ok (snd (ClaimDeletions limit lease now db))"
  unfolding ClaimDeletions_def Let_def snd_conv by (rule ok_deletions_update) (simp_all add: lease_deletion_def)

text \<open>A queue row may go together with the DELETING replicas it stands for.\<close>

lemma ok_drop_deletion:
  assumes ok: "store_ok db"
    and gone: "\<And>d r. d \<in> set (chunk_deletions db) \<Longrightarrow> P d \<Longrightarrow> r \<in> set (chunk_replicas db) \<Longrightarrow>
        r_chunk r = d_chunk d \<Longrightarrow> r_node r = d_node d \<Longrightarrow> r_state r = ReplicaDeleting \<Longrightarrow> Q r"
  shows "store_ok ((delete_replicas Q db)\<lparr>chunk_deletions := sql_delete P (chunk_deletions db)\<rparr>)"
proof -
  let ?db = "delete_replicas Q db"
  have ok1: "store_ok ?db" using ok by (rule ok_delete_replicas)
  then have "wf_db (?db\<lparr>chunk_deletions := sql_delete P (chunk_deletions ?db)\<rparr>)"
    by (intro wf_delete_deletions) (rule store_okD)
  moreover have "tracked ((\<lambda>d. (d_chunk d, d_node d)) ` {d \<in> set (chunk_deletions db). \<not> P d}) (sql_delete Q (chunk_replicas db))"
    using store_okD(2) [OF ok] gone unfolding tracked_def by (fastforce simp: image_iff)
  ultimately show ?thesis using ok1 by (simp add: store_ok_def)
qed

lemma ok_FinishDeletion [ok_intros]:
  assumes "store_ok db" "\<forall>d \<in> set (chunk_deletions db). d_id d = i \<longrightarrow> d_chunk d = cid \<and> d_node d = nid"
  shows "store_ok (snd (FinishDeletion i cid nid db))"
  unfolding FinishDeletion_def
  by (rule inTx_ok) (use assms in \<open>auto simp: Let_def intro!: ok_drop_deletion\<close>)

lemma wf_deletion_unique:
  "wf_db db \<Longrightarrow> d \<in> set (chunk_deletions db) \<Longrightarrow> d' \<in> set (chunk_deletions db) \<Longrightarrow> d_id d = d_id d' \<Longrightarrow> d = d'"
  by (auto simp: wf_db_def deletions_ok_def intro: distinct_map_unique)

text \<open>The two outcomes of a failed deletion.\<close>

lemma FailDeletion_cases:
  obtains d where "d \<in> set (chunk_deletions db)" "d_id d = i" "d_attempts d \<ge> m"
      "FailDeletion i cause backoff m now db = (Inr (),
        delete_replicas (\<lambda>r. r_chunk r = d_chunk d \<and> r_node r = d_node d \<and> r_state r = ReplicaDeleting)
          (db\<lparr>chunk_deletions := sql_delete (\<lambda>d. d_id d = i \<and> d_attempts d \<ge> m) (chunk_deletions db)\<rparr>))"
  | "\<forall>d \<in> set (chunk_deletions db). d_id d = i \<longrightarrow> d_attempts d < m"
      "FailDeletion i cause backoff m now db = (Inr (), db\<lparr>chunk_deletions := sql_update (\<lambda>d. d_id d = i)
          (\<lambda>d. d\<lparr>d_last_error := Some (truncate_string cause 500), d_next := now + backoff\<rparr>) (chunk_deletions db)\<rparr>)"
proof (cases "filter (\<lambda>d. d_id d = i \<and> d_attempts d \<ge> m) (chunk_deletions db)")
  case Nil
  then have none: "\<forall>d \<in> set (chunk_deletions db). \<not> (d_id d = i \<and> d_attempts d \<ge> m)" by (simp add: filter_empty_conv)
  then have "sql_delete (\<lambda>d. d_id d = i \<and> d_attempts d \<ge> m) (chunk_deletions db) = chunk_deletions db"
    by (simp add: sql_delete_def filter_id_conv)
  with Nil none show ?thesis
    by (intro that(2)) (auto simp: FailDeletion_def inTx_def expire_deletion_def Let_def)
next
  case (Cons d ds)
  then have "d \<in> set (filter (\<lambda>d. d_id d = i \<and> d_attempts d \<ge> m) (chunk_deletions db))" by simp
  then have d: "d \<in> set (chunk_deletions db)" "d_id d = i" "d_attempts d \<ge> m" by simp_all
  show ?thesis by (rule that(1) [OF d]) (simp add: FailDeletion_def inTx_def expire_deletion_def Let_def Cons)
qed

lemma delete_replicas_deletions:
  "delete_replicas Q (db\<lparr>chunk_deletions := ds\<rparr>) = (delete_replicas Q db)\<lparr>chunk_deletions := ds\<rparr>"
proof -
  have "refresh_available_replicas cid (db\<lparr>chunk_deletions := ds\<rparr>)
      = (refresh_available_replicas cid db)\<lparr>chunk_deletions := ds\<rparr>" for cid db
    by (simp add: refresh_available_replicas_def)
  then have "fold refresh_available_replicas cids (db\<lparr>chunk_deletions := ds\<rparr>)
      = (fold refresh_available_replicas cids db)\<lparr>chunk_deletions := ds\<rparr>" for cids db
    by (induction cids arbitrary: db) simp_all
  moreover have "db\<lparr>chunk_deletions := ds, chunk_replicas := sql_delete Q (chunk_replicas db)\<rparr>
      = db\<lparr>chunk_replicas := sql_delete Q (chunk_replicas db)\<rparr>\<lparr>chunk_deletions := ds\<rparr>" by simp
  ultimately
  have "fold refresh_available_replicas cids (db\<lparr>chunk_deletions := ds, chunk_replicas := sql_delete Q (chunk_replicas db)\<rparr>)
      = (fold refresh_available_replicas cids (db\<lparr>chunk_replicas := sql_delete Q (chunk_replicas db)\<rparr>))
          \<lparr>chunk_deletions := ds\<rparr>" for cids
    by (simp only:)
  then show ?thesis by (simp add: delete_replicas_def)
qed

lemma ok_FailDeletion [ok_intros]:
  assumes "store_ok db"
  shows "store_ok (snd (FailDeletion i cause backoff m now db))"
proof (cases rule: FailDeletion_cases [where db = db and i = i and m = m and cause = cause and backoff = backoff and now = now])
  case (1 d)
  show ?thesis
    unfolding 1(4) delete_replicas_deletions snd_conv
    by (rule ok_drop_deletion [OF assms]) (use wf_deletion_unique [OF store_okD(1) [OF assms] 1(1)] 1(2) in auto)
next
  case 2
  then show ?thesis by (auto intro!: ok_deletions_update [OF assms])
qed


section \<open>Purging keeps the invariants\<close>

lemma delete_chunks_frame [simp]:
  "chunks (delete_chunks P db) = sql_delete P (chunks db)"
  "objects (delete_chunks P db) = objects db"
  "multipart_uploads (delete_chunks P db) = multipart_uploads db"
  "multipart_parts (delete_chunks P db) = multipart_parts db"
  "chunk_deletions (delete_chunks P db) = chunk_deletions db"
  "storage_nodes (delete_chunks P db) = storage_nodes db"
  by (simp_all add: delete_chunks_def Let_def)

lemma delete_chunks_replicas:
  "chunk_replicas (delete_chunks P db) = sql_delete (\<lambda>r. r_chunk r \<in> c_id ` {c \<in> set (chunks db). P c}) (chunk_replicas db)"
  by (simp add: delete_chunks_def Let_def)

lemma complete_ok_delete:
  assumes "complete_ok os (owned cs)"
    and "\<And>ob c. ob \<in> set os' \<Longrightarrow> o_state ob = ObjectComplete \<Longrightarrow> c \<in> set cs \<Longrightarrow> c_object_id c = Some (o_id ob) \<Longrightarrow> \<not> P c"
    and "set os' \<subseteq> set os"
  shows "complete_ok os' (owned (sql_delete P cs))"
proof -
  have "owned (sql_delete P cs) (o_id ob) = owned cs (o_id ob)" if "ob \<in> set os'" "o_state ob = ObjectComplete" for ob
    unfolding owned_def chunks_of_object_def sql_delete_def filter_filter
    by (rule arg_cong [where f = "map c_state"], rule filter_cong) (use assms(2) [OF that] in auto)
  with assms(1,3) show ?thesis by (auto simp: complete_ok_def)
qed

text \<open>Deleting chunks that no complete object owns, and objects that are not complete.\<close>

lemma ok_delete_chunks:
  assumes ok: "store_ok db"
    and "\<And>ob c. ob \<in> set (objects db) \<Longrightarrow> o_state ob = ObjectComplete \<Longrightarrow> c \<in> set (chunks db) \<Longrightarrow>
          c_object_id c = Some (o_id ob) \<Longrightarrow> \<not> P c"
  shows "store_ok (delete_chunks P db)"
proof (rule store_okI)
  show "wf_db (delete_chunks P db)" using store_okD(1) [OF ok] by (rule wf_delete_chunks)
  show "deletions_tracked (delete_chunks P db)"
    using store_okD(2) [OF ok] by (simp add: delete_chunks_replicas tracked_delete)
  show "completed_full (delete_chunks P db)"
    using complete_ok_delete [OF store_okD(3) [OF ok], of "objects db" P] assms(2) by simp
qed

lemma ok_delete_objects:
  assumes ok: "store_ok db" and P: "\<And>ob. ob \<in> set (objects db) \<Longrightarrow> P ob \<Longrightarrow> o_state ob \<noteq> ObjectComplete"
  shows "store_ok (delete_objects P db)"
proof (rule store_okI)
  show "wf_db (delete_objects P db)" using store_okD(1) [OF ok] by (rule wf_delete_objects)
  show "deletions_tracked (delete_objects P db)"
    using store_okD(2) [OF ok] by (simp add: delete_objects_def Let_def delete_chunks_replicas tracked_delete)
  have "o_id ob \<notin> o_id ` {x \<in> set (objects db). P x}" if "ob \<in> set (objects db)" "\<not> P ob" for ob
    using that wf_object_unique [OF store_okD(1) [OF ok] that(1)] by auto
  then have "complete_ok (sql_delete P (objects db))
      (owned (sql_delete (\<lambda>c. c_object_id c \<in> Some ` o_id ` {x \<in> set (objects db). P x}) (chunks db)))"
    by (intro complete_ok_delete [OF store_okD(3) [OF ok]]) auto
  then show "completed_full (delete_objects P db)" by (simp add: delete_objects_def Let_def)
qed

lemma ok_delete_uploads:
  assumes ok: "store_ok db"
  shows "store_ok (delete_uploads P db)"
proof (rule store_okI)
  show "wf_db (delete_uploads P db)" using store_okD(1) [OF ok] by (rule wf_delete_uploads)
  show "deletions_tracked (delete_uploads P db)"
    using store_okD(2) [OF ok] by (simp add: delete_uploads_def Let_def delete_chunks_replicas tracked_delete)
  have "c_part_id c = None" if "c \<in> set (chunks db)" "c_object_id c = Some i" for c i
    using that store_okD(1) [OF ok] by (auto simp: wf_db_def positions_ok_def)
  then have "complete_ok (objects db) (owned (sql_delete (\<lambda>c. c_part_id c \<in> Some ` Y) (chunks db)))" for Y
    by (intro complete_ok_delete [OF store_okD(3) [OF ok]]) auto
  then show "completed_full (delete_uploads P db)" by (simp add: delete_uploads_def Let_def)
qed

lemma ok_PurgeCompletedMultipartUploads [ok_intros]:
  "store_ok db \<Longrightarrow> store_ok (snd (PurgeCompletedMultipartUploads olderThan limit now db))"
  by (simp add: PurgeCompletedMultipartUploads_def Let_def ok_delete_uploads)


lemma limited_keys:
  assumes "distinct (map k rows)" "r \<in> set rows"
  shows "k r \<in> set (map k (sql_limit n (filter Q rows))) \<Longrightarrow> Q r"
    and "Q r \<Longrightarrow> int (length rows) \<le> n \<Longrightarrow> k r \<in> set (map k (sql_limit n (filter Q rows)))"
proof -
  assume "k r \<in> set (map k (sql_limit n (filter Q rows)))"
  then obtain r' where "r' \<in> set rows" "Q r'" "k r' = k r"
    using set_sql_limit [of n "filter Q rows"] by auto
  then show "Q r" using distinct_map_unique [OF assms] by metis
next
  assume q: "Q r" and n: "int (length rows) \<le> n"
  have "length (filter Q rows) \<le> nat n" using length_filter_le [of Q rows] n by linarith
  then have "sql_limit n (filter Q rows) = filter Q rows" by (simp add: sql_limit_def)
  with q show "k r \<in> set (map k (sql_limit n (filter Q rows)))" using assms(2) by simp
qed

text \<open>What a purge deletes: reclaimed chunks, then objects that are reclaimed by then.\<close>

lemma PurgeReclaimedChunks_eq:
  assumes wf: "wf_db db"
  obtains C B where
    "PurgeReclaimedChunks limit db = (Inr (int (sql_count C (chunks db)), int (sql_count B (objects db))),
       delete_objects B (delete_chunks C db))"
    "\<forall>c \<in> set (chunks db). C c \<longrightarrow> reclaimed_chunk db c"
    "\<forall>ob \<in> set (objects db). B ob \<longrightarrow> reclaimed_object (delete_chunks C db) ob"
    "int (length (chunks db)) \<le> limit \<longrightarrow> (\<forall>c \<in> set (chunks db). reclaimed_chunk db c \<longrightarrow> C c)"
    "int (length (objects db)) \<le> limit \<longrightarrow> (\<forall>ob \<in> set (objects db). reclaimed_object (delete_chunks C db) ob \<longrightarrow> B ob)"
proof -
  define C :: "chunk_row \<Rightarrow> bool" where "C = (\<lambda>c. c_id c \<in> set (map c_id (sql_limit limit (filter (reclaimed_chunk db) (chunks db)))))"
  define B :: "object_row \<Rightarrow> bool" where
    "B = (\<lambda>ob. o_id ob \<in> set (map o_id (sql_limit limit (filter (reclaimed_object (delete_chunks C db)) (objects db)))))"
  have d: "distinct (map c_id (chunks db))" "distinct (map o_id (objects db))"
    using wf by (simp_all add: wf_db_def positions_ok_def objects_ok_def)
  show ?thesis
  proof (rule that)
    show "PurgeReclaimedChunks limit db = (Inr (int (sql_count C (chunks db)), int (sql_count B (objects db))),
       delete_objects B (delete_chunks C db))"
      by (simp add: PurgeReclaimedChunks_def inTx_def Let_def C_def B_def)
    show "\<forall>c \<in> set (chunks db). C c \<longrightarrow> reclaimed_chunk db c"
      unfolding C_def using limited_keys(1) [OF d(1)] by blast
    show "\<forall>ob \<in> set (objects db). B ob \<longrightarrow> reclaimed_object (delete_chunks C db) ob"
      unfolding B_def using limited_keys(1) [OF d(2)] by blast
    show "int (length (chunks db)) \<le> limit \<longrightarrow> (\<forall>c \<in> set (chunks db). reclaimed_chunk db c \<longrightarrow> C c)"
      unfolding C_def using limited_keys(2) [OF d(1)] by blast
    show "int (length (objects db)) \<le> limit \<longrightarrow> (\<forall>ob \<in> set (objects db). reclaimed_object (delete_chunks C db) ob \<longrightarrow> B ob)"
      unfolding B_def using limited_keys(2) [OF d(2)] by blast
  qed
qed

lemma purge_frame:
  assumes wf: "wf_db db"
    and C: "\<forall>c \<in> set (chunks db). C c \<longrightarrow> reclaimed_chunk db c"
    and B: "\<forall>ob \<in> set (objects db). B ob \<longrightarrow> reclaimed_object (delete_chunks C db) ob"
  shows "chunk_replicas (delete_chunks C db) = chunk_replicas db"
    and "chunk_replicas (delete_objects B (delete_chunks C db)) = chunk_replicas db"
    and "chunk_deletions (delete_objects B (delete_chunks C db)) = chunk_deletions db"
    and "objects (delete_objects B (delete_chunks C db)) = sql_delete B (objects db)"
    and "chunks (delete_objects B (delete_chunks C db)) =
          filter (\<lambda>c. \<not> C c \<and> c_object_id c \<notin> Some ` o_id ` {ob \<in> set (objects db). B ob}) (chunks db)"
    and "storage_nodes (delete_objects B (delete_chunks C db)) = storage_nodes db"
proof -
  have id: "sql_delete Q rows = rows" if "\<And>r. r \<in> set rows \<Longrightarrow> \<not> Q r" for Q and rows :: "'r list"
    using that by (simp add: sql_delete_def filter_id_conv)
  show r: "chunk_replicas (delete_chunks C db) = chunk_replicas db"
    unfolding delete_chunks_replicas by (rule id) (use C in \<open>auto simp: reclaimed_chunk_def\<close>)
  have "chunk_replicas (delete_objects B (delete_chunks C db))
      = sql_delete (\<lambda>r. r_chunk r \<in> c_id ` {c \<in> set (chunks db). \<not> C c \<and> c_object_id c \<in> Some ` o_id ` {ob \<in> set (objects db). B ob}})
          (chunk_replicas db)"
    by (simp add: delete_objects_def Let_def delete_chunks_replicas [of _ "_\<lparr>objects := _, multipart_uploads := _\<rparr>"] r conj_assoc)
  also have "\<dots> = chunk_replicas db"
    by (rule id) (use B in \<open>auto simp: reclaimed_object_def r\<close>)
  finally show "chunk_replicas (delete_objects B (delete_chunks C db)) = chunk_replicas db" .
qed (simp_all add: delete_objects_def Let_def sql_delete_def conj_commute)


lemma complete_committed:
  "completed_full db \<Longrightarrow> ob \<in> set (objects db) \<Longrightarrow> o_state ob = ObjectComplete \<Longrightarrow> c \<in> set (chunks db) \<Longrightarrow>
   c_object_id c = Some (o_id ob) \<Longrightarrow> c_state c = ChunkCommitted"
  by (auto simp: complete_ok_def owned_def chunks_of_object_def)

lemma ok_PurgeReclaimedChunks [ok_intros]:
  assumes ok: "store_ok db"
  shows "store_ok (snd (PurgeReclaimedChunks limit db))"
proof -
  note wf = store_okD(1) [OF ok]
  obtain C B where eq: "PurgeReclaimedChunks limit db = (Inr (int (sql_count C (chunks db)), int (sql_count B (objects db))),
       delete_objects B (delete_chunks C db))"
    and C: "\<forall>c \<in> set (chunks db). C c \<longrightarrow> reclaimed_chunk db c"
    and B: "\<forall>ob \<in> set (objects db). B ob \<longrightarrow> reclaimed_object (delete_chunks C db) ob"
    by (rule PurgeReclaimedChunks_eq [OF wf, of limit])
  have "\<not> C c" if "ob \<in> set (objects db)" "o_state ob = ObjectComplete" "c \<in> set (chunks db)"
      "c_object_id c = Some (o_id ob)" for ob c
    using complete_committed [OF store_okD(3) [OF ok] that] C that(3) by (auto simp: reclaimed_chunk_def)
  then have "store_ok (delete_chunks C db)" by (rule ok_delete_chunks [OF ok])
  then have "store_ok (delete_objects B (delete_chunks C db))"
    by (rule ok_delete_objects) (use B in \<open>auto simp: reclaimed_object_def\<close>)
  then show ?thesis by (simp add: eq)
qed

lemma ChunksForObject_frame:
  assumes "filter (\<lambda>c. c_object_id c = Some oid) (chunks db') = filter (\<lambda>c. c_object_id c = Some oid) (chunks db)"
    and "chunk_replicas db' = chunk_replicas db" "storage_nodes db' = storage_nodes db"
  shows "ChunksForObject oid a db' = ChunksForObject oid a db"
proof -
  have split: "filter (\<lambda>c. c_object_id c = Some oid \<and> c_state c = ChunkCommitted) (chunks x)
      = filter (\<lambda>c. c_state c = ChunkCommitted) (filter (\<lambda>c. c_object_id c = Some oid) (chunks x))" for x
    by (simp add: conj_commute)
  show ?thesis unfolding ChunksForObject_def chunksWhere_def join_rows_def assms(2,3) split assms(1) by (rule refl)
qed

text \<open>
  C16 (purging). A purge removes no replica and no pending deletion, so that no bytes are
  forgotten, and no reader of any key notices it. If the batch is large enough, no row that
  satisfies the purge conditions is left.
\<close>

theorem purge_safe:
  assumes ok: "store_ok db" and eq: "PurgeReclaimedChunks limit db = (res, db')"
  shows "chunk_replicas db' = chunk_replicas db \<and> chunk_deletions db' = chunk_deletions db
    \<and> (\<forall>b k. GetObject b k db' = GetObject b k db)
    \<and> (int (length (chunks db)) \<le> limit \<and> int (length (objects db)) \<le> limit \<longrightarrow>
        filter (reclaimed_chunk db') (chunks db') = [] \<and> filter (reclaimed_object db') (objects db') = [])"
proof -
  note wf = store_okD(1) [OF ok]
  obtain C B where "PurgeReclaimedChunks limit db = (Inr (int (sql_count C (chunks db)), int (sql_count B (objects db))),
       delete_objects B (delete_chunks C db))"
    and C: "\<forall>c \<in> set (chunks db). C c \<longrightarrow> reclaimed_chunk db c"
    and B: "\<forall>ob \<in> set (objects db). B ob \<longrightarrow> reclaimed_object (delete_chunks C db) ob"
    and allC: "int (length (chunks db)) \<le> limit \<longrightarrow> (\<forall>c \<in> set (chunks db). reclaimed_chunk db c \<longrightarrow> C c)"
    and allB: "int (length (objects db)) \<le> limit \<longrightarrow> (\<forall>ob \<in> set (objects db). reclaimed_object (delete_chunks C db) ob \<longrightarrow> B ob)"
    by (rule PurgeReclaimedChunks_eq [OF wf, of limit])
  then have db': "db' = delete_objects B (delete_chunks C db)" using eq by simp
  note fr = purge_frame [OF wf C B, folded db']
  have wf': "wf_db db'" using store_okD(1) [OF ok_PurgeReclaimedChunks [OF ok, of limit]] eq by simp
  have B': "o_state ob \<noteq> ObjectComplete" if "ob \<in> set (objects db)" "B ob" for ob
    using bspec [OF B that(1)] that(2) by (auto simp: reclaimed_object_def)
  have head: "HeadObject b k db' = HeadObject b k db" for b k
    by (rule HeadObject_cong [OF wf wf']) (use B' in \<open>auto simp: fr(4)\<close>)
  have get: "GetObject b k db' = GetObject b k db" for b k
  proof (cases "HeadObject b k db")
    case (Inr obj)
    then obtain ob where ob: "ob \<in> set (objects db)" "is_current b k ob" "obj = scanObject ob"
      unfolding HeadObject_iff(1) [OF wf] by blast
    have "\<not> B x" if "x \<in> set (objects db)" "o_id x = o_id ob" for x
      using wf_object_unique [OF wf that(1) ob(1) that(2)] B' ob(1,2) by fast
    then have "\<not> C c \<and> c_object_id c \<notin> Some ` o_id ` {ob \<in> set (objects db). B ob}"
      if "c \<in> set (chunks db)" "c_object_id c = Some (o_id ob)" for c
      using complete_committed [OF store_okD(3) [OF ok] ob(1) _ that] that C ob(2)
      by (auto simp: reclaimed_chunk_def)
    then have "filter (\<lambda>c. c_object_id c = Some (o_id ob)) (chunks db') = filter (\<lambda>c. c_object_id c = Some (o_id ob)) (chunks db)"
      unfolding fr(5) filter_filter by (intro filter_cong refl) blast
    from ChunksForObject_frame [OF this fr(2,6)] show ?thesis
      by (simp add: GetObject_def head Inr) (simp add: ob(3) scanObject_def)
  qed (simp add: GetObject_def head)
  have "\<not> reclaimed_object db' ob" if "ob \<in> set (objects db)" "\<not> B ob" "\<not> reclaimed_object (delete_chunks C db) ob" for ob
  proof -
    have "o_id ob \<notin> o_id ` {ob \<in> set (objects db). B ob}" using wf_object_unique [OF wf that(1)] that(2) by auto
    then have "c \<in> set (chunks db') \<longleftrightarrow> c \<in> set (chunks (delete_chunks C db))" if "c_object_id c = Some (o_id ob)" for c
      using that by (auto simp: fr(5))
    then show ?thesis using that(3) by (auto simp: reclaimed_object_def fr(1,2,3))
  qed
  then have "filter (reclaimed_object db') (objects db') = []" if "int (length (objects db)) \<le> limit"
    using that allB by (auto simp: filter_empty_conv fr(4))
  moreover have "filter (reclaimed_chunk db') (chunks db') = []" if "int (length (chunks db)) \<le> limit"
    using that allC by (auto simp: filter_empty_conv fr(5) reclaimed_chunk_def fr(2,3))
  ultimately show ?thesis using fr(2,3) get by blast
qed


section \<open>Reclaiming an object\<close>

text \<open>Every listed deletion is carried out by its node and reported as finished.\<close>

definition finish_deletions :: "deletion_row list \<Rightarrow> db \<Rightarrow> db" where
  "finish_deletions ds db = fold (\<lambda>d db. snd (FinishDeletion (d_id d) (d_chunk d) (d_node d) db)) ds db"

lemma FinishDeletion_frame:
  assumes "db' = snd (FinishDeletion i cid nid db)"
  shows "chunk_deletions db' = sql_delete (\<lambda>d. d_id d = i) (chunk_deletions db)"
    and "chunk_replicas db' = sql_delete (\<lambda>r. r_chunk r = cid \<and> r_node r = nid) (chunk_replicas db)"
    and "objects db' = objects db" and "map uncounted (chunks db') = map uncounted (chunks db)"
  unfolding assms by (simp_all add: FinishDeletion_def inTx_def Let_def)

lemma finish_deletions_frame:
  "set (chunk_deletions (finish_deletions ds db)) = {d \<in> set (chunk_deletions db). d_id d \<notin> d_id ` set ds}"
  "set (chunk_replicas (finish_deletions ds db)) =
     {r \<in> set (chunk_replicas db). (r_chunk r, r_node r) \<notin> (\<lambda>d. (d_chunk d, d_node d)) ` set ds}"
  "objects (finish_deletions ds db) = objects db"
  "map uncounted (chunks (finish_deletions ds db)) = map uncounted (chunks db)"
  unfolding finish_deletions_def
  by (induction ds arbitrary: db) (auto simp: FinishDeletion_frame [OF refl])

lemma ok_finish_deletions:
  assumes "store_ok db" "\<forall>d \<in> set ds. \<forall>d' \<in> set (chunk_deletions db). d_id d' = d_id d \<longrightarrow> d_chunk d' = d_chunk d \<and> d_node d' = d_node d"
  shows "store_ok (finish_deletions ds db)"
  using assms
proof (induction ds arbitrary: db)
  case (Cons d ds)
  let ?db = "snd (FinishDeletion (d_id d) (d_chunk d) (d_node d) db)"
  have "store_ok ?db" using Cons.prems by (intro ok_FinishDeletion) auto
  moreover have "\<forall>d \<in> set ds. \<forall>d' \<in> set (chunk_deletions ?db). d_id d' = d_id d \<longrightarrow> d_chunk d' = d_chunk d \<and> d_node d' = d_node d"
    using Cons.prems(2) by (simp add: FinishDeletion_frame(1) [OF refl])
  ultimately have "store_ok (finish_deletions ds ?db)" by (rule Cons.IH)
  then show ?case by (simp add: finish_deletions_def)
qed (simp add: finish_deletions_def)

lemma ok_finish_all: "store_ok db \<Longrightarrow> store_ok (finish_deletions (chunk_deletions db) db)"
  using wf_deletion_unique [OF store_okD(1)] by (intro ok_finish_deletions) blast+



definition ex_deleted :: db where
  "ex_deleted = snd (DeleteObject ''b'' ''k'' 9 ex_db)"

lemma ok_ex_db: "store_ok ex_db"
  by (rule store_okI [OF wf_ex_db tracked_ex_db full_ex_db])

lemma ok_ex_deleted: "store_ok ex_deleted"
  unfolding ex_deleted_def
  by (rule store_okI) (auto intro: wf_DeleteObject tracked_objects full_intros wf_ex_db tracked_ex_db full_ex_db)


lemma purge_safe_witness:
  "\<exists>db'. PurgeReclaimedChunks 5 (finish_deletions (chunk_deletions ex_deleted) ex_deleted) = (Inr (0, 1), db')
     \<and> GetObject ''b'' ''k'' db' = GetObject ''b'' ''k'' (finish_deletions (chunk_deletions ex_deleted) ex_deleted)
     \<and> filter (reclaimed_object db') (objects db') = []"
proof -
  let ?db = "finish_deletions (chunk_deletions ex_deleted) ex_deleted"
  have "fst (PurgeReclaimedChunks 5 ?db) = Inr (0, 1) \<and> length (chunks ?db) = 2 \<and> length (objects ?db) = 2" by code_simp
  moreover from this obtain db' where eq: "PurgeReclaimedChunks 5 ?db = (Inr (0, 1), db')" by (metis prod.collapse)
  ultimately show ?thesis using purge_safe [OF ok_finish_all [OF ok_ex_deleted] eq] by auto
qed


section \<open>Working off the queue\<close>

lemma claimed_ids:
  assumes "ClaimDeletions limit lease now db = (ps, db')"
  shows "set (map pd_ID ps) \<subseteq> set (due_deletions limit now db)"
    and "\<And>d. d \<in> set (chunk_deletions db') \<Longrightarrow> d_id d \<in> set (due_deletions limit now db) \<Longrightarrow> d_next d = now + lease"
    and "queued db' = queued db" "d_id ` set (chunk_deletions db') = d_id ` set (chunk_deletions db)"
proof -
  have db': "chunk_deletions db' = sql_update (\<lambda>d. d_id d \<in> set (due_deletions limit now db)) (lease_deletion lease now) (chunk_deletions db)"
    using assms by (auto simp: ClaimDeletions_def Let_def)
  show "set (map pd_ID ps) \<subseteq> set (due_deletions limit now db)"
    using assms by (auto simp: ClaimDeletions_def Let_def scan_deletion_def)
  show "d_next d = now + lease" if "d \<in> set (chunk_deletions db')" "d_id d \<in> set (due_deletions limit now db)" for d
    using that unfolding db' by (auto simp: lease_deletion_def elim!: in_sql_updateE)
  show "queued db' = queued db" "d_id ` set (chunk_deletions db') = d_id ` set (chunk_deletions db)"
    unfolding db' by (simp_all add: lease_deletion_def)
qed

text \<open>
  C32 (deletion leases). Deletions that a garbage collector has claimed are not handed out again
  before the lease has run out, and claiming never takes a deletion off the queue. If the claimant
  dies, a deletion is due again when the lease has run out.
\<close>

theorem claim_deletions_leased:
  assumes c: "ClaimDeletions limit lease now db = (ps, db')" and c': "ClaimDeletions limit' lease' now' db' = (ps', db'')"
  shows "(now' < now + lease \<longrightarrow> set (map pd_ID ps) \<inter> set (map pd_ID ps') = {})
    \<and> queued db'' = queued db
    \<and> (now + lease \<le> now' \<and> int (length (chunk_deletions db')) \<le> limit' \<longrightarrow> set (map pd_ID ps) \<subseteq> set (map pd_ID ps'))"
proof -
  have "set (due_deletions limit' now' db') \<subseteq> d_id ` {d \<in> set (chunk_deletions db'). d_next d \<le> now'}"
    unfolding due_deletions_def set_map by (rule image_mono) (auto simp: sql_limit_def dest!: in_set_takeD)
  then have due: "\<exists>d \<in> set (chunk_deletions db'). d_id d = i \<and> d_next d \<le> now'" if "i \<in> set (map pd_ID ps')" for i
    using subsetD [OF claimed_ids(1) [OF c'] that] by blast
  have "set (map pd_ID ps) \<inter> set (map pd_ID ps') = {}" if "now' < now + lease"
    using due claimed_ids(1,2) [OF c] that by fastforce
  moreover have "i \<in> set (map pd_ID ps')"
    if i: "i \<in> set (map pd_ID ps)" and t: "now + lease \<le> now'" and n: "int (length (chunk_deletions db')) \<le> limit'" for i
  proof -
    have "i \<in> set (due_deletions limit now db)" using claimed_ids(1) [OF c] i by blast
    moreover from this have "i \<in> d_id ` set (chunk_deletions db')"
      unfolding claimed_ids(4) [OF c] due_deletions_def by (auto simp: sql_limit_def dest!: in_set_takeD)
    ultimately obtain d where d: "d \<in> set (chunk_deletions db')" "d_id d = i" "d_next d \<le> now'"
      using claimed_ids(2) [OF c] t by auto
    have "length (filter (\<lambda>d. d_next d \<le> now') (chunk_deletions db')) \<le> nat limit'"
      using length_filter_le [of "\<lambda>d. d_next d \<le> now'" "chunk_deletions db'"] n by linarith
    then have "i \<in> set (due_deletions limit' now' db')" using d by (auto simp: due_deletions_def sql_limit_def)
    moreover have "i \<in> d_id ` set (chunk_deletions db'')" using claimed_ids(4) [OF c'] d(1,2) by auto
    ultimately show ?thesis using c' by (auto simp: ClaimDeletions_def Let_def scan_deletion_def image_image)
  qed
  ultimately show ?thesis using claimed_ids(3) [OF c] claimed_ids(3) [OF c'] by auto
qed

lemma claim_deletions_leased_witness:
  "\<exists>ps db1 ps' db2 ps'' db3. ClaimDeletions 1 60 10 ex_deleted = (ps, db1) \<and> map pd_ID ps = [1]
     \<and> ClaimDeletions 5 60 20 db1 = (ps', db2) \<and> ps' \<noteq> [] \<and> 1 \<notin> set (map pd_ID ps')
     \<and> ClaimDeletions 5 60 70 db1 = (ps'', db3) \<and> 1 \<in> set (map pd_ID ps'')"
proof -
  define db1 where "db1 = snd (ClaimDeletions 1 60 10 ex_deleted)"
  have ids: "map pd_ID (fst (ClaimDeletions 1 60 10 ex_deleted)) = [1]" "fst (ClaimDeletions 5 60 20 db1) \<noteq> []"
      "length (chunk_deletions db1) = 2"
    unfolding db1_def by code_simp+
  obtain ps where ps: "ClaimDeletions 1 60 10 ex_deleted = (ps, db1)" unfolding db1_def by (metis prod.collapse)
  obtain ps' db2 where ps': "ClaimDeletions 5 60 20 db1 = (ps', db2)" by (metis surj_pair)
  obtain ps'' db3 where ps'': "ClaimDeletions 5 60 70 db1 = (ps'', db3)" by (metis surj_pair)
  show ?thesis
    using claim_deletions_leased [OF ps ps'] claim_deletions_leased [OF ps ps''] ids ps ps' ps'' by auto
qed


text \<open>
  C33 (failed deletions). A failed deletion is tried again after the backoff while it has attempts
  left; nothing else changes. After the last attempt the row is dropped, and with it the replica
  row if it is still DELETING: a replica in another state is never forgotten that way.
\<close>

theorem fail_deletion_effect:
  assumes wf: "wf_db db" and d: "d \<in> set (chunk_deletions db)" "d_id d = i"
    and eq: "FailDeletion i cause backoff maxAttempts now db = (res, db')"
  shows "res = Inr () \<and>
    (if d_attempts d < maxAttempts
     then chunk_replicas db' = chunk_replicas db \<and> queued db' = queued db
        \<and> d\<lparr>d_last_error := Some (truncate_string cause 500), d_next := now + backoff\<rparr> \<in> set (chunk_deletions db')
     else set (chunk_deletions db') = set (chunk_deletions db) - {d}
        \<and> set (chunk_replicas db') = {r \<in> set (chunk_replicas db).
             \<not> (r_chunk r = d_chunk d \<and> r_node r = d_node d \<and> r_state r = ReplicaDeleting)})"
proof (cases rule: FailDeletion_cases [where db = db and i = i and m = maxAttempts and cause = cause and backoff = backoff and now = now])
  case (1 d')
  have "d' = d" by (rule wf_deletion_unique [OF wf 1(1) d(1)]) (simp add: 1(2) d(2))
  with 1(3) have a: "d_attempts d \<ge> maxAttempts" by simp
  have "(d_id x = i \<and> maxAttempts \<le> d_attempts x) \<longleftrightarrow> x = d" if "x \<in> set (chunk_deletions db)" for x
    using wf_deletion_unique [OF wf that d(1)] d(2) a by (cases "x = d") auto
  then have "set (sql_delete (\<lambda>d. d_id d = i \<and> maxAttempts \<le> d_attempts d) (chunk_deletions db)) = set (chunk_deletions db) - {d}"
    by auto
  moreover have "res = Inr ()" and "db' = (delete_replicas (\<lambda>r. r_chunk r = d_chunk d \<and> r_node r = d_node d \<and> r_state r = ReplicaDeleting) db)
      \<lparr>chunk_deletions := sql_delete (\<lambda>d. d_id d = i \<and> maxAttempts \<le> d_attempts d) (chunk_deletions db)\<rparr>"
    using eq 1(4) \<open>d' = d\<close> by (simp_all add: delete_replicas_deletions)
  ultimately show ?thesis using a by simp
next
  case 2
  let ?f = "\<lambda>d. d\<lparr>d_last_error := Some (truncate_string cause 500), d_next := now + backoff\<rparr>"
  have "res = Inr ()" and db': "db' = db\<lparr>chunk_deletions := sql_update (\<lambda>d. d_id d = i) ?f (chunk_deletions db)\<rparr>"
    using eq 2(2) by simp_all
  moreover have "?f d \<in> set (chunk_deletions db')"
    unfolding db' using in_sql_updateI(1) [OF d(1), of "\<lambda>d. d_id d = i" ?f] d(2) by simp
  ultimately show ?thesis using 2(1) d by simp
qed

lemma fail_deletion_effect_witness:
  "\<exists>d db' db''. chunk_deletions ex_deleted ! 0 = d
     \<and> FailDeletion (d_id d) ''timeout'' 30 5 10 ex_deleted = (Inr (), db') \<and> queued db' = queued ex_deleted
     \<and> FailDeletion (d_id d) ''timeout'' 30 0 10 ex_deleted = (Inr (), db'')
     \<and> set (chunk_deletions db'') = set (chunk_deletions ex_deleted) - {d}"
proof -
  define d where "d = chunk_deletions ex_deleted ! 0"
  have "length (chunk_deletions ex_deleted) = 2 \<and> d_attempts (chunk_deletions ex_deleted ! 0) = 0" by code_simp
  then have d: "d \<in> set (chunk_deletions ex_deleted)" "d_attempts d = 0" by (simp_all add: d_def)
  obtain r1 db1 where 1: "FailDeletion (d_id d) ''timeout'' 30 5 10 ex_deleted = (r1, db1)" by (metis surj_pair)
  obtain r2 db2 where 2: "FailDeletion (d_id d) ''timeout'' 30 0 10 ex_deleted = (r2, db2)" by (metis surj_pair)
  show ?thesis
    using fail_deletion_effect [OF store_okD(1) [OF ok_ex_deleted] d(1) refl 1]
      fail_deletion_effect [OF store_okD(1) [OF ok_ex_deleted] d(1) refl 2] d(2) 1 2
    by (auto simp: d_def)
qed

end
