(* ===== verification/Metadata_Reconcile.thy ===== *)
theory Metadata_Reconcile
  imports Metadata_GC
begin

text \<open>
  \<^verbatim>\<open>internal/metadata/reconcile.go\<close>: what happens to the replicas of a node that comes back. They
  are STALE until the reconciler has verified them; files nobody knows are queued for deletion
  under two guards.
\<close>

section \<open>Stale replicas\<close>

definition MarkReplicasStaleOnNode :: "node_id \<Rightarrow> time \<Rightarrow> db \<Rightarrow> int \<times> db" where
  "MarkReplicasStaleOnNode nodeID now db =
     (let P = (\<lambda>r. r_node r = nodeID \<and> r_state r = ReplicaUnavailable)
      in (int (sql_count P (chunk_replicas db)), update_replicas P (set_replica_state ReplicaStale now) db))"

definition NodesWithStaleReplicas :: "int \<Rightarrow> db \<Rightarrow> node_id list" where
  "NodesWithStaleReplicas limit db =
     sql_limit limit (sort (remdups (map r_node (filter (\<lambda>r. r_state r = ReplicaStale
       \<and> sql_exists (\<lambda>n. n_id n = r_node r \<and> n_health n = StateHealthy) (storage_nodes db)) (chunk_replicas db)))))"

record StaleReplica =
  sr_ChunkID :: uuid
  sr_Checksum :: string
  sr_Size :: int

definition StaleReplicasOnNode :: "node_id \<Rightarrow> uuid \<Rightarrow> int \<Rightarrow> db \<Rightarrow> StaleReplica list" where
  "StaleReplicasOnNode nodeID after limit db =
     map (\<lambda>c. \<lparr>sr_ChunkID = c_id c, sr_Checksum = nullString (c_checksum c), sr_Size = c_size c\<rparr>)
       (sql_limit limit (sort_key c_id (filter (\<lambda>c. c_id c > after
          \<and> sql_exists (\<lambda>r. r_chunk r = c_id c \<and> r_node r = nodeID \<and> r_state r = ReplicaStale) (chunk_replicas db))
         (chunks db))))"

definition PromoteVerifiedReplica :: "uuid \<Rightarrow> node_id \<Rightarrow> time \<Rightarrow> db \<Rightarrow> bool \<times> db" where
  "PromoteVerifiedReplica chunkID nodeID now db =
     (let P = (\<lambda>r. r_chunk r = chunkID \<and> r_node r = nodeID \<and> r_state r = ReplicaStale)
      in (sql_count P (chunk_replicas db) > 0,
          update_replicas P (\<lambda>r. r\<lparr>r_state := ReplicaAvailable, r_updated := now, r_verified := Some now,
                                  r_last_error := None\<rparr>) db))"

definition ChunkIDsKnownOnNode :: "node_id \<Rightarrow> db \<Rightarrow> uuid \<Rightarrow> replica_state option" where
  "ChunkIDsKnownOnNode nodeID db cid =
     map_option r_state (find (\<lambda>r. r_chunk r = cid \<and> r_node r = nodeID) (chunk_replicas db))"

definition QueueOrphanDeletion :: "uuid \<Rightarrow> node_id \<Rightarrow> time \<Rightarrow> db \<Rightarrow> bool \<times> db" where
  "QueueOrphanDeletion chunkID nodeID now db =
     (if \<not> sql_exists (\<lambda>r. r_chunk r = chunkID \<and> r_node r = nodeID) (chunk_replicas db)
         \<and> \<not> sql_exists (\<lambda>c. c_id c = chunkID \<and> c_state c = ChunkPending) (chunks db)
      then (\<not> sql_exists (\<lambda>d. (d_chunk d, d_node d) = (chunkID, nodeID)) (chunk_deletions db),
            insert_deletions now [(chunkID, nodeID)] db)
      else (False, db))"

section \<open>Reconciliation jobs\<close>

definition new_recon :: "int \<Rightarrow> node_id \<Rightarrow> time \<Rightarrow> recon_row" where
  "new_recon i nodeID now = \<lparr>q_id = i, q_node = nodeID, q_state = JobPending, q_seen = 0, q_orphans = 0,
     q_phantoms = 0, q_verified = 0, q_corrupt = 0, q_last_error = None, q_owner = None, q_lease = None,
     q_created = now, q_updated = now, q_finished = None\<rparr>"

definition EnqueueReconcile :: "node_id \<Rightarrow> time \<Rightarrow> db \<Rightarrow> (db_error + bool) \<times> db" where
  "EnqueueReconcile nodeID now = inTx (\<lambda>db.
     if sql_exists (\<lambda>q. q_node q = nodeID \<and> active (q_state q)) (node_reconciliations db)
     then Inr (False, db\<lparr>seq_recons := seq_recons db + 1\<rparr>)
     else if \<not> sql_exists (\<lambda>n. n_id n = nodeID) (storage_nodes db) then Inl ForeignKeyViolation
     else Inr (True, db\<lparr>seq_recons := seq_recons db + 1,
            node_reconciliations := node_reconciliations db @ [new_recon (seq_recons db) nodeID now]\<rparr>))"

definition ReclaimExpiredReconcileLeases :: "time \<Rightarrow> db \<Rightarrow> int \<times> db" where
  "ReclaimExpiredReconcileLeases now db =
     (let P = (\<lambda>q. q_state q = JobRunning \<and> lapsed now (q_lease q))
      in (int (sql_count P (node_reconciliations db)),
          db\<lparr>node_reconciliations := sql_update P
               (\<lambda>q. q\<lparr>q_state := JobPending, q_owner := None, q_lease := None, q_updated := now\<rparr>)
               (node_reconciliations db)\<rparr>))"

record ReconcileJob =
  rj_ID :: int
  rj_NodeID :: node_id
  rj_State :: job_state
  rj_Address :: string
  rj_CreatedAt :: time

definition due_recons :: "db \<Rightarrow> recon_row list" where
  "due_recons db = sort_key (\<lambda>q. (q_created q, q_id q))
     (filter (\<lambda>q. q_state q = JobPending
        \<and> sql_exists (\<lambda>n. n_id n = q_node q \<and> n_health n = StateHealthy) (storage_nodes db)) (node_reconciliations db))"

definition claim_recon :: "string \<Rightarrow> duration \<Rightarrow> time \<Rightarrow> recon_row \<Rightarrow> recon_row" where
  "claim_recon owner lease now q = q\<lparr>q_state := JobRunning, q_owner := Some owner, q_lease := Some (now + lease),
     q_updated := now\<rparr>"

definition ClaimReconcileJob :: "string \<Rightarrow> duration \<Rightarrow> time \<Rightarrow> db \<Rightarrow> (db_error + ReconcileJob) \<times> db" where
  "ClaimReconcileJob owner lease now = inTx (\<lambda>db.
     case due_recons db of
       [] \<Rightarrow> Inl ErrNoReconcileWork
     | q0 # _ \<Rightarrow>
         let q = claim_recon owner lease now q0
         in Inr (\<lparr>rj_ID = q_id q, rj_NodeID = q_node q, rj_State = q_state q,
                  rj_Address = (case find (\<lambda>n. n_id n = q_node q) (storage_nodes db) of None \<Rightarrow> '''' | Some n \<Rightarrow> n_address n),
                  rj_CreatedAt = q_created q\<rparr>,
                 db\<lparr>node_reconciliations := sql_update (\<lambda>q. q_id q = q_id q0) (claim_recon owner lease now)
                      (node_reconciliations db)\<rparr>))"

record ReconcileResult =
  rr_ChunksSeen :: int
  rr_OrphansFound :: int
  rr_PhantomsFound :: int
  rr_Verified :: int
  rr_CorruptFound :: int

definition CompleteReconcile :: "int \<Rightarrow> ReconcileResult \<Rightarrow> time \<Rightarrow> db \<Rightarrow> db" where
  "CompleteReconcile jobID res now db =
     db\<lparr>node_reconciliations := sql_update (\<lambda>q. q_id q = jobID)
          (\<lambda>q. q\<lparr>q_state := JobSucceeded, q_owner := None, q_lease := None, q_seen := rr_ChunksSeen res,
                 q_orphans := rr_OrphansFound res, q_phantoms := rr_PhantomsFound res,
                 q_verified := rr_Verified res, q_corrupt := rr_CorruptFound res, q_last_error := None,
                 q_finished := Some now, q_updated := now\<rparr>) (node_reconciliations db)\<rparr>"

definition FailReconcile :: "int \<Rightarrow> string \<Rightarrow> time \<Rightarrow> db \<Rightarrow> db" where
  "FailReconcile jobID cause now db =
     db\<lparr>node_reconciliations := sql_update (\<lambda>q. q_id q = jobID)
          (\<lambda>q. q\<lparr>q_state := JobFailed, q_owner := None, q_lease := None,
                 q_last_error := Some (truncate_string cause 500), q_finished := Some now, q_updated := now\<rparr>)
          (node_reconciliations db)\<rparr>"

record ReconcileSummary =
  rs_NodeID :: node_id
  rs_State :: job_state
  rs_Result :: ReconcileResult
  rs_LastError :: string
  rs_CreatedAt :: time
  rs_FinishedAt :: time

definition RecentReconciliations :: "int \<Rightarrow> db \<Rightarrow> ReconcileSummary list" where
  "RecentReconciliations limit0 db =
     (let limit = (if limit0 \<le> 0 \<or> limit0 > 100 then 20 else limit0)
      in map (\<lambda>q. \<lparr>rs_NodeID = q_node q, rs_State = q_state q,
             rs_Result = \<lparr>rr_ChunksSeen = q_seen q, rr_OrphansFound = q_orphans q, rr_PhantomsFound = q_phantoms q,
                rr_Verified = q_verified q, rr_CorruptFound = q_corrupt q\<rparr>,
             rs_LastError = nullString (q_last_error q), rs_CreatedAt = q_created q,
             rs_FinishedAt = nullTime (q_finished q)\<rparr>)
           (sql_limit limit (sort_key (\<lambda>q. - q_updated q) (node_reconciliations db))))"


section \<open>The invariants\<close>

lemma ok_recons_update:
  assumes "store_ok db" "\<And>q. P q \<Longrightarrow> q_id (f q) = q_id q \<and> q_node (f q) = q_node q
          \<and> (active (q_state (f q)) \<longrightarrow> active (q_state q))"
  shows "store_ok (db\<lparr>node_reconciliations := sql_update P f (node_reconciliations db)\<rparr>)"
  using assms by (auto simp: store_ok_def intro!: wf_update_recons)

lemma wf_recon_unique:
  "wf_db db \<Longrightarrow> q \<in> set (node_reconciliations db) \<Longrightarrow> q' \<in> set (node_reconciliations db) \<Longrightarrow> q_id q = q_id q' \<Longrightarrow> q = q'"
  by (auto simp: wf_db_def recons_ok_def intro: distinct_map_unique)

lemma set_due_recons: "set (due_recons db) = {q \<in> set (node_reconciliations db). q_state q = JobPending
     \<and> (\<exists>n \<in> set (storage_nodes db). n_id n = q_node q \<and> n_health n = StateHealthy)}"
  by (simp add: due_recons_def)

lemma ClaimReconcileJob_cases:
  obtains "due_recons db = []" "ClaimReconcileJob owner lease now db = (Inl ErrNoReconcileWork, db)"
  | q0 qs t where "due_recons db = q0 # qs" "rj_ID t = q_id q0" "rj_NodeID t = q_node q0" "rj_State t = JobRunning"
      "ClaimReconcileJob owner lease now db =
        (Inr t, db\<lparr>node_reconciliations := sql_update (\<lambda>q. q_id q = q_id q0) (claim_recon owner lease now) (node_reconciliations db)\<rparr>)"
proof (cases "due_recons db")
  case Nil
  then show ?thesis using that(1) by (simp add: ClaimReconcileJob_def inTx_def)
next
  case (Cons q0 qs)
  show ?thesis
    by (rule that(2) [OF Cons]) (simp_all add: ClaimReconcileJob_def inTx_def Let_def Cons, simp_all add: claim_recon_def)
qed

lemma ok_claim_recon:
  assumes ok: "store_ok db" and q0: "q0 \<in> set (due_recons db)"
  shows "store_ok (db\<lparr>node_reconciliations := sql_update (\<lambda>q. q_id q = q_id q0) (claim_recon owner lease now) (node_reconciliations db)\<rparr>)"
proof -
  have q: "q0 \<in> set (node_reconciliations db)" "q_state q0 = JobPending" using q0 by (auto simp: set_due_recons)
  have "sql_update (\<lambda>q. q_id q = q_id q0) (claim_recon owner lease now) (node_reconciliations db)
      = sql_update (\<lambda>q. q_id q = q_id q0 \<and> q_state q = JobPending) (claim_recon owner lease now) (node_reconciliations db)"
    using wf_recon_unique [OF store_okD(1) [OF ok] _ q(1)] q(2) by (intro sql_update_cong) blast
  then show ?thesis using ok by (auto simp: claim_recon_def intro!: ok_recons_update)
qed

lemma ok_ClaimReconcileJob [ok_intros]:
  assumes "store_ok db"
  shows "store_ok (snd (ClaimReconcileJob owner lease now db))"
  by (cases rule: ClaimReconcileJob_cases [where db = db and owner = owner and lease = lease and now = now]) (use assms in \<open>auto intro!: ok_claim_recon\<close>)

lemma ok_EnqueueReconcile [ok_intros]:
  assumes "store_ok db"
  shows "store_ok (snd (EnqueueReconcile nodeID now db))"
  unfolding EnqueueReconcile_def
  by (rule inTx_ok) (use assms in \<open>auto simp: store_ok_def new_recon_def split: if_splits intro!: wf_intros\<close>)

lemma ok_reconcile_simple [ok_intros]:
  assumes "store_ok db"
  shows "store_ok (snd (MarkReplicasStaleOnNode nodeID now db))"
    "store_ok (snd (PromoteVerifiedReplica cid nodeID now db))"
    "store_ok (snd (QueueOrphanDeletion cid nodeID now db))"
    "store_ok (snd (ReclaimExpiredReconcileLeases now db))"
    "store_ok (CompleteReconcile jobID result now db)"
    "store_ok (FailReconcile jobID cause now db)"
  using assms
  by (auto simp: MarkReplicasStaleOnNode_def PromoteVerifiedReplica_def QueueOrphanDeletion_def ReclaimExpiredReconcileLeases_def
      CompleteReconcile_def FailReconcile_def Let_def set_replica_state_def simp del: insert_deletions.simps
      intro!: ok_update_replicas ok_recons_update ok_insert_deletions)


section \<open>Reconciliation jobs are leased\<close>

definition recon_held :: "recon_row \<Rightarrow> (string \<times> time option) option" where
  "recon_held q = (if q_state q = JobRunning then Some (nullString (q_owner q), q_lease q) else None)"

definition claim_reconcile :: "string \<Rightarrow> duration \<Rightarrow> time \<Rightarrow> db \<Rightarrow> int option \<times> db" where
  "claim_reconcile owner lease now db =
     (case ClaimReconcileJob owner lease now db of
        (Inl e, db') \<Rightarrow> (None, db') | (Inr t, db') \<Rightarrow> (Some (rj_ID t), db'))"

definition reclaim_reconcile :: "time \<Rightarrow> db \<Rightarrow> db" where
  "reclaim_reconcile now db = snd (ReclaimExpiredReconcileLeases now db)"

lemma claim_reconcile_cases:
  obtains "claim_reconcile owner lease now db = (None, db)"
  | q0 where "q0 \<in> set (due_recons db)"
      "claim_reconcile owner lease now db = (Some (q_id q0),
         db\<lparr>node_reconciliations := sql_update (\<lambda>q. q_id q = q_id q0) (claim_recon owner lease now) (node_reconciliations db)\<rparr>)"
proof (cases rule: ClaimReconcileJob_cases [where db = db and owner = owner and lease = lease and now = now])
  case 1
  then show ?thesis using that(1) by (simp add: claim_reconcile_def)
next
  case (2 q0 qs t)
  then show ?thesis using that(2) [of q0] by (simp add: claim_reconcile_def)
qed

lemma reclaim_expired_recon:
  assumes "q \<in> set (node_reconciliations db)" "q_state q = JobRunning" "lapsed now (q_lease q)"
  shows "\<exists>q' \<in> set (node_reconciliations (reclaim_reconcile now db)). q_id q' = q_id q \<and> q_state q' = JobPending"
proof -
  let ?f = "\<lambda>q. q\<lparr>q_state := JobPending, q_owner := None, q_lease := None, q_updated := now\<rparr>"
  have "?f q \<in> set (sql_update (\<lambda>q. q_state q = JobRunning \<and> lapsed now (q_lease q)) ?f (node_reconciliations db))"
    using assms by (intro in_sql_updateI(1)) simp_all
  then have "?f q \<in> set (node_reconciliations (reclaim_reconcile now db))"
    by (simp add: reclaim_reconcile_def ReclaimExpiredReconcileLeases_def Let_def)
  then show ?thesis by (rule rev_bexI) simp
qed

lemma claimed_recon:
  assumes "q0 \<in> set (due_recons db)"
    and "db' = db\<lparr>node_reconciliations := sql_update (\<lambda>q. q_id q = q_id q0) (claim_recon owner lease now) (node_reconciliations db)\<rparr>"
  shows "claim_recon owner lease now q0 \<in> set (node_reconciliations db')"
  using assms by (simp add: set_due_recons in_sql_updateI(1))

interpretation reconcile_queue: leased_queue store_ok node_reconciliations q_id recon_held claim_reconcile reclaim_reconcile
proof
  fix s w l t i s' q q' e
  show "store_ok (snd (claim_reconcile w l t s))" if "store_ok s"
    by (cases rule: claim_reconcile_cases [of w l t s]) (use that in \<open>auto intro: ok_claim_recon\<close>)
  show "store_ok (reclaim_reconcile t s)" if "store_ok s"
    unfolding reclaim_reconcile_def by (rule ok_intros) (rule that)
  show "q = q'" if "store_ok s" "q \<in> set (node_reconciliations s)" "q' \<in> set (node_reconciliations s)" "q_id q = q_id q'"
    using wf_recon_unique [OF store_okD(1)] that .
  show "\<exists>q \<in> set (node_reconciliations s). q_id q = i \<and> recon_held q = None"
    if "store_ok s" "claim_reconcile w l t s = (Some i, s')"
  proof (cases rule: claim_reconcile_cases [of w l t s])
    case (2 q0)
    then have "q_id q0 = i" "recon_held q0 = None" "q0 \<in> set (node_reconciliations s)"
      using that(2) by (auto simp: recon_held_def set_due_recons)
    then show ?thesis by blast
  qed (use that in simp)
  show "\<exists>q \<in> set (node_reconciliations s'). q_id q = i \<and> recon_held q = Some (w, Some (t + l))"
    if "store_ok s" "claim_reconcile w l t s = (Some i, s')"
  proof (cases rule: claim_reconcile_cases [of w l t s])
    case (2 q0)
    then have "claim_recon w l t q0 \<in> set (node_reconciliations s')" using claimed_recon that(2) by auto
    moreover have "q_id (claim_recon w l t q0) = i" "recon_held (claim_recon w l t q0) = Some (w, Some (t + l))"
      using 2 that(2) by (auto simp: recon_held_def claim_recon_def nullString_def)
    ultimately show ?thesis by blast
  qed (use that in simp)
  show "q \<in> set (node_reconciliations (snd (claim_reconcile w l t s)))"
    if "store_ok s" "q \<in> set (node_reconciliations s)" "recon_held q \<noteq> None"
  proof (cases rule: claim_reconcile_cases [of w l t s])
    case (2 q0)
    have "q_id q \<noteq> q_id q0"
      using wf_recon_unique [OF store_okD(1) [OF that(1)] that(2), of q0] 2(1) that(3) by (auto simp: recon_held_def set_due_recons)
    then show ?thesis using 2(2) that(2) by (simp add: in_sql_updateI(2))
  qed (use that in simp)
  show "q \<in> set (node_reconciliations (reclaim_reconcile t s))"
    if "store_ok s" "q \<in> set (node_reconciliations s)" "recon_held q = Some (w, e)" "\<not> lapsed t e"
    using that by (auto simp: reclaim_reconcile_def ReclaimExpiredReconcileLeases_def Let_def recon_held_def
        split: if_splits intro: in_sql_updateI(2))
  show "\<exists>q' \<in> set (node_reconciliations (reclaim_reconcile t s)). q_id q' = q_id q \<and> recon_held q' = None"
    if "store_ok s" "q \<in> set (node_reconciliations s)" "recon_held q = Some (w, e)" "lapsed t e"
  proof -
    have "q_state q = JobRunning" "lapsed t (q_lease q)" using that by (auto simp: recon_held_def split: if_splits)
    from reclaim_expired_recon [OF that(2) this] obtain q' where
      "q' \<in> set (node_reconciliations (reclaim_reconcile t s))" "q_id q' = q_id q" "q_state q' = JobPending" by blast
    moreover from this have "recon_held q' = None" by (simp add: recon_held_def)
    ultimately show ?thesis by blast
  qed
qed


text \<open>
  C34 (a node is reconciled by one worker). A reconciliation is only handed out for a HEALTHY node.
  While its lease runs, no sequence of further claims and lease sweeps grants it again, and once
  the lease has lapsed, the next sweep makes it PENDING again.
\<close>

theorem reconcile_lease_exclusive:
  assumes ok: "store_ok db" and eq: "claim_reconcile owner lease now db = (Some i, db')"
    and ops: "\<forall>p \<in> set ops. op_time p \<le> now + lease"
  shows "(\<exists>q \<in> set (node_reconciliations db). q_id q = i \<and> q_state q = JobPending
        \<and> (\<exists>n \<in> set (storage_nodes db). n_id n = q_node q \<and> n_health n = StateHealthy))
    \<and> i \<notin> set (granted claim_reconcile reclaim_reconcile ops db')
    \<and> (\<forall>t > now + lease. \<exists>q \<in> set (node_reconciliations (reclaim_reconcile t db')). q_id q = i \<and> q_state q = JobPending)"
proof -
  obtain q0 where q0: "q0 \<in> set (due_recons db)" "q_id q0 = i"
    and db': "db' = db\<lparr>node_reconciliations := sql_update (\<lambda>q. q_id q = q_id q0) (claim_recon owner lease now) (node_reconciliations db)\<rparr>"
    by (cases rule: claim_reconcile_cases [of owner lease now db]) (use eq in auto)
  have "\<exists>q \<in> set (node_reconciliations (reclaim_reconcile t db')). q_id q = i \<and> q_state q = JobPending" if "now + lease < t" for t
    using reclaim_expired_recon [OF claimed_recon [OF q0(1) db'], of t] that q0(2) by (simp add: claim_recon_def lapsed_def)
  moreover have "q0 \<in> {q \<in> set (node_reconciliations db). q_state q = JobPending
     \<and> (\<exists>n \<in> set (storage_nodes db). n_id n = q_node q \<and> n_health n = StateHealthy)}" using q0(1) by (simp only: set_due_recons)
  ultimately show ?thesis using reconcile_queue.lease_exclusive [OF ok eq ops] q0(2) by blast
qed

definition ex_recon :: db where
  "ex_recon = snd (EnqueueReconcile ''n1'' 5 ex_db)"

lemma reconcile_lease_exclusive_witness:
  "\<exists>db'. claim_reconcile ''a'' 60 10 ex_recon = (Some 1, db')
     \<and> 1 \<notin> set (granted claim_reconcile reclaim_reconcile [Reclaim 20, Claim ''b'' 60 30] db')
     \<and> (\<exists>q \<in> set (node_reconciliations (reclaim_reconcile 71 db')). q_id q = 1 \<and> q_state q = JobPending)"
proof -
  have ok: "store_ok ex_recon" unfolding ex_recon_def by (rule ok_EnqueueReconcile [OF ok_ex_db])
  have "fst (claim_reconcile ''a'' 60 10 ex_recon) = Some 1" by code_simp
  then obtain db' where eq: "claim_reconcile ''a'' 60 10 ex_recon = (Some 1, db')" by (metis prod.collapse)
  show ?thesis using reconcile_lease_exclusive [OF ok eq, of "[Reclaim 20, Claim ''b'' 60 30]"] eq by auto
qed

section \<open>What the reconciler may do to replicas\<close>

lemma replica_at_update_state:
  assumes "\<And>r. r_chunk (f r) = r_chunk r \<and> r_node (f r) = r_node r \<and> r_state (f r) = S"
  shows "replica_at (sql_update (\<lambda>r. r_chunk r = cid0 \<and> r_node r = n0 \<and> r_state r = S0) f rs) cid n =
    (if cid = cid0 \<and> n = n0 \<and> replica_at rs cid n = Some S0 then Some S else replica_at rs cid n)"
  using assms by (induction rs) (auto simp: replica_at_def sql_update_def)

text \<open>
  C35 (verification is what makes a stale replica count). Promotion succeeds exactly for a STALE
  replica; it makes that one AVAILABLE, changes no other replica, and the chunk has one more
  AVAILABLE replica than before. In particular a replica that was deleted, found corrupt or is
  being written meanwhile is left alone.
\<close>

theorem promote_effect:
  assumes wf: "wf_db db" and eq: "PromoteVerifiedReplica cid nid now db = (ok, db')"
  shows "ok = (replica_at (chunk_replicas db) cid nid = Some ReplicaStale)
    \<and> (\<forall>c n. replica_at (chunk_replicas db') c n =
         (if ok \<and> c = cid \<and> n = nid then Some ReplicaAvailable else replica_at (chunk_replicas db) c n))
    \<and> available_count (chunk_replicas db') cid = available_count (chunk_replicas db) cid + (if ok then 1 else 0)"
proof -
  let ?f = "\<lambda>r. r\<lparr>r_state := ReplicaAvailable, r_updated := now, r_verified := Some now, r_last_error := None\<rparr>"
  let ?P = "\<lambda>r. r_chunk r = cid \<and> r_node r = nid \<and> r_state r = ReplicaStale"
  have db': "db' = update_replicas ?P ?f db" and "ok = (0 < sql_count ?P (chunk_replicas db))"
    using eq by (simp_all add: PromoteVerifiedReplica_def Let_def)
  then have ok: "ok = (replica_at (chunk_replicas db) cid nid = Some ReplicaStale)"
    using sql_count_0_iff [of ?P "chunk_replicas db"] unfolding replica_at_iff [OF wf] by auto
  have wf': "wf_db db'" unfolding db' by (rule wf_update_replicas [OF wf]) simp
  have at: "replica_at (chunk_replicas db') c n =
      (if ok \<and> c = cid \<and> n = nid then Some ReplicaAvailable else replica_at (chunk_replicas db) c n)" for c n
    unfolding db' chunk_replicas_update_replicas by (subst replica_at_update_state) (auto simp: ok)
  let ?A = "\<lambda>d. {n. replica_at (chunk_replicas d) cid n = Some ReplicaAvailable}"
  have "?A db' = (if ok then insert nid (?A db) else ?A db)" "ok \<Longrightarrow> nid \<notin> ?A db" by (auto simp: at ok)
  moreover have "finite (?A db)"
    by (rule finite_subset [of _ "r_node ` set (chunk_replicas db)"]) (auto simp: replica_at_iff [OF wf])
  ultimately have "card (?A db') = card (?A db) + (if ok then 1 else 0)" by auto
  with ok at show ?thesis by (auto simp: Metadata_Chunks.available_count_card [OF wf] Metadata_Chunks.available_count_card [OF wf'])
qed

definition ex_stale :: db where
  "ex_stale = snd (MarkReplicasStaleOnNode ''n1'' 9 (snd (MarkReplicasUnavailableOnNode ''n1'' 8 ex_db)))"

lemma promote_effect_witness:
  "\<exists>db'. PromoteVerifiedReplica 7 ''n1'' 10 ex_stale = (True, db')
     \<and> available_count (chunk_replicas ex_stale) 7 = 1 \<and> available_count (chunk_replicas db') 7 = 2"
proof -
  have ok: "store_ok ex_stale"
    unfolding ex_stale_def
    by (intro ok_intros store_okI)
       (auto intro: wf_intros tracked_nodes full_nodes wf_ex_db tracked_ex_db full_ex_db)
  have "fst (PromoteVerifiedReplica 7 ''n1'' 10 ex_stale) = True" "available_count (chunk_replicas ex_stale) 7 = 1"
    by code_simp+
  moreover from this obtain db' where "PromoteVerifiedReplica 7 ''n1'' 10 ex_stale = (True, db')" by (metis prod.collapse)
  ultimately show ?thesis using promote_effect [OF store_okD(1) [OF ok], of 7 "''n1''" 10 True db'] by auto
qed


end
