(* ===== verification/Metadata_Store.thy ===== *)
theory Metadata_Store
  imports Metadata_Reconcile
begin

text \<open>
  The metadata store as a state machine. A step is one call of a method of the Store; concurrent
  calls are serialised by PostgreSQL, so that every state of the database is reached by some
  sequence of steps. The invariants of the preceding theories hold in all of them.
\<close>

section \<open>Every method keeps the invariants\<close>

lemma ok_nodes [ok_intros]:
  assumes "store_ok db"
  shows "store_ok (snd (UpsertNode nid a h st at now db))" "store_ok (snd (RecordHeartbeat nid a st h at now db))"
    "store_ok (snd (SetNodeHealth nid h now db))" "store_ok (snd (MarkReplicasUnavailableOnNode nid now db))"
  using store_okD [OF assms] by (auto intro: store_okI wf_intros tracked_nodes full_nodes)

lemma ok_chunks [ok_intros]:
  assumes "store_ok db"
  shows "store_ok (snd (ReserveChunk owner idx sz newID now db))" "store_ok (snd (RecordChunkTargets cid targets now db))"
    "store_ok (snd (CommitChunk cid checksum sz succeeded failed minR now db))"
  using store_okD [OF assms]
  by (auto intro!: store_okI wf_ReserveChunk wf_RecordChunkTargets wf_CommitChunk tracked_ReserveChunk
      tracked_RecordChunkTargets tracked_CommitChunk full_ReserveChunk full_RecordChunkTargets full_CommitChunk)

lemma ok_AllocateChunk [ok_intros]:
  assumes "store_ok db"
  shows "store_ok (snd (AllocateChunk owner idx sz targets newID now db))"
proof -
  obtain r1 db1 where 1: "ReserveChunk owner idx sz newID now db = (r1, db1)" by (metis surj_pair)
  then have ok1: "store_ok db1" using ok_chunks(1) [OF assms, of owner idx sz newID now] by simp
  show ?thesis
  proof (cases r1)
    case (Inr cid)
    obtain r2 db2 where 2: "RecordChunkTargets cid targets now db1 = (r2, db2)" by (metis surj_pair)
    then have "store_ok db2" using ok_chunks(2) [OF ok1, of cid targets now] by simp
    then show ?thesis using assms 1 2 Inr by (simp add: AllocateChunk_def split: sum.split)
  qed (use assms 1 ok1 in \<open>simp add: AllocateChunk_def\<close>)
qed

lemma ok_objects [ok_intros]:
  assumes "store_ok db"
  shows "store_ok (snd (BeginUpload bucket key ct cs newID now db))" "store_ok (snd (TouchUpload oid now db))"
    "store_ok (snd (CompleteUpload oid s n e now db))" "store_ok (snd (AbortUpload oid reason now db))"
    "store_ok (snd (DeleteObject bucket key now db))" "store_ok (snd (ReapStaleUploads olderThan limit now db))"
  using store_okD [OF assms]
  by (auto intro!: store_okI wf_BeginUpload wf_TouchUpload wf_CompleteUpload wf_AbortUpload wf_DeleteObject
      wf_ReapStaleUploads tracked_objects tracked_CompleteUpload tracked_ReapStaleUploads full_simple_objects
      full_CompleteUpload full_AbortUpload full_ReapStaleUploads)

lemma ok_multipart [ok_intros]:
  assumes "store_ok db"
  shows "store_ok (snd (CreateMultipartUpload b k ct cs newID now db))" "store_ok (snd (BeginPart uid pn newID now db))"
    "store_ok (snd (CompletePart pid s n e now db))" "store_ok (snd (CompleteMultipartUpload uid expected newID now db))"
    "store_ok (snd (AbortMultipartUpload uid now db))" "store_ok (snd (ReapStaleMultipartUploads olderThan limit now db))"
  using store_okD [OF assms] reap_multipart_invariants [of db olderThan limit now]
  by (auto intro!: store_okI wf_CreateMultipartUpload tracked_CreateMultipartUpload full_CreateMultipartUpload wf_BeginPart
      BeginPart_keeps wf_CompletePart keeps_CompletePart complete_multipart_invariants abort_invariants)

lemma ok_VerifyDurabilityCounters [ok_intros]: "store_ok db \<Longrightarrow> store_ok (snd (VerifyDurabilityCounters db))"
  by (simp add: VerifyDurabilityCounters_wf store_okD(1))

section \<open>The state machine\<close>

inductive store_step :: "db \<Rightarrow> db \<Rightarrow> bool" where
  "store_step db (snd (UpsertNode nid a h st at now db))"
| "store_step db (snd (RecordHeartbeat nid a st h at now db))"
| "store_step db (snd (SetNodeHealth nid h now db))"
| "store_step db (snd (MarkReplicasUnavailableOnNode nid now db))"
| "store_step db (snd (ReserveChunk owner idx sz newID now db))"
| "store_step db (snd (RecordChunkTargets cid targets now db))"
| "store_step db (snd (AllocateChunk owner idx sz targets newID now db))"
| "store_step db (snd (CommitChunk cid checksum sz succeeded failed minR now db))"
| "store_step db (snd (BeginUpload bucket key ct cs newID now db))"
| "store_step db (snd (TouchUpload oid now db))"
| "store_step db (snd (CompleteUpload oid sz n e now db))"
| "store_step db (snd (AbortUpload oid reason now db))"
| "store_step db (snd (DeleteObject bucket key now db))"
| "store_step db (snd (ReapStaleUploads olderThan limit now db))"
| "store_step db (snd (CreateMultipartUpload bucket key ct cs newID now db))"
| "store_step db (snd (BeginPart uid pn newID now db))"
| "store_step db (snd (CompletePart pid sz n e now db))"
| "store_step db (snd (CompleteMultipartUpload uid expected newID now db))"
| "store_step db (snd (AbortMultipartUpload uid now db))"
| "store_step db (snd (ReapStaleMultipartUploads olderThan limit now db))"
| "store_step db (snd (EnqueueRepairs rf limit now db))"
| "store_step db (snd (TrimOverReplicatedChunks rf limit now db))"
| "store_step db (snd (ReclaimExpiredRepairLeases now db))"
| "store_step db (snd (ClaimRepairJob w lease rf now db))"
| "store_step db (RecordRepairPlan jobID src dst now db)"
| "store_step db (snd (CompleteRepair jobID cid nid now db))"
| "store_step db (FinishRepairAsNoop jobID reason now db)"
| "store_step db (snd (FailRepair jobID cause backoff maxAttempts now db))"
| "store_step db (snd (RequeueFailedRepairs rf now db))"
| "store_step db (snd (MarkReplicaCorrupt cid nid cause now db))"
| "store_step db (DropReplica cid nid db)"
| "store_step db (snd (PurgeFinishedRepairJobs olderThan rf limit now db))"
| "store_step db (snd (VerifyDurabilityCounters db))"
| "store_step db (snd (ClaimDeletions limit lease now db))"
| "\<forall>d \<in> set (chunk_deletions db). d_id d = i \<longrightarrow> d_chunk d = cid \<and> d_node d = nid \<Longrightarrow>
     store_step db (snd (FinishDeletion i cid nid db))"
| "store_step db (snd (FailDeletion i cause backoff maxAttempts now db))"
| "store_step db (snd (PurgeReclaimedChunks limit db))"
| "store_step db (snd (PurgeCompletedMultipartUploads olderThan limit now db))"
| "store_step db (snd (MarkReplicasStaleOnNode nid now db))"
| "store_step db (snd (EnqueueReconcile nid now db))"
| "store_step db (snd (ReclaimExpiredReconcileLeases now db))"
| "store_step db (snd (ClaimReconcileJob w lease now db))"
| "store_step db (CompleteReconcile jobID result now db)"
| "store_step db (FailReconcile jobID cause now db)"
| "store_step db (snd (PromoteVerifiedReplica cid nid now db))"
| "store_step db (snd (QueueOrphanDeletion cid nid now db))"

inductive reachable :: "db \<Rightarrow> bool" where
  init: "reachable empty_db"
| step: "reachable db \<Longrightarrow> store_step db db' \<Longrightarrow> reachable db'"

lemma store_step_ok: "store_step db db' \<Longrightarrow> store_ok db \<Longrightarrow> store_ok db'"
  by (induction rule: store_step.induct) (simp_all only: ok_intros)



text \<open>A run of the machine: a node registers, an object of one chunk is uploaded to it and completed.\<close>

definition ex_run :: db where
  "ex_run =
    (let db1 = snd (UpsertNode ''n1'' ''a:1'' StateHealthy \<lparr>st_TotalBytes = 100, st_UsedBytes = 0,
                     st_AvailableBytes = 100, st_ChunkCount = 0, st_ActiveRequests = 0\<rparr> 1 1 empty_db);
         db2 = snd (BeginUpload ''b'' ''k'' ''text'' 8 10 2 db1);
         db3 = snd (AllocateChunk \<lparr>ow_ObjectID = Some 10, ow_PartID = None\<rparr> 0 5 [''n1''] 11 3 db2);
         db4 = snd (CommitChunk 11 (replicate 64 (CHR ''0'')) 5 [''n1''] [] 1 4 db3)
     in snd (CompleteUpload 10 5 1 ''e'' 5 db4))"

lemma reachable_ex_run: "reachable ex_run"
  unfolding ex_run_def Let_def
  by (rule reachable.init | rule reachable.step, rule_tac [2] store_step.intros)+


end
