(* ===== verification/Metadata_Current.thy ===== *)
theory Metadata_Current
  imports Metadata_Store
begin

text \<open>
  What readers see: the COMPLETE rows of the table of objects. Three methods of the Store change
  them, \<^verbatim>\<open>CompleteUpload\<close>, \<^verbatim>\<open>CompleteMultipartUpload\<close> and \<^verbatim>\<open>DeleteObject\<close>, and each for one key; all
  others are unnoticed. The caches and the background workers of the coordinator rest on it.
\<close>

definition complete_rows :: "db \<Rightarrow> object_row list" where
  "complete_rows db = filter (\<lambda>ob. o_state ob = ObjectComplete) (objects db)"

definition unnoticed :: "db \<Rightarrow> db \<Rightarrow> bool" where
  "unnoticed db db' \<longleftrightarrow> (store_ok db \<longrightarrow> store_ok db' \<and> complete_rows db' = complete_rows db)"

lemma unnoticedI: "(store_ok db \<Longrightarrow> store_ok db') \<Longrightarrow> (store_ok db \<Longrightarrow> complete_rows db' = complete_rows db) \<Longrightarrow> unnoticed db db'"
  by (simp add: unnoticed_def)

lemma unnoticedD: "unnoticed db db' \<Longrightarrow> store_ok db \<Longrightarrow> store_ok db'" "unnoticed db db' \<Longrightarrow> store_ok db \<Longrightarrow> complete_rows db' = complete_rows db"
  by (simp_all add: unnoticed_def)

lemma unnoticed_refl [simp]: "unnoticed db db"
  by (simp add: unnoticed_def)

lemma unnoticed_trans: "unnoticed db db' \<Longrightarrow> unnoticed db' db'' \<Longrightarrow> unnoticed db db''"
  by (simp add: unnoticed_def)

lemma HeadObject_complete_rows:
  "HeadObject b k db = (case find (\<lambda>ob. o_bucket ob = b \<and> o_key ob = k) (complete_rows db) of
     None \<Rightarrow> Inl ErrNotFound | Some ob \<Rightarrow> Inr (scanObject ob))"
proof -
  have eq: "find (\<lambda>ob. o_bucket ob = b \<and> o_key ob = k \<and> o_state ob = ObjectComplete) xs
      = find (\<lambda>ob. o_bucket ob = b \<and> o_key ob = k) (filter (\<lambda>ob. o_state ob = ObjectComplete) xs)" for xs
    by (induction xs) auto
  show ?thesis by (simp only: HeadObject_def complete_rows_def eq)
qed

lemma HeadObject_unnoticed: "unnoticed db db' \<Longrightarrow> store_ok db \<Longrightarrow> HeadObject b k db' = HeadObject b k db"
  by (simp add: HeadObject_complete_rows unnoticedD(2))

section \<open>Quiet methods\<close>

named_theorems unnoticeds \<open>operations that readers do not notice\<close>

lemma complete_rows_cong: "objects db' = objects db \<Longrightarrow> complete_rows db' = complete_rows db"
  by (simp add: complete_rows_def)

lemma complete_rows_update:
  assumes "\<And>ob. ob \<in> set (objects db) \<Longrightarrow> P ob \<Longrightarrow> o_state ob \<noteq> ObjectComplete \<and> o_state (f ob) \<noteq> ObjectComplete"
    and "objects db' = sql_update P f (objects db)"
  shows "complete_rows db' = complete_rows db"
proof -
  have "filter (\<lambda>ob. o_state ob = ObjectComplete) (sql_update P f xs) = filter (\<lambda>ob. o_state ob = ObjectComplete) xs"
    if "\<And>ob. ob \<in> set xs \<Longrightarrow> P ob \<Longrightarrow> o_state ob \<noteq> ObjectComplete \<and> o_state (f ob) \<noteq> ObjectComplete" for xs
    using that by (induction xs) (auto simp: sql_update_def)
  then show ?thesis using assms by (simp add: complete_rows_def)
qed

lemma objects_nodes:
  "objects (snd (UpsertNode nid a h st at now db)) = objects db"
  "objects (snd (RecordHeartbeat nid a st h at now db)) = objects db"
  "objects (snd (SetNodeHealth nid h now db)) = objects db"
  "objects (snd (MarkReplicasStaleOnNode nid now db)) = objects db"
  "objects (snd (EnqueueReconcile nid now db)) = objects db"
  by (auto simp: UpsertNode_def RecordHeartbeat_def SetNodeHealth_def MarkReplicasStaleOnNode_def EnqueueReconcile_def inTx_def Let_def split: option.splits sum.splits if_splits)


lemma objects_upsert: "upsert_replica row f db = Inr db' \<Longrightarrow> objects db' = objects db"
  "upsert_replicas rows f ns db = Inr db' \<Longrightarrow> objects db' = objects db"
proof -
  show one: "upsert_replica row f db = Inr db' \<Longrightarrow> objects db' = objects db" for row f db db'
    by (auto simp: upsert_replica_def refresh_available_replicas_def Let_def split: if_splits)
  show "upsert_replicas rows f ns db = Inr db' \<Longrightarrow> objects db' = objects db"
    by (induction rows f ns db rule: upsert_replicas.induct) (auto dest: one split: sum.splits)
qed

lemma objects_chunks:
  "objects (snd (ReserveChunk owner idx sz newID now db)) = objects db"
  "objects (snd (RecordChunkTargets cid targets now db)) = objects db"
  by (auto simp: ReserveChunk_def RecordChunkTargets_def reserve_position_def inTx_def Let_def
      dest: objects_upsert split: option.splits sum.splits if_splits)

lemma objects_multipart:
  "objects (snd (CreateMultipartUpload b k ct cs newID now db)) = objects db"
  "objects (snd (BeginPart uid pn newID now db)) = objects db"
  "objects (snd (AbortMultipartUpload uid now db)) = objects db"
  by (auto simp: CreateMultipartUpload_def BeginPart_def AbortMultipartUpload_def inTx_def Let_def fold_frame [where T = objects]
      split: option.splits sum.splits if_splits)

lemma objects_abort_each: "objects (snd (abort_each ids now n db)) = objects db"
proof (induction ids now n db rule: abort_each.induct)
  case (2 i ids now n db)
  then show ?case using objects_multipart(3) [of i now db] by (auto split: prod.splits sum.splits)
qed simp

lemma objects_reap_multipart: "objects (snd (ReapStaleMultipartUploads olderThan limit now db)) = objects db"
  by (simp add: ReapStaleMultipartUploads_def Let_def objects_abort_each)

lemma objects_repair:
  "objects (snd (EnqueueRepairs rf limit now db)) = objects db"
  "objects (snd (ReclaimExpiredRepairLeases now db)) = objects db"
  "objects (snd (ClaimRepairJob w lease rf now db)) = objects db"
  "objects (RecordRepairPlan jobID src dst now db) = objects db"
  "objects (FinishRepairAsNoop jobID reason now db) = objects db"
  "objects (snd (FailRepair jobID cause backoff maxAttempts now db)) = objects db"
  "objects (snd (RequeueFailedRepairs limit now db)) = objects db"
  "objects (snd (MarkReplicaCorrupt cid nid cause now db)) = objects db"
  "objects (DropReplica cid nid db) = objects db"
  "objects (snd (PurgeFinishedRepairJobs olderThan rf limit now db)) = objects db"
  "objects (snd (VerifyDurabilityCounters db)) = objects db"
          apply (simp add: EnqueueRepairs_def)
         apply (simp add: ReclaimExpiredRepairLeases_def Let_def)
        apply (auto simp: ClaimRepairJob_def inTx_def Let_def split: option.splits list.splits if_splits)[1]
       apply (simp add: RecordRepairPlan_def)
      apply (simp add: FinishRepairAsNoop_def)
     apply (auto simp: FailRepair_def inTx_def Let_def split: option.splits)[1]
    apply (auto simp: RequeueFailedRepairs_def inTx_def Let_def split: if_splits)[1]
   apply (auto simp: MarkReplicaCorrupt_def inTx_def Let_def split: option.splits)[1]
  apply (simp_all add: DropReplica_def PurgeFinishedRepairJobs_def VerifyDurabilityCounters_def Let_def)
  done


lemma objects_trim: "objects (snd (TrimOverReplicatedChunks rf limit now db)) = objects db"
proof -
  have one: "objects (snd (trim_chunk rf now cid db)) = objects db" for cid db
    by (auto simp: trim_chunk_def Let_def split: option.splits)
  have "objects (snd (trim_each rf now cids (n, db))) = objects db" for cids n db
  proof (induction cids arbitrary: n db)
    case (Cons cid cids)
    then show ?case using one [of cid db] by (auto split: prod.splits)
  qed simp
  then show ?thesis by (simp add: TrimOverReplicatedChunks_def)
qed

lemma objects_CompleteRepair: "objects (snd (CompleteRepair jobID cid nid now db)) = objects db"
  by (auto simp: CompleteRepair_def record_copy_def inTx_def Let_def dest: objects_upsert(1) split: sum.splits option.splits)

lemma objects_gc:
  "objects (snd (ClaimDeletions limit lease now db)) = objects db"
  "objects (snd (FinishDeletion i cid nid db)) = objects db"
  "objects (snd (FailDeletion i cause backoff maxAttempts now db)) = objects db"
  "objects (snd (PurgeCompletedMultipartUploads olderThan limit now db)) = objects db"
     apply (simp add: ClaimDeletions_def Let_def)
    apply (simp add: FinishDeletion_def inTx_def Let_def)
   apply (auto simp: FailDeletion_def expire_deletion_def inTx_def Let_def split: list.splits)[1]
  apply (simp add: PurgeCompletedMultipartUploads_def delete_uploads_def delete_chunks_def Let_def)
  done

lemma objects_reconcile:
  "objects (snd (ReclaimExpiredReconcileLeases now db)) = objects db"
  "objects (snd (ClaimReconcileJob w lease now db)) = objects db"
  "objects (CompleteReconcile jobID result now db) = objects db"
  "objects (FailReconcile jobID cause now db) = objects db"
  "objects (snd (PromoteVerifiedReplica cid nid now db)) = objects db"
  "objects (snd (QueueOrphanDeletion cid nid now db)) = objects db"
  by (auto simp: ReclaimExpiredReconcileLeases_def ClaimReconcileJob_def CompleteReconcile_def FailReconcile_def
      PromoteVerifiedReplica_def QueueOrphanDeletion_def inTx_def Let_def split: list.splits)

lemma complete_rows_BeginUpload: "complete_rows (snd (BeginUpload b k ct cs newID now db)) = complete_rows db"
  by (auto simp: BeginUpload_def insert_object_def new_object_def inTx_def Let_def complete_rows_def split: sum.splits if_splits)

lemma complete_rows_CommitChunk: "complete_rows (snd (CommitChunk cid checksum sz succeeded failed minR now db)) = complete_rows db"
proof -
  have touch: "complete_rows (touch_owner cid now db) = complete_rows db" for db
    by (rule complete_rows_update [where P = "\<lambda>ob. Some (o_id ob) \<in> set (map c_object_id (filter (\<lambda>c. c_id c = cid) (chunks db))) \<and> o_state ob = ObjectUploading"
          and f = "\<lambda>ob. ob\<lparr>o_updated := now\<rparr>"]) (auto simp: touch_owner_def Let_def)
  have up: "complete_rows db1 = complete_rows db" if "upsert_replicas rows f ns (mark_failed cid failed now db) = Inr db1" for rows f ns db1
    using objects_upsert(2) [OF that] by (simp add: complete_rows_def mark_failed_mask(1))
  show ?thesis using touch up by (auto simp: CommitChunk_def Let_def complete_rows_def split: sum.splits)
qed

lemma complete_rows_AbortUpload: "complete_rows (snd (AbortUpload oid reason now db)) = complete_rows db"
  by (rule complete_rows_update [where P = "\<lambda>ob. o_id ob = oid \<and> o_state ob = ObjectUploading"
        and f = "\<lambda>ob. ob\<lparr>o_state := ObjectFailed, o_failure := Some (truncate_string reason 500), o_updated := now\<rparr>"])
    (auto simp: AbortUpload_def inTx_def Let_def)

lemma complete_rows_ReapStaleUploads:
  assumes "wf_db db"
  shows "complete_rows (snd (ReapStaleUploads olderThan limit now db)) = complete_rows db"
proof -
  define ids where "ids = map o_id (sql_limit limit (sort_key o_updated
                 (filter (\<lambda>ob. o_state ob = ObjectUploading \<and> o_updated ob < now - olderThan) (objects db))))"
  have ids: "\<forall>ob \<in> set (objects db). o_id ob \<in> set ids \<longrightarrow> o_state ob \<noteq> ObjectComplete"
  proof (intro ballI impI)
    fix ob assume ob: "ob \<in> set (objects db)" "o_id ob \<in> set ids"
    then obtain ob' where "ob' \<in> set (objects db)" "o_state ob' = ObjectUploading" "o_id ob' = o_id ob"
      using set_sql_limit unfolding ids_def by fastforce
    then show "o_state ob \<noteq> ObjectComplete" using wf_object_unique [OF assms ob(1)] by force
  qed
  let ?I = "\<lambda>s. complete_rows s = complete_rows db \<and> (\<forall>ob \<in> set (objects s). o_id ob \<in> set ids \<longrightarrow> o_state ob \<noteq> ObjectComplete)"
  have "?I (fold (reap_upload now) js s)" if "set js \<subseteq> set ids" "?I s" for js s
    using that
  proof (induction js arbitrary: s)
    case (Cons j js)
    have "complete_rows (reap_upload now j s) = complete_rows s"
      by (rule complete_rows_update [where P = "\<lambda>ob. o_id ob = j"
            and f = "\<lambda>ob. ob\<lparr>o_state := ObjectFailed, o_failure := Some ''upload timed out'', o_updated := now\<rparr>"])
        (use Cons.prems in \<open>auto simp: reap_upload_def\<close>)
    then have "?I (reap_upload now j s)" using Cons.prems by (auto simp: reap_upload_def elim!: in_sql_updateE)
    then show ?case using Cons.IH Cons.prems(1) by simp
  qed simp
  from this [of ids db] show ?thesis using ids by (simp add: ReapStaleUploads_def inTx_def Let_def ids_def)
qed

lemma complete_rows_PurgeReclaimedChunks:
  assumes "wf_db db"
  shows "complete_rows (snd (PurgeReclaimedChunks limit db)) = complete_rows db"
proof -
  have del: "complete_rows (delete_objects P db1) = complete_rows db1"
    if "\<And>ob. ob \<in> set (objects db1) \<Longrightarrow> P ob \<Longrightarrow> o_state ob \<noteq> ObjectComplete" for P db1
  proof -
    have "filter (\<lambda>ob. o_state ob = ObjectComplete) (sql_delete P xs) = filter (\<lambda>ob. o_state ob = ObjectComplete) xs"
      if "\<And>ob. ob \<in> set xs \<Longrightarrow> P ob \<Longrightarrow> o_state ob \<noteq> ObjectComplete" for xs
      using that by (induction xs) (auto simp: sql_delete_def)
    then show ?thesis using that by (simp add: complete_rows_def delete_objects_def delete_chunks_def Let_def)
  qed
  show ?thesis
    unfolding PurgeReclaimedChunks_def inTx_def Let_def
    apply simp
    apply (subst del)
     apply (auto simp: complete_rows_def dest!: set_sql_limit [THEN subsetD] dest: wf_object_unique [OF assms] simp: reclaimed_object_def)
    done
qed


lemmas same_objects = objects_nodes objects_chunks objects_multipart objects_reap_multipart objects_repair objects_trim
  objects_CompleteRepair objects_gc objects_reconcile

lemma unnoticed_objects: "(store_ok db \<Longrightarrow> store_ok db') \<Longrightarrow> objects db' = objects db \<Longrightarrow> unnoticed db db'"
  by (rule unnoticedI) (simp_all add: complete_rows_def)

lemma unnoticed_nodes [unnoticeds]:
  "unnoticed db (snd (UpsertNode nid a h st at now db))" "unnoticed db (snd (RecordHeartbeat nid a st h at now db))"
  "unnoticed db (snd (SetNodeHealth nid h now db))" "unnoticed db (snd (MarkReplicasStaleOnNode nid now db))"
  "unnoticed db (snd (EnqueueReconcile nid now db))"
  by (rule unnoticed_objects; simp only: ok_intros same_objects)+

lemma unnoticed_chunks [unnoticeds]:
  "unnoticed db (snd (ReserveChunk owner idx sz newID now db))" "unnoticed db (snd (RecordChunkTargets cid targets now db))"
  by (rule unnoticed_objects; simp only: ok_intros same_objects)+

lemma unnoticed_uploads [unnoticeds]:
  "unnoticed db (snd (CommitChunk cid checksum sz succeeded failed minR now db))"
  "unnoticed db (snd (BeginUpload b k ct cs newID now db))" "unnoticed db (snd (AbortUpload oid reason now db))"
  "unnoticed db (snd (ReapStaleUploads olderThan limit now db))" "unnoticed db (snd (PurgeReclaimedChunks limit db))"
  by (rule unnoticedI; simp only: ok_intros complete_rows_CommitChunk complete_rows_BeginUpload complete_rows_AbortUpload
      complete_rows_ReapStaleUploads complete_rows_PurgeReclaimedChunks store_okD)+

lemma unnoticed_multipart [unnoticeds]:
  "unnoticed db (snd (CreateMultipartUpload b k ct cs newID now db))" "unnoticed db (snd (BeginPart uid pn newID now db))"
  "unnoticed db (snd (CompletePart pid sz n e now db))" "unnoticed db (snd (AbortMultipartUpload uid now db))"
  "unnoticed db (snd (ReapStaleMultipartUploads olderThan limit now db))"
  by (rule unnoticed_objects; simp only: ok_intros same_objects CompletePart_frame(2))+

lemma unnoticed_repair [unnoticeds]:
  "unnoticed db (snd (EnqueueRepairs rf limit now db))" "unnoticed db (snd (TrimOverReplicatedChunks rf limit now db))"
  "unnoticed db (snd (ReclaimExpiredRepairLeases now db))" "unnoticed db (snd (ClaimRepairJob w lease rf now db))"
  "unnoticed db (snd (CompleteRepair jobID cid nid now db))" "unnoticed db (snd (FailRepair jobID cause backoff maxAttempts now db))"
  "unnoticed db (snd (RequeueFailedRepairs limit now db))" "unnoticed db (snd (MarkReplicaCorrupt cid nid cause now db))"
  "unnoticed db (snd (PurgeFinishedRepairJobs olderThan rf limit now db))"
  "unnoticed db (snd (VerifyDurabilityCounters db))"
  by (rule unnoticed_objects; simp only: ok_intros same_objects)+

lemma unnoticed_gc [unnoticeds]:
  "unnoticed db (snd (ClaimDeletions limit lease now db))"
  "unnoticed db (snd (FailDeletion i cause backoff maxAttempts now db))"
  "unnoticed db (snd (PurgeCompletedMultipartUploads olderThan limit now db))"
  by (rule unnoticed_objects; simp only: ok_intros same_objects)+

lemma unnoticed_FinishDeletion:
  "\<forall>d \<in> set (chunk_deletions db). d_id d = i \<longrightarrow> d_chunk d = cid \<and> d_node d = nid \<Longrightarrow> unnoticed db (snd (FinishDeletion i cid nid db))"
  by (rule unnoticed_objects; simp only: ok_intros same_objects)

lemma unnoticed_reconcile [unnoticeds]:
  "unnoticed db (snd (ReclaimExpiredReconcileLeases now db))" "unnoticed db (snd (ClaimReconcileJob w lease now db))"
  "unnoticed db (snd (PromoteVerifiedReplica cid nid now db))" "unnoticed db (snd (QueueOrphanDeletion cid nid now db))"
  by (rule unnoticed_objects; simp only: ok_intros same_objects)+

lemma unnoticed_updates:
  "unnoticed db (RecordRepairPlan jobID src dst now db)" "unnoticed db (FinishRepairAsNoop jobID reason now db)" "unnoticed db (DropReplica cid nid db)"
  "unnoticed db (CompleteReconcile jobID result now db)" "unnoticed db (FailReconcile jobID cause now db)"
  by (rule unnoticed_objects; simp only: ok_intros same_objects)+

lemma unnoticed_snd: "unnoticed db (snd p) \<Longrightarrow> p = (r, db') \<Longrightarrow> unnoticed db db'"
  by simp

lemmas unnoticed_eqs = unnoticeds [THEN unnoticed_snd]

section \<open>Publishing methods\<close>

text \<open>Each of the three changes what readers of one key see, the key it reports.\<close>

definition publishes :: "string \<Rightarrow> string \<Rightarrow> db \<Rightarrow> db \<Rightarrow> bool" where
  "publishes b k db db' \<longleftrightarrow> store_ok db' \<and> (\<forall>b' k'. (b', k') \<noteq> (b, k) \<longrightarrow> HeadObject b' k' db' = HeadObject b' k' db)"

lemma publishes_CompleteUpload:
  assumes ok: "store_ok db" and eq: "CompleteUpload oid s n e now db = (res, db')"
  shows "case res of Inl err \<Rightarrow> db' = db | Inr obj \<Rightarrow> publishes (Obj_Bucket obj) (Obj_Key obj) db db'"
proof (cases res)
  case (Inl err)
  then show ?thesis using CompleteUpload_error eq by auto
next
  case (Inr obj)
  note wf = store_okD(1) [OF ok] and tr = store_okD(2) [OF ok]
  from eq Inr have eq': "CompleteUpload oid s n e now db = (Inr obj, db')" by simp
  obtain ob where f: "find (\<lambda>ob. o_id ob = oid) (objects db) = Some ob" and up: "o_state ob = ObjectUploading"
    and "int (length (chunks_of_object oid (chunks db))) = n"
    and "int (sql_count (\<lambda>c. c_state c = ChunkCommitted) (chunks_of_object oid (chunks db))) = n"
    and fin: "finalise_object oid s n e now (supersedeCurrentVersion (o_bucket ob) (o_key ob) oid now db) = Inr (obj, db')"
    using eq' by (rule CompleteUpload_success)
  have "store_ok db'" using ok_objects(3) [OF ok, of oid s n e now] eq by simp
  then show ?thesis using publish_effect(1,3) [OF wf tr f up fin] Inr by (auto simp: publishes_def)
qed

lemma publishes_CompleteMultipartUpload:
  assumes ok: "store_ok db" and eq: "CompleteMultipartUpload uid expected newID now db = (res, db')"
  shows "case res of Inl err \<Rightarrow> db' = db | Inr obj \<Rightarrow> publishes (Obj_Bucket obj) (Obj_Key obj) db db'"
proof (cases res)
  case (Inl err)
  then show ?thesis using eq by (auto simp: CompleteMultipartUpload_def inTx_def split: sum.splits)
next
  case (Inr obj)
  note wf = store_okD(1) [OF ok] and tr = store_okD(2) [OF ok]
  from eq Inr have eq': "CompleteMultipartUpload uid expected newID now db = (Inr obj, db')" by simp
  obtain u ob db1 db3 where
      "find (\<lambda>u. u_id u = uid) (multipart_uploads db) = Some u" and "u_state u = MultipartInProgress"
      and "complete_parts uid db \<noteq> []"
      and "expected = [] \<longrightarrow> sql_count (\<lambda>p. p_upload_id p = uid \<and> p_state p = PartUploading) (multipart_parts db) = 0"
      and "expected \<noteq> [] \<longrightarrow> manifest_matches expected (complete_parts uid db)"
      and ob: "ob = new_object newID (u_bucket u) (u_key u) (next_version (u_bucket u) (u_key u) db) (u_chunk_size u) (u_content_type u) now"
      and new: "newID \<notin> object_ids db" and db1: "db1 = db\<lparr>objects := objects db @ [ob]\<rparr>"
      and "int (length (assembled uid db)) = total_chunks (complete_parts uid db)"
      and fin: "finalise_object newID (total_size (complete_parts uid db)) (total_chunks (complete_parts uid db))
        (parts_etag (complete_parts uid db)) now
        (supersedeCurrentVersion (o_bucket ob) (o_key ob) newID now (snd (reparent newID uid db1))) = Inr (obj, db3)"
      and db': "db' = complete_session uid newID now (orphan_leftovers uid now db3)"
    using eq' by (rule CompleteMultipart_success)
  have o: "o_id ob = newID" "o_state ob = ObjectUploading" by (simp_all add: ob new_object_def)
  note st = staged [where uid = uid, OF wf new o db1 refl]
  have "store_ok db'" using ok_multipart(4) [OF ok, of uid expected newID now] eq by simp
  moreover have "HeadObject b k db' = HeadObject b k db3" for b k by (simp add: HeadObject_def db')
  moreover have "HeadObject b k (snd (reparent newID uid db1)) = HeadObject b k db" for b k
    using o(2) by (simp add: HeadObject_complete_rows complete_rows_def reparent_eq db1)
  ultimately show ?thesis using publish_effect(1,3) [OF st(3) st(5) [OF tr] st(4) o(2) fin] Inr by (auto simp: publishes_def)
qed

lemma publishes_DeleteObject:
  assumes ok: "store_ok db"
  shows "publishes b k db (snd (DeleteObject b k now db))" and "\<exists>r. fst (DeleteObject b k now db) = Inr r"
proof -
  let ?f = "\<lambda>x. if is_current b k x then retire_object now x else x"
  have ok': "store_ok (snd (DeleteObject b k now db))" by (rule ok_objects(5) [OF ok])
  have rows: "objects (snd (DeleteObject b k now db)) = map ?f (objects db)"
    by (auto simp: DeleteObject_def inTx_def Let_def sql_update_def split: list.splits)
  have "HeadObject b' k' (snd (DeleteObject b k now db)) = HeadObject b' k' db" if bk: "(b', k') \<noteq> (b, k)" for b' k'
  proof (rule HeadObject_frame [OF store_okD(1) [OF ok] store_okD(1) [OF ok'] rows])
    fix x assume "is_current b' k' x \<or> is_current b' k' (?f x)"
    then show "?f x = x" using bk by (cases "is_current b k x") auto
  qed
  then show "publishes b k db (snd (DeleteObject b k now db))" using ok' by (simp add: publishes_def)
  show "\<exists>r. fst (DeleteObject b k now db) = Inr r" by (auto simp: DeleteObject_def inTx_def Let_def split: list.splits)
qed

end
