(* ===== verification/Validation.thy ===== *)
theory Validation
  imports Go_Strings
begin

text \<open>
  \<^verbatim>\<open>internal/coordinator/validate.go\<close>: which bucket names and object keys are accepted, with the parts
  of \<^verbatim>\<open>unicode/utf8\<close> and \<^verbatim>\<open>strings\<close> it uses.
\<close>

section \<open>UTF-8\<close>

text \<open>The runes of a string, if it is well-formed: no overlong forms, no surrogates, at most 10FFFF.\<close>

definition cont :: "nat \<Rightarrow> bool" where
  "cont b \<longleftrightarrow> 128 \<le> b \<and> b < 192"

fun utf8_runes :: "nat list \<Rightarrow> nat list option" where
  "utf8_runes [] = Some []"
| "utf8_runes (a # xs) =
     (if a < 128 then map_option ((#) a) (utf8_runes xs)
      else (case xs of
          [] \<Rightarrow> None
        | b # ys \<Rightarrow>
            if 194 \<le> a \<and> a < 224 \<and> cont b
            then map_option ((#) ((a - 192) * 64 + (b - 128))) (utf8_runes ys)
            else (case ys of
                [] \<Rightarrow> None
              | c # zs \<Rightarrow>
                  if 224 \<le> a \<and> a < 240 \<and> cont b \<and> cont c \<and> (a = 224 \<longrightarrow> 160 \<le> b) \<and> (a = 237 \<longrightarrow> b < 160)
                  then map_option ((#) ((a - 224) * 4096 + (b - 128) * 64 + (c - 128))) (utf8_runes zs)
                  else (case zs of
                      [] \<Rightarrow> None
                    | d # ws \<Rightarrow>
                        if 240 \<le> a \<and> a < 245 \<and> cont b \<and> cont c \<and> cont d \<and> (a = 240 \<longrightarrow> 144 \<le> b) \<and> (a = 244 \<longrightarrow> b < 144)
                        then map_option ((#) ((a - 240) * 262144 + (b - 128) * 4096 + (c - 128) * 64 + (d - 128))) (utf8_runes ws)
                        else None))))"

definition runes :: "string \<Rightarrow> nat list option" where
  "runes s = utf8_runes (map of_char s)"

section \<open>Strings\<close>

definition Contains :: "string \<Rightarrow> string \<Rightarrow> bool" where
  "Contains s t \<longleftrightarrow> list_ex (\<lambda>i. HasPrefix (drop i s) t) [0..<length s + 1]"

fun Split :: "char \<Rightarrow> string \<Rightarrow> string list" where
  "Split c [] = [[]]"
| "Split c (x # xs) = (if x = c then [] # Split c xs else (case Split c xs of [] \<Rightarrow> [[x]] | y # ys \<Rightarrow> (x # y) # ys))"

section \<open>Buckets and keys\<close>

definition maxBucketLen :: nat where "maxBucketLen = 63"

definition minBucketLen :: nat where "minBucketLen = 3"

definition maxKeyLen :: nat where "maxKeyLen = 1024"

datatype validation_error = ErrInvalidBucket | ErrInvalidKey

definition bucket_char :: "char \<Rightarrow> bool" where
  "bucket_char c \<longleftrightarrow> (CHR ''a'' \<le> c \<and> c \<le> CHR ''z'') \<or> (CHR ''0'' \<le> c \<and> c \<le> CHR ''9'') \<or> c = CHR ''-'' \<or> c = CHR ''.''"

definition ValidateBucket :: "string \<Rightarrow> validation_error option" where
  "ValidateBucket b =
     (if length b < minBucketLen \<or> length b > maxBucketLen then Some ErrInvalidBucket
      else if \<not> list_all bucket_char b then Some ErrInvalidBucket
      else if b ! 0 = CHR ''-'' \<or> b ! 0 = CHR ''.'' \<or> b ! (length b - 1) = CHR ''-'' \<or> b ! (length b - 1) = CHR ''.''
      then Some ErrInvalidBucket
      else if Contains b ''..'' then Some ErrInvalidBucket
      else None)"

definition ValidateKey :: "string \<Rightarrow> validation_error option" where
  "ValidateKey k =
     (if k = [] then Some ErrInvalidKey
      else if length k > maxKeyLen then Some ErrInvalidKey
      else (case runes k of
          None \<Rightarrow> Some ErrInvalidKey
        | Some rs \<Rightarrow>
            if HasPrefix k ''/'' then Some ErrInvalidKey
            else if ''..'' \<in> set (Split (CHR ''/'') k) then Some ErrInvalidKey
            else if list_ex (\<lambda>r. r < 32 \<or> r = 127) rs then Some ErrInvalidKey
            else None))"

lemma bucket_no_colon: "ValidateBucket b = None \<Longrightarrow> CHR '':'' \<notin> set b"
proof -
  assume "ValidateBucket b = None"
  then have "\<forall>c \<in> set b. bucket_char c" by (auto simp: ValidateBucket_def list_all_iff split: if_splits)
  moreover have "\<not> bucket_char (CHR '':'')" by (simp add: bucket_char_def less_eq_char_def)
  ultimately show ?thesis by blast
qed

end
