(* ===== verification/Cache.thy ===== *)
theory Cache
  imports Validation
begin

text \<open>
  \<^verbatim>\<open>internal/cache/cache.go\<close>: the cache of metadata, as the interface \<^verbatim>\<open>Cache\<close> and its two
  implementations. Values have a type \<open>'v\<close>; the destination type of a read is the predicate \<open>want\<close>.
  Redis is not part of the program: the client is an argument, and so is JSON.

  The contract \<open>cache_contract\<close> is what the coordinator relies on: a read returns only what was last
  stored under its key, when keys have the type of value \<open>kind\<close>. It is all a cache that loses entries at will can promise.
\<close>

datatype 'v get_reply = Hit 'v | ErrMiss | CacheError

datatype lock_reply = LockHeld string | LockBusy | LockError

record ('v, 'c) cache =
  ca_Get :: "('v \<Rightarrow> bool) \<Rightarrow> string \<Rightarrow> 'c \<Rightarrow> 'v get_reply \<times> 'c"
  ca_Set :: "string \<Rightarrow> 'v \<Rightarrow> duration \<Rightarrow> 'c \<Rightarrow> bool \<times> 'c"
  ca_Delete :: "string list \<Rightarrow> 'c \<Rightarrow> bool \<times> 'c"
  ca_AcquireLock :: "string \<Rightarrow> duration \<Rightarrow> string \<Rightarrow> 'c \<Rightarrow> lock_reply \<times> 'c"
  ca_release :: "string \<Rightarrow> string \<Rightarrow> 'c \<Rightarrow> 'c"

section \<open>No cache\<close>

definition Noop :: "('v, 'c) cache" where
  "Noop = \<lparr>ca_Get = (\<lambda>want k c. (ErrMiss, c)), ca_Set = (\<lambda>k v ttl c. (True, c)), ca_Delete = (\<lambda>ks c. (True, c)),
     ca_AcquireLock = (\<lambda>k ttl token c. (LockHeld token, c)), ca_release = (\<lambda>k token c. c)\<rparr>"

section \<open>Redis\<close>

datatype redis_reply = RedisNil | RedisBytes string | RedisError

record 'r redis =
  rd_Get :: "string \<Rightarrow> 'r \<Rightarrow> redis_reply \<times> 'r"
  rd_Set :: "string \<Rightarrow> string \<Rightarrow> duration \<Rightarrow> 'r \<Rightarrow> bool \<times> 'r"
  rd_Del :: "string list \<Rightarrow> 'r \<Rightarrow> bool \<times> 'r"
  rd_SetNX :: "string \<Rightarrow> string \<Rightarrow> duration \<Rightarrow> 'r \<Rightarrow> bool option \<times> 'r"
  rd_DelIfEqual :: "string \<Rightarrow> string \<Rightarrow> 'r \<Rightarrow> 'r"

text \<open>The key prefix and the JSON codec; decoding depends on the type wanted.\<close>

record 'v codec =
  cd_Marshal :: "'v \<Rightarrow> string option"
  cd_Unmarshal :: "('v \<Rightarrow> bool) \<Rightarrow> string \<Rightarrow> 'v option"

definition redis_key :: "string \<Rightarrow> string \<Rightarrow> string" where
  "redis_key prefix k = prefix @ '':'' @ k"

definition Redis_Get :: "string \<Rightarrow> 'r redis \<Rightarrow> 'v codec \<Rightarrow> ('v \<Rightarrow> bool) \<Rightarrow> string \<Rightarrow> 'r \<Rightarrow> 'v get_reply \<times> 'r" where
  "Redis_Get prefix client json want key r =
     (case rd_Get client (redis_key prefix key) r of
        (RedisNil, r') \<Rightarrow> (ErrMiss, r')
      | (RedisError, r') \<Rightarrow> (CacheError, r')
      | (RedisBytes b, r') \<Rightarrow>
          (case cd_Unmarshal json want b of
             None \<Rightarrow> (ErrMiss, snd (rd_Del client [redis_key prefix key] r'))
           | Some v \<Rightarrow> (Hit v, r')))"

definition Redis_Set :: "string \<Rightarrow> 'r redis \<Rightarrow> 'v codec \<Rightarrow> string \<Rightarrow> 'v \<Rightarrow> duration \<Rightarrow> 'r \<Rightarrow> bool \<times> 'r" where
  "Redis_Set prefix client json key val ttl r =
     (case cd_Marshal json val of
        None \<Rightarrow> (False, r)
      | Some b \<Rightarrow> rd_Set client (redis_key prefix key) b ttl r)"

definition Redis_Delete :: "string \<Rightarrow> 'r redis \<Rightarrow> string list \<Rightarrow> 'r \<Rightarrow> bool \<times> 'r" where
  "Redis_Delete prefix client keys r =
     (if keys = [] then (True, r) else rd_Del client (map (redis_key prefix) keys) r)"

definition Redis_AcquireLock :: "string \<Rightarrow> 'r redis \<Rightarrow> string \<Rightarrow> duration \<Rightarrow> string \<Rightarrow> 'r \<Rightarrow> lock_reply \<times> 'r" where
  "Redis_AcquireLock prefix client key ttl token r =
     (case rd_SetNX client (redis_key prefix (''lock:'' @ key)) token ttl r of
        (None, r') \<Rightarrow> (LockError, r')
      | (Some ok, r') \<Rightarrow> if ok then (LockHeld token, r') else (LockBusy, r'))"

definition Redis_release :: "string \<Rightarrow> 'r redis \<Rightarrow> string \<Rightarrow> string \<Rightarrow> 'r \<Rightarrow> 'r" where
  "Redis_release prefix client key token r = rd_DelIfEqual client (redis_key prefix (''lock:'' @ key)) token r"

definition Redis :: "string \<Rightarrow> 'r redis \<Rightarrow> 'v codec \<Rightarrow> ('v, 'r) cache" where
  "Redis prefix client json = \<lparr>ca_Get = Redis_Get prefix client json, ca_Set = Redis_Set prefix client json,
     ca_Delete = Redis_Delete prefix client, ca_AcquireLock = Redis_AcquireLock prefix client, ca_release = Redis_release prefix client\<rparr>"

section \<open>Keys\<close>

definition ObjectKey :: "string \<Rightarrow> string \<Rightarrow> string" where
  "ObjectKey bucket key = ''obj:'' @ bucket @ '':'' @ key"

definition NodesKey :: string where
  "NodesKey = ''nodes:healthy''"

definition MultipartKey :: "string \<Rightarrow> string" where
  "MultipartKey uploadID = ''mpu:'' @ uploadID"

text \<open>Entries of different objects have different keys, because a bucket name has no colon.\<close>

lemma append_sep_inj:
  "c \<notin> set a \<Longrightarrow> c \<notin> set a' \<Longrightarrow> a @ c # b = a' @ c # b' \<longleftrightarrow> a = a' \<and> b = b'"
proof (induction a arbitrary: a')
  case (Cons x a)
  then show ?case by (cases a') auto
qed (auto simp: Cons_eq_append_conv)

lemma ObjectKey_inj:
  assumes "ValidateBucket b = None" and "ValidateBucket b' = None"
  shows "ObjectKey b k = ObjectKey b' k' \<longleftrightarrow> b = b' \<and> k = k'"
  using append_sep_inj [OF bucket_no_colon [OF assms(1)] bucket_no_colon [OF assms(2)], of k k'] by (simp add: ObjectKey_def)

lemma keys_apart [simp]:
  "ObjectKey b k \<noteq> NodesKey" "ObjectKey b k \<noteq> MultipartKey u" "NodesKey \<noteq> ObjectKey b k" "MultipartKey u \<noteq> ObjectKey b k"
  "NodesKey \<noteq> MultipartKey u" "MultipartKey u \<noteq> NodesKey"
  "ObjectKey b k \<noteq> ''lock:'' @ l" "NodesKey \<noteq> ''lock:'' @ l" "MultipartKey u \<noteq> ''lock:'' @ l"
  by (simp_all add: ObjectKey_def NodesKey_def MultipartKey_def)

section \<open>The contract\<close>

locale cache_contract =
  fixes C :: "('v, 'c) cache" and kind :: "string \<Rightarrow> 'v \<Rightarrow> bool" and held :: "'c \<Rightarrow> string \<Rightarrow> 'v option"
  assumes get_hit: "ca_Get C (kind k) k c = (Hit v, c') \<Longrightarrow> held c k = Some v"
    and get_keeps: "held (snd (ca_Get C want k c)) \<subseteq>\<^sub>m held c"
    and set_adds: "kind k v \<Longrightarrow> held (snd (ca_Set C k v ttl c)) k' = Some w \<Longrightarrow> held c k' = Some w \<or> k' = k \<and> w = v"
    and delete_keeps: "held (snd (ca_Delete C ks c)) \<subseteq>\<^sub>m held c"
    and delete_removes: "fst (ca_Delete C ks c) \<Longrightarrow> k \<in> set ks \<Longrightarrow> held (snd (ca_Delete C ks c)) k = None"
    and lock_keeps: "\<forall>l. k \<noteq> ''lock:'' @ l \<Longrightarrow> held (snd (ca_AcquireLock C key ttl token c)) k = Some v \<Longrightarrow> held c k = Some v"
    and release_keeps: "\<forall>l. k \<noteq> ''lock:'' @ l \<Longrightarrow> held (ca_release C key token c) k = Some v \<Longrightarrow> held c k = Some v"
begin

text \<open>A property of all entries survives every operation that adds no entry without it.\<close>

definition entries :: "(string \<Rightarrow> 'v \<Rightarrow> bool) \<Rightarrow> 'c \<Rightarrow> bool" where
  "entries P c \<longleftrightarrow> (\<forall>k v. (\<forall>l. k \<noteq> ''lock:'' @ l) \<and> held c k = Some v \<longrightarrow> P k v)"

lemma entries_hit: "entries P c \<Longrightarrow> \<forall>l. k \<noteq> ''lock:'' @ l \<Longrightarrow> ca_Get C (kind k) k c = (Hit v, c') \<Longrightarrow> P k v"
  unfolding entries_def using get_hit by blast

lemma entries_sub: "entries P c \<Longrightarrow> held c' \<subseteq>\<^sub>m held c \<Longrightarrow> entries P c'"
  unfolding entries_def map_le_def by (metis domI)

lemma entries_get: "entries P c \<Longrightarrow> entries P (snd (ca_Get C want k c))"
  by (rule entries_sub [OF _ get_keeps])

lemma entries_set: "entries P c \<Longrightarrow> kind k v \<Longrightarrow> P k v \<Longrightarrow> entries P (snd (ca_Set C k v ttl c))"
  using set_adds [of k v ttl c] unfolding entries_def by blast

lemma entries_delete: "entries P c \<Longrightarrow> entries P (snd (ca_Delete C ks c))"
  by (rule entries_sub [OF _ delete_keeps])

lemma entries_deleted:
  assumes "entries P c" and "fst (ca_Delete C ks c)" and "\<And>k v. k \<notin> set ks \<Longrightarrow> P k v \<Longrightarrow> Q k v"
  shows "entries Q (snd (ca_Delete C ks c))"
proof -
  have "entries P (snd (ca_Delete C ks c))" by (rule entries_delete [OF assms(1)])
  then show ?thesis using assms(3) delete_removes [OF assms(2)] unfolding entries_def by (metis option.distinct(1))
qed

lemma entries_lock: "entries P c \<Longrightarrow> entries P (snd (ca_AcquireLock C key ttl token c))"
  unfolding entries_def using lock_keeps by blast

lemma entries_release: "entries P c \<Longrightarrow> entries P (ca_release C key token c)"
  unfolding entries_def using release_keeps by blast

end

interpretation noop: cache_contract Noop kind "\<lambda>c k. None"
  by unfold_locales (simp_all add: Noop_def)

text \<open>
  What Redis documents of the commands used, over the string keys it holds: \<^verbatim>\<open>GET\<close> returns the value held,
  \<^verbatim>\<open>SET\<close> replaces it, unless it fails, \<^verbatim>\<open>DEL\<close> removes it, \<^verbatim>\<open>SETNX\<close> touches its key only; entries may expire
  or be evicted at any time. With that and a codec that decodes what it encoded, the Redis cache keeps the contract.
\<close>

definition redis_laws :: "'r redis \<Rightarrow> ('r \<Rightarrow> string \<Rightarrow> string option) \<Rightarrow> bool" where
  "redis_laws R at \<longleftrightarrow>
     (\<forall>k r b r'. rd_Get R k r = (RedisBytes b, r') \<longrightarrow> at r k = Some b)
   \<and> (\<forall>k r. at (snd (rd_Get R k r)) \<subseteq>\<^sub>m at r)
   \<and> (\<forall>k b ttl r k' b'. at (snd (rd_Set R k b ttl r)) k' = Some b' \<longrightarrow> at r k' = Some b' \<or> k' = k \<and> b' = b)
   \<and> (\<forall>ks r. at (snd (rd_Del R ks r)) \<subseteq>\<^sub>m at r)
   \<and> (\<forall>ks r k. fst (rd_Del R ks r) \<longrightarrow> k \<in> set ks \<longrightarrow> at (snd (rd_Del R ks r)) k = None)
   \<and> (\<forall>k b ttl r k' b'. at (snd (rd_SetNX R k b ttl r)) k' = Some b' \<longrightarrow> at r k' = Some b' \<or> k' = k \<and> b' = b)
   \<and> (\<forall>k b r. at (rd_DelIfEqual R k b r) \<subseteq>\<^sub>m at r)"

definition codec_laws :: "'v codec \<Rightarrow> bool" where
  "codec_laws J \<longleftrightarrow> (\<forall>v b want v'. want v \<longrightarrow> cd_Marshal J v = Some b \<longrightarrow> cd_Unmarshal J want b = Some v' \<longrightarrow> v' = v)"

definition redis_held :: "string \<Rightarrow> 'v codec \<Rightarrow> (string \<Rightarrow> 'v \<Rightarrow> bool) \<Rightarrow> ('r \<Rightarrow> string \<Rightarrow> string option) \<Rightarrow> 'r \<Rightarrow> string \<Rightarrow> 'v option" where
  "redis_held prefix J kind at r k = (case at r (redis_key prefix k) of None \<Rightarrow> None | Some b \<Rightarrow> cd_Unmarshal J (kind k) b)"

lemma redis_key_inj [simp]: "redis_key p k = redis_key p k' \<longleftrightarrow> k = k'"
  by (simp add: redis_key_def)

lemma redis_held_mono: "at r' \<subseteq>\<^sub>m at r \<Longrightarrow> redis_held p J kind at r' \<subseteq>\<^sub>m redis_held p J kind at r"
  by (auto simp: redis_held_def map_le_def dom_def split: option.splits)

lemma redis_lawsD:
  assumes "redis_laws R at"
  shows "rd_Get R k r = (RedisBytes b, r') \<Longrightarrow> at r k = Some b"
    and "at (snd (rd_Get R k r)) \<subseteq>\<^sub>m at r"
    and "at (snd (rd_Set R k b ttl r)) k' = Some b' \<Longrightarrow> at r k' = Some b' \<or> k' = k \<and> b' = b"
    and "at (snd (rd_Del R ks r)) \<subseteq>\<^sub>m at r"
    and "fst (rd_Del R ks r) \<Longrightarrow> k \<in> set ks \<Longrightarrow> at (snd (rd_Del R ks r)) k = None"
    and "at (snd (rd_SetNX R k b ttl r)) k' = Some b' \<Longrightarrow> at r k' = Some b' \<or> k' = k \<and> b' = b"
    and "at (rd_DelIfEqual R k b r) \<subseteq>\<^sub>m at r"
  using assms by (auto simp: redis_laws_def)

lemma Redis_Get_hit:
  assumes "redis_laws R at" and "Redis_Get p R J (kind k) k c = (Hit v, c')"
  shows "redis_held p J kind at c k = Some v"
proof (cases "rd_Get R (redis_key p k) c")
  case (Pair reply r')
  show ?thesis
  proof (cases reply)
    case (RedisBytes b)
    then have "at c (redis_key p k) = Some b" using redis_lawsD(1) [OF assms(1)] Pair by simp
    then show ?thesis using assms(2) Pair RedisBytes by (auto simp: Redis_Get_def redis_held_def split: option.splits)
  qed (use assms(2) Pair in \<open>auto simp: Redis_Get_def\<close>)
qed

lemma Redis_Get_keeps:
  assumes "redis_laws R at"
  shows "redis_held p J kind at (snd (Redis_Get p R J want k c)) \<subseteq>\<^sub>m redis_held p J kind at c"
proof (rule redis_held_mono, cases "rd_Get R (redis_key p k) c")
  case (Pair reply r')
  have a: "at r' \<subseteq>\<^sub>m at c" using redis_lawsD(2) [OF assms, of "redis_key p k" c] Pair by simp
  have b: "at (snd (rd_Del R [redis_key p k] r')) \<subseteq>\<^sub>m at c" by (rule map_le_trans [OF redis_lawsD(4) [OF assms] a])
  show "at (snd (Redis_Get p R J want k c)) \<subseteq>\<^sub>m at c"
    using a b Pair by (auto simp: Redis_Get_def split: redis_reply.splits option.splits)
qed

lemma Redis_Set_adds:
  assumes "redis_laws R at" and "codec_laws J" and "kind k v"
    and "redis_held p J kind at (snd (Redis_Set p R J k v ttl c)) k' = Some w"
  shows "redis_held p J kind at c k' = Some w \<or> k' = k \<and> w = v"
proof (cases "cd_Marshal J v")
  case (Some b)
  define r' where "r' = snd (rd_Set R (redis_key p k) b ttl c)"
  have h: "redis_held p J kind at r' k' = Some w" using assms(4) Some by (simp add: Redis_Set_def r'_def)
  then obtain b' where b': "at r' (redis_key p k') = Some b'" "cd_Unmarshal J (kind k') b' = Some w"
    by (auto simp: redis_held_def split: option.splits)
  have "at c (redis_key p k') = Some b' \<or> redis_key p k' = redis_key p k \<and> b' = b"
    using redis_lawsD(3) [OF assms(1)] b'(1) unfolding r'_def by blast
  moreover have "w = v" if "k' = k" "b' = b" using that b'(2) assms(2,3) Some unfolding codec_laws_def by blast
  ultimately show ?thesis using b'(2) by (auto simp: redis_held_def)
qed (use assms(4) in \<open>simp add: Redis_Set_def\<close>)

lemma Redis_Delete_removes:
  assumes "redis_laws R at" and "fst (Redis_Delete p R ks c)" and "k \<in> set ks"
  shows "redis_held p J kind at (snd (Redis_Delete p R ks c)) k = None"
proof -
  have "fst (rd_Del R (map (redis_key p) ks) c)" using assms(2,3) by (auto simp: Redis_Delete_def split: if_splits)
  moreover have "redis_key p k \<in> set (map (redis_key p) ks)" using assms(3) by simp
  ultimately have "at (snd (rd_Del R (map (redis_key p) ks) c)) (redis_key p k) = None" by (rule redis_lawsD(5) [OF assms(1)])
  then show ?thesis using assms(3) by (auto simp: Redis_Delete_def redis_held_def)
qed

lemma Redis_lock_keeps:
  assumes "redis_laws R at" and "\<forall>l. k \<noteq> ''lock:'' @ l"
    and "redis_held p J kind at (snd (Redis_AcquireLock p R key ttl token c)) k = Some v"
  shows "redis_held p J kind at c k = Some v"
proof -
  define r' where "r' = snd (rd_SetNX R (redis_key p (''lock:'' @ key)) token ttl c)"
  have h: "redis_held p J kind at r' k = Some v"
    using assms(3) by (auto simp: Redis_AcquireLock_def r'_def split: prod.splits option.splits if_splits)
  then obtain b where b: "at r' (redis_key p k) = Some b" by (auto simp: redis_held_def split: option.splits)
  then have "at c (redis_key p k) = Some b"
    using redis_lawsD(6) [OF assms(1)] assms(2) redis_key_inj unfolding r'_def by blast
  then show ?thesis using h b by (simp add: redis_held_def)
qed

theorem Redis_contract:
  assumes laws: "redis_laws R at" and codec: "codec_laws J"
  shows "cache_contract (Redis p R J) kind (redis_held p J kind at)"
proof
  show "redis_held p J kind at (ca_release (Redis p R J) key token c) k = Some v \<Longrightarrow> redis_held p J kind at c k = Some v" for key token c k v
    using redis_held_mono [of at, OF redis_lawsD(7) [OF laws]] by (fastforce simp: Redis_def Redis_release_def map_le_def dom_def)
  show "redis_held p J kind at (snd (ca_Delete (Redis p R J) ks c)) \<subseteq>\<^sub>m redis_held p J kind at c" for ks c
    using redis_held_mono [of at, OF redis_lawsD(4) [OF laws]] by (auto simp: Redis_def Redis_Delete_def)
  show "redis_held p J kind at c k = Some v"
    if "\<forall>l. k \<noteq> ''lock:'' @ l" "redis_held p J kind at (snd (ca_AcquireLock (Redis p R J) key ttl token c)) k = Some v" for k key ttl token c v
    by (rule Redis_lock_keeps [OF laws that(1)]) (use that(2) in \<open>simp add: Redis_def\<close>)
qed (auto simp: Redis_def intro: Redis_Get_hit [OF laws] Redis_Get_keeps [OF laws] Redis_Delete_removes [OF laws]
    dest: Redis_Set_adds [OF laws codec])

end
