(* ===== verification/Go_Float.thy ===== *)
theory Go_Float
  imports Complex_Main Flex_Prelude
begin

text \<open>
  Floating point. A \<^verbatim>\<open>float64\<close> is a real number in this development: rounding is not modelled. The
  code uses floats for weights, ratios and delays only; sizes, offsets and counters are integers.
\<close>

text \<open>\<^verbatim>\<open>int64(x)\<close> discards the fraction.\<close>

definition int64_of_float :: "real \<Rightarrow> int" where
  "int64_of_float x = (if x < 0 then \<lceil>x\<rceil> else \<lfloor>x\<rfloor>)"

lemma int64_of_float_mono: "x \<le> y \<Longrightarrow> int64_of_float x \<le> int64_of_float y"
proof -
  assume xy: "x \<le> y"
  have "\<lceil>x\<rceil> \<le> \<lfloor>y\<rfloor>" if "x < 0" "0 \<le> y"
  proof -
    have "\<lceil>x\<rceil> \<le> 0" "0 \<le> \<lfloor>y\<rfloor>" using that by linarith+
    then show ?thesis by (rule order_trans)
  qed
  with xy show ?thesis by (auto simp: int64_of_float_def intro: floor_mono ceiling_mono)
qed

lemma int64_of_float_of_int [simp]: "int64_of_float (of_int n) = n"
  by (simp add: int64_of_float_def)

lemma int64_of_float_nonneg: "0 \<le> x \<Longrightarrow> 0 \<le> int64_of_float x"
  by (simp add: int64_of_float_def)

end
