(* ===== verification/Placement.thy ===== *)
theory Placement
  imports Go_Float
begin

text \<open>
  \<^verbatim>\<open>internal/placement\<close>: which storage nodes get the replicas of a chunk. No lemma depends on the exact
  value of a weight. The random source of the weighted strategy is a generator state \<open>'g\<close> with the function \<^verbatim>\<open>Float64\<close>, an argument
  of the definitions.
\<close>

unbundle bit_operations_syntax

section \<open>Nodes and requests\<close>

datatype node_health = HealthUnknown | HealthHealthy | HealthSuspect | HealthDead

fun Health_String :: "node_health \<Rightarrow> string" where
  "Health_String HealthHealthy = ''HEALTHY''"
| "Health_String HealthSuspect = ''SUSPECT''"
| "Health_String HealthDead = ''DEAD''"
| "Health_String HealthUnknown = ''UNKNOWN''"

record NodeInfo =
  ni_ID :: string
  ni_Address :: string
  ni_Health :: node_health
  ni_TotalBytes :: int
  ni_UsedBytes :: int
  ni_AvailableBytes :: int
  ni_ActiveRequests :: int
  ni_ChunkCount :: int

definition FreeRatio :: "NodeInfo \<Rightarrow> real" where
  "FreeRatio n =
     (if ni_TotalBytes n \<le> 0 then 0
      else let r = of_int (ni_AvailableBytes n) / of_int (ni_TotalBytes n)
           in if r < 0 then 0 else if r > 1 then 1 else r)"

datatype placement_error = ErrInsufficientNodes | ErrInvalidRequest

record Request =
  rq_Key :: string
  rq_Replicas :: int
  rq_ChunkSize :: int
  rq_Exclude :: "string list"

definition excluded :: "Request \<Rightarrow> string \<Rightarrow> bool" where
  "excluded r i = list_ex (\<lambda>e. e = i) (rq_Exclude r)"

record placement_config =
  pc_AllowSuspect :: bool
  pc_CapacityHeadroom :: real
  pc_LoadPenalty :: real
  pc_MinWeight :: real

definition DefaultConfig :: placement_config where
  "DefaultConfig = \<lparr>pc_AllowSuspect = False, pc_CapacityHeadroom = 2, pc_LoadPenalty = 1, pc_MinWeight = 1 / 100\<rparr>"

definition eligibleNodes :: "NodeInfo list \<Rightarrow> Request \<Rightarrow> placement_config \<Rightarrow> NodeInfo list" where
  "eligibleNodes nodes req cfg =
     (let headroom = (if pc_CapacityHeadroom cfg < 1 then 1 else pc_CapacityHeadroom cfg);
          required = int64_of_float (of_int (rq_ChunkSize req) * headroom)
      in filter (\<lambda>n. \<not> (ni_Health n = HealthDead \<or> ni_Health n = HealthUnknown)
                   \<and> \<not> (ni_Health n = HealthSuspect \<and> \<not> pc_AllowSuspect cfg)
                   \<and> \<not> ni_AvailableBytes n < required
                   \<and> \<not> excluded req (ni_ID n)) nodes)"

section \<open>The weighted strategy\<close>

type_synonym weighted = "NodeInfo \<times> real"

definition Weighted_score :: "placement_config \<Rightarrow> NodeInfo \<Rightarrow> real" where
  "Weighted_score cfg n =
     (let w0 = FreeRatio n;
          w1 = (if pc_LoadPenalty cfg > 0 then w0 / (1 + pc_LoadPenalty cfg * of_int (ni_ActiveRequests n)) else w0);
          w2 = (if ni_Health n = HealthSuspect then w1 / 10 else w1)
      in if w2 < pc_MinWeight cfg then pc_MinWeight cfg else w2)"

definition by_score :: "(NodeInfo \<Rightarrow> real) \<Rightarrow> NodeInfo list \<Rightarrow> NodeInfo list" where
  "by_score score nodes = sort_key (\<lambda>n. (- score n, ni_ID n)) nodes"

definition eligible :: "placement_config \<Rightarrow> NodeInfo list \<Rightarrow> Request \<Rightarrow> weighted list" where
  "eligible cfg nodes req =
     map (\<lambda>n. (n, Weighted_score cfg n)) (by_score (Weighted_score cfg) (eligibleNodes nodes req cfg))"

definition total_weight :: "weighted list \<Rightarrow> real" where
  "total_weight items = foldl (\<lambda>t it. if snd it > 0 then t + snd it else t) 0 items"

fun sample_loop :: "real \<Rightarrow> real \<Rightarrow> nat \<Rightarrow> weighted list \<Rightarrow> nat option" where
  "sample_loop target acc i [] = None"
| "sample_loop target acc i (it # items) =
     (if snd it \<le> 0 then sample_loop target acc (i + 1) items
      else if target < acc + snd it then Some i
      else sample_loop target (acc + snd it) (i + 1) items)"

text \<open>\<^verbatim>\<open>sampleIndex\<close>; the result -1, all weights being non-positive, is \<^const>\<open>None\<close>.\<close>

definition sampleIndex :: "('g \<Rightarrow> real \<times> 'g) \<Rightarrow> weighted list \<Rightarrow> 'g \<Rightarrow> nat option \<times> 'g" where
  "sampleIndex Float64 items g =
     (if total_weight items \<le> 0 then (None, g)
      else let (r, g') = Float64 g
           in (case sample_loop (r * total_weight items) 0 0 items of
                 Some i \<Rightarrow> (Some i, g')
               | None \<Rightarrow> (Some (length items - 1), g')))"

lemma sample_loop_bound: "sample_loop target acc i items = Some k \<Longrightarrow> i \<le> k \<and> k < i + length items"
  by (induction target acc i items arbitrary: k rule: sample_loop.induct) (fastforce split: if_splits)+

lemma sampleIndex_bound:
  "items \<noteq> [] \<Longrightarrow> sampleIndex Float64 items g = (Some i, g') \<Longrightarrow> i < length items"
  by (auto simp: sampleIndex_def split: if_splits prod.splits option.splits dest: sample_loop_bound)

text \<open>The selection loop. \<open>chosen\<close> holds the IDs of \<open>selected\<close>; the loop ends when \<open>remaining\<close> is empty.\<close>

function weighted_loop ::
  "('g \<Rightarrow> real \<times> 'g) \<Rightarrow> int \<Rightarrow> NodeInfo list \<Rightarrow> string set \<Rightarrow> weighted list \<Rightarrow> 'g \<Rightarrow> NodeInfo list"
where
  "weighted_loop Float64 replicas selected chosen remaining g =
     (if int (length selected) \<ge> replicas \<or> remaining = [] then selected
      else let (oi, g') = sampleIndex Float64 remaining g;
               idx = (case oi of None \<Rightarrow> 0 | Some i \<Rightarrow> i);
               pick = fst (remaining ! idx);
               dup = ni_ID pick \<in> chosen
           in weighted_loop Float64 replicas (if dup then selected else selected @ [pick])
                (if dup then chosen else insert (ni_ID pick) chosen)
                (take idx remaining @ drop (idx + 1) remaining) g')"
  by pat_completeness auto

termination
proof (relation "measure (\<lambda>(f, r, s, c, remaining, g). length remaining)")
  fix Float64 :: "'g \<Rightarrow> real \<times> 'g" and replicas :: int and selected :: "NodeInfo list" and chosen :: "string set"
    and remaining :: "weighted list" and g p oi g' idx and pick :: NodeInfo and dup
  assume "\<not> (replicas \<le> int (length selected) \<or> remaining = [])" "p = sampleIndex Float64 remaining g"
    "(oi, g') = p" "idx = (case oi of None \<Rightarrow> 0 | Some i \<Rightarrow> i)"
  then have "idx < length remaining"
    using sampleIndex_bound [of remaining Float64 g _ g'] by (cases oi) auto
  then show "((Float64, replicas, if dup then selected else selected @ [pick],
       if dup then chosen else insert (ni_ID pick) chosen, take idx remaining @ drop (idx + 1) remaining, g'),
      Float64, replicas, selected, chosen, remaining, g) \<in> measure (\<lambda>(f, r, s, c, remaining, g). length remaining)"
    by simp
qed simp

declare weighted_loop.simps [simp del]

definition Weighted_SelectNodes ::
  "('g \<Rightarrow> real \<times> 'g) \<Rightarrow> 'g \<Rightarrow> placement_config \<Rightarrow> NodeInfo list \<Rightarrow> Request \<Rightarrow> placement_error + NodeInfo list"
where
  "Weighted_SelectNodes Float64 g cfg nodes req =
     (if rq_Replicas req < 1 then Inl ErrInvalidRequest
      else if rq_ChunkSize req < 0 then Inl ErrInvalidRequest
      else let candidates = eligible cfg nodes req in
        if int (length candidates) < rq_Replicas req then Inl ErrInsufficientNodes
        else let selected = weighted_loop Float64 (rq_Replicas req) [] {} candidates g in
          if int (length selected) < rq_Replicas req then Inl ErrInsufficientNodes else Inr selected)"

section \<open>The rendezvous strategy\<close>

definition mix64 :: "64 word \<Rightarrow> 64 word" where
  "mix64 x0 =
     (let x1 = x0 XOR drop_bit 33 x0;
          x2 = x1 * 0xff51afd7ed558ccd;
          x3 = x2 XOR drop_bit 33 x2;
          x4 = x3 * 0xc4ceb9fe1a85ec53
      in x4 XOR drop_bit 33 x4)"

text \<open>\<^verbatim>\<open>hash/fnv\<close>, 64-bit FNV-1a.\<close>

definition fnv_write :: "64 word \<Rightarrow> 8 word list \<Rightarrow> 64 word" where
  "fnv_write h bs = foldl (\<lambda>h b. (h XOR ucast b) * 1099511628211) h bs"

definition string_bytes :: "string \<Rightarrow> 8 word list" where
  "string_bytes s = map (\<lambda>c. of_nat (of_char c)) s"

definition PutUint64 :: "64 word \<Rightarrow> 8 word list" where
  "PutUint64 n = map (\<lambda>i. ucast (drop_bit (8 * (7 - i)) n)) [0..<8]"

definition hashUnitInterval :: "string \<Rightarrow> string \<Rightarrow> real" where
  "hashUnitInterval key nodeID =
     (let h = fnv_write (fnv_write (fnv_write 14695981039346656037 (PutUint64 (of_nat (length key)))) (string_bytes key))
                (string_bytes nodeID);
          u = of_nat (unat (drop_bit 1 (mix64 h))) / 2 ^ 63;
          u1 = (if u \<le> 0 then 1 / 2 ^ 1074 else u)
      in if u1 \<ge> 1 then 1 - 1 / 2 ^ 53 else u1)"

definition Rendezvous_weight :: "placement_config \<Rightarrow> NodeInfo \<Rightarrow> real" where
  "Rendezvous_weight cfg n =
     (let w0 = FreeRatio n;
          w1 = (if pc_LoadPenalty cfg > 0 then w0 / (1 + pc_LoadPenalty cfg * of_int (ni_ActiveRequests n)) else w0);
          w2 = (if ni_Health n = HealthSuspect then w1 / 10 else w1)
      in if w2 < pc_MinWeight cfg then pc_MinWeight cfg else w2)"

definition Rendezvous_score :: "placement_config \<Rightarrow> string \<Rightarrow> NodeInfo \<Rightarrow> real" where
  "Rendezvous_score cfg key n =
     (let u = hashUnitInterval key (ni_ID n);
          w = Rendezvous_weight cfg n;
          w' = (if w \<le> 0 then (if pc_MinWeight cfg \<le> 0 then 1 / 10 ^ 9 else pc_MinWeight cfg) else w)
      in - w' / ln u)"

definition Rank :: "placement_config \<Rightarrow> NodeInfo list \<Rightarrow> Request \<Rightarrow> NodeInfo list" where
  "Rank cfg nodes req = by_score (Rendezvous_score cfg (rq_Key req)) (eligibleNodes nodes req cfg)"

definition Rendezvous_SelectNodes ::
  "placement_config \<Rightarrow> NodeInfo list \<Rightarrow> Request \<Rightarrow> placement_error + NodeInfo list"
where
  "Rendezvous_SelectNodes cfg nodes req =
     (if rq_Replicas req < 1 then Inl ErrInvalidRequest
      else if rq_ChunkSize req < 0 then Inl ErrInvalidRequest
      else if rq_Key req = [] then Inl ErrInvalidRequest
      else let candidates = eligibleNodes nodes req cfg in
        if int (length candidates) < rq_Replicas req then Inl ErrInsufficientNodes
        else Inr (take (nat (rq_Replicas req)) (by_score (Rendezvous_score cfg (rq_Key req)) candidates)))"


section \<open>Choosing a strategy\<close>

text \<open>The seed 0 stands for the runtime's random source.\<close>

datatype strategy = Weighted placement_config int | Rendezvous placement_config

definition New_strategy :: "string \<Rightarrow> placement_config \<Rightarrow> int \<Rightarrow> string + strategy" where
  "New_strategy name cfg seed =
     (if name = [] \<or> name = ''weighted'' then Inr (Weighted cfg seed)
      else if name = ''rendezvous'' then Inr (Rendezvous cfg)
      else Inl (''unknown placement strategy '' @ name))"

section \<open>Sorting by score\<close>

lemma by_score_simps [simp]:
  "set (by_score s nodes) = set nodes" "length (by_score s nodes) = length nodes"
  "distinct (map ni_ID (by_score s nodes)) = distinct (map ni_ID nodes)"
  by (simp_all add: by_score_def distinct_map)

lemma by_score_filter: "by_score s (filter P nodes) = filter P (by_score s nodes)"
  by (simp add: by_score_def filter_sort)

lemma by_score_order:
  "i < j \<Longrightarrow> j < length nodes \<Longrightarrow> s (by_score s nodes ! j) \<le> s (by_score s nodes ! i)"
  using sorted_nth_mono [of "map (\<lambda>n. (- s n, ni_ID n)) (by_score s nodes)" i j]
  by (auto simp: by_score_def less_eq_prod_def)

lemma eligibleNodes_filter: "eligibleNodes (filter P nodes) req cfg = filter P (eligibleNodes nodes req cfg)"
  by (simp add: eligibleNodes_def Let_def conj_commute)

lemma eligible_distinct: "distinct (map ni_ID nodes) \<Longrightarrow> distinct (map ni_ID (eligibleNodes nodes req cfg))"
  by (simp add: eligibleNodes_def Let_def distinct_map_filterI)

lemma eligibleD:
  assumes "n \<in> set (eligibleNodes nodes req cfg)"
  shows "n \<in> set nodes" "ni_Health n = HealthHealthy \<or> ni_Health n = HealthSuspect \<and> pc_AllowSuspect cfg"
    "ni_ID n \<notin> set (rq_Exclude req)" "0 \<le> rq_ChunkSize req \<Longrightarrow> rq_ChunkSize req \<le> ni_AvailableBytes n"
proof -
  let ?h = "if pc_CapacityHeadroom cfg < 1 then 1 else pc_CapacityHeadroom cfg"
  from assms show "n \<in> set nodes" "ni_Health n = HealthHealthy \<or> ni_Health n = HealthSuspect \<and> pc_AllowSuspect cfg"
    "ni_ID n \<notin> set (rq_Exclude req)"
    by (cases "ni_Health n"; auto simp: eligibleNodes_def Let_def excluded_def list_ex_iff)+
  assume c: "0 \<le> rq_ChunkSize req"
  then have "of_int (rq_ChunkSize req) * 1 \<le> of_int (rq_ChunkSize req) * ?h" by (intro mult_left_mono) auto
  then have "rq_ChunkSize req \<le> int64_of_float (of_int (rq_ChunkSize req) * ?h)"
    using c by (auto simp: int64_of_float_def le_floor_iff)
  then show "rq_ChunkSize req \<le> ni_AvailableBytes n" using assms by (auto simp: eligibleNodes_def Let_def)
qed

section \<open>The contract of a strategy\<close>

text \<open>
  The interface \<^verbatim>\<open>Strategy\<close>: a valid request is answered with exactly \<^verbatim>\<open>Replicas\<close> distinct eligible
  nodes if there are that many, and with an error otherwise.
\<close>

locale placement_strategy =
  fixes cfg :: placement_config and valid :: "Request \<Rightarrow> bool"
    and select :: "NodeInfo list \<Rightarrow> Request \<Rightarrow> placement_error + NodeInfo list"
  assumes valid_pos: "valid req \<Longrightarrow> 1 \<le> rq_Replicas req \<and> 0 \<le> rq_ChunkSize req"
    and invalid: "\<not> valid req \<Longrightarrow> select nodes req = Inl ErrInvalidRequest"
    and too_few: "valid req \<Longrightarrow> int (length (eligibleNodes nodes req cfg)) < rq_Replicas req \<Longrightarrow>
          select nodes req = Inl ErrInsufficientNodes"
    and enough: "valid req \<Longrightarrow> distinct (map ni_ID nodes) \<Longrightarrow> rq_Replicas req \<le> int (length (eligibleNodes nodes req cfg)) \<Longrightarrow>
          \<exists>out. select nodes req = Inr out \<and> int (length out) = rq_Replicas req \<and> distinct (map ni_ID out)
             \<and> set out \<subseteq> set (eligibleNodes nodes req cfg)"
begin

lemma select_success:
  assumes "distinct (map ni_ID nodes)" "select nodes req = Inr out"
  shows "valid req" "int (length out) = rq_Replicas req" "distinct (map ni_ID out)"
    "set out \<subseteq> set (eligibleNodes nodes req cfg)"
proof -
  show v: "valid req" using invalid assms(2) by fastforce
  have "rq_Replicas req \<le> int (length (eligibleNodes nodes req cfg))"
  proof (rule ccontr)
    assume "\<not> ?thesis"
    then show False using too_few [OF v, of nodes] assms(2) by simp
  qed
  from enough [OF v assms(1) this] assms(2)
  show "int (length out) = rq_Replicas req" "distinct (map ni_ID out)" "set out \<subseteq> set (eligibleNodes nodes req cfg)" by auto
qed

text \<open>What the upload path relies on.\<close>

lemma select_usable:
  assumes "distinct (map ni_ID nodes)" "select nodes req = Inr out" "n \<in> set out"
  shows "n \<in> set nodes \<and> ni_Health n \<notin> {HealthDead, HealthUnknown} \<and> rq_ChunkSize req \<le> ni_AvailableBytes n"
  using eligibleD [of n nodes req cfg] select_success [OF assms(1,2)] assms(3) valid_pos [of req] by auto

text \<open>What the repair path relies on: every selected node is a new holder.\<close>

lemma select_new_holders:
  assumes "distinct (map ni_ID nodes)" "select nodes req = Inr out"
  shows "int (card (set (rq_Exclude req) \<union> ni_ID ` set out)) = int (card (set (rq_Exclude req))) + rq_Replicas req"
proof -
  have "set (rq_Exclude req) \<inter> ni_ID ` set out = {}"
    using select_success(4) [OF assms] eligibleD(3) by fastforce
  then have "card (set (rq_Exclude req) \<union> ni_ID ` set out) = card (set (rq_Exclude req)) + card (ni_ID ` set out)"
    by (intro card_Un_disjoint) auto
  moreover have "card (ni_ID ` set out) = length out"
    using distinct_card [OF select_success(3) [OF assms]] by simp
  ultimately show ?thesis using select_success(2) [OF assms] by simp
qed

end

section \<open>Both strategies meet it\<close>

lemma weighted_loop_result:
  assumes "distinct (map ni_ID selected @ map (ni_ID \<circ> fst) remaining)" "chosen = ni_ID ` set selected"
    "int (length selected) \<le> replicas" "replicas \<le> int (length selected + length remaining)"
    "out = weighted_loop Float64 replicas selected chosen remaining g"
  shows "int (length out) = replicas \<and> distinct (map ni_ID out) \<and> set out \<subseteq> set selected \<union> fst ` set remaining"
  using assms
proof (induction Float64 replicas selected chosen remaining g arbitrary: out rule: weighted_loop.induct)
  case (1 Float64 replicas selected chosen remaining g)
  show ?case
  proof (cases "int (length selected) \<ge> replicas \<or> remaining = []")
    case True
    then have "out = selected" using 1(6) by (simp add: weighted_loop.simps)
    then show ?thesis using True 1(2-5) by auto
  next
    case False
    obtain oi g' where s: "sampleIndex Float64 remaining g = (oi, g')" by (metis surj_pair)
    define idx where "idx = (case oi of None \<Rightarrow> 0 | Some i \<Rightarrow> i)"
    have i: "idx < length remaining"
      using False sampleIndex_bound [of remaining Float64 g _ g'] s by (cases oi) (auto simp: idx_def)
    let ?pick = "fst (remaining ! idx)" and ?rest = "take idx remaining @ drop (idx + 1) remaining"
    have rem: "remaining = take idx remaining @ remaining ! idx # drop (idx + 1) remaining"
      using i by (simp add: id_take_nth_drop)
    have new: "ni_ID ?pick \<notin> chosen" using 1(2,3) i by (force simp: set_conv_nth)
    have "set remaining = insert (remaining ! idx) (set ?rest)" by (subst (1) rem) simp
    moreover have d: "distinct (map ni_ID (selected @ [?pick]) @ map (ni_ID \<circ> fst) ?rest)"
      using 1(2) by (subst (asm) rem) auto
    have out: "out = weighted_loop Float64 replicas (selected @ [?pick]) (insert (ni_ID ?pick) chosen) ?rest g'"
      using 1(6) False new s unfolding weighted_loop.simps [of Float64 replicas selected chosen remaining g]
      by (simp add: idx_def Let_def)
    have "int (length out) = replicas \<and> distinct (map ni_ID out) \<and> set out \<subseteq> set (selected @ [?pick]) \<union> fst ` set ?rest"
      by (rule 1(1) [OF False s [symmetric] refl idx_def refl refl, unfolded if_not_P [OF new], OF d _ _ _ out])
         (use 1(3,5) False i in auto)
    ultimately show ?thesis by auto
  qed
qed

interpretation weighted_strategy: placement_strategy cfg "\<lambda>req. 1 \<le> rq_Replicas req \<and> 0 \<le> rq_ChunkSize req"
  "Weighted_SelectNodes Float64 g cfg" for Float64 g cfg
proof
  fix req nodes
  assume v: "1 \<le> rq_Replicas req \<and> 0 \<le> rq_ChunkSize req" and d: "distinct (map ni_ID nodes)"
    and n: "rq_Replicas req \<le> int (length (eligibleNodes nodes req cfg))"
  let ?c = "eligible cfg nodes req"
  have "map (ni_ID \<circ> fst) ?c = map ni_ID (by_score (Weighted_score cfg) (eligibleNodes nodes req cfg))"
    by (simp add: eligible_def)
  then have "distinct (map ni_ID [] @ map (ni_ID \<circ> fst) ?c)" using eligible_distinct [OF d, of req cfg] by simp
  from weighted_loop_result [OF this _ _ _ refl, of "{}" "rq_Replicas req" Float64 g] v n
  show "\<exists>out. Weighted_SelectNodes Float64 g cfg nodes req = Inr out \<and> int (length out) = rq_Replicas req
      \<and> distinct (map ni_ID out) \<and> set out \<subseteq> set (eligibleNodes nodes req cfg)"
    by (auto simp: Weighted_SelectNodes_def eligible_def image_image)
qed (auto simp: Weighted_SelectNodes_def eligible_def)

interpretation rendezvous_strategy: placement_strategy cfg
  "\<lambda>req. 1 \<le> rq_Replicas req \<and> 0 \<le> rq_ChunkSize req \<and> rq_Key req \<noteq> []" "Rendezvous_SelectNodes cfg" for cfg
proof
  fix req nodes
  assume v: "1 \<le> rq_Replicas req \<and> 0 \<le> rq_ChunkSize req \<and> rq_Key req \<noteq> []" and d: "distinct (map ni_ID nodes)"
    and n: "rq_Replicas req \<le> int (length (eligibleNodes nodes req cfg))"
  let ?r = "by_score (Rendezvous_score cfg (rq_Key req)) (eligibleNodes nodes req cfg)"
  have "distinct (map ni_ID ?r)" using eligible_distinct [OF d, of req cfg] by simp
  then have "distinct (take k (map ni_ID ?r))" for k by (rule distinct_take)
  moreover have "set (take k ?r) \<subseteq> set (eligibleNodes nodes req cfg)" for k using set_take_subset [of k ?r] by simp
  ultimately show "\<exists>out. Rendezvous_SelectNodes cfg nodes req = Inr out \<and> int (length out) = rq_Replicas req
      \<and> distinct (map ni_ID out) \<and> set out \<subseteq> set (eligibleNodes nodes req cfg)"
    using v n by (simp add: Rendezvous_SelectNodes_def take_map)
qed (auto simp: Rendezvous_SelectNodes_def)


section \<open>Properties\<close>


definition ex_info :: "string \<Rightarrow> node_health \<Rightarrow> NodeInfo" where
  "ex_info i h = \<lparr>ni_ID = i, ni_Address = i, ni_Health = h, ni_TotalBytes = 100, ni_UsedBytes = 0, ni_AvailableBytes = 100,
     ni_ActiveRequests = 0, ni_ChunkCount = 0\<rparr>"

definition ex_nodes :: "NodeInfo list" where
  "ex_nodes = [ex_info ''n1'' HealthHealthy, ex_info ''n2'' HealthDead, ex_info ''n3'' HealthHealthy, ex_info ''n4'' HealthHealthy]"


text \<open>
  C22 (minimal movement). When a node leaves, the ranking of the others does not change: a chunk
  that was not placed on it keeps exactly its placement, and a chunk that was keeps its other
  nodes. The same holds, read backwards, for a node that joins.
\<close>

theorem rendezvous_minimal_movement:
  assumes out: "Rendezvous_SelectNodes cfg nodes req = Inr out"
    and out': "Rendezvous_SelectNodes cfg (filter (\<lambda>n. ni_ID n \<noteq> gone) nodes) req = Inr out'"
  shows "Rank cfg (filter (\<lambda>n. ni_ID n \<noteq> gone) nodes) req = filter (\<lambda>n. ni_ID n \<noteq> gone) (Rank cfg nodes req)
    \<and> (gone \<notin> ni_ID ` set out \<longrightarrow> out' = out) \<and> filter (\<lambda>n. ni_ID n \<noteq> gone) out = take (length (filter (\<lambda>n. ni_ID n \<noteq> gone) out)) out'"
proof -
  let ?P = "\<lambda>n. ni_ID n \<noteq> gone" and ?k = "nat (rq_Replicas req)"
  have rank: "Rank cfg (filter ?P nodes) req = filter ?P (Rank cfg nodes req)"
    by (simp add: Rank_def eligibleNodes_filter by_score_filter)
  have o: "out = take ?k (Rank cfg nodes req)" and o': "out' = take ?k (filter ?P (Rank cfg nodes req))"
    using out out' rank by (auto simp: Rendezvous_SelectNodes_def Rank_def Let_def split: if_splits)
  have split: "filter ?P (Rank cfg nodes req) = filter ?P out @ filter ?P (drop ?k (Rank cfg nodes req))"
    unfolding o by (metis append_take_drop_id filter_append)
  have "length (filter ?P out) \<le> ?k" using length_filter_le [of ?P out] unfolding o by simp
  then have pre: "take (length (filter ?P out)) out' = filter ?P out" unfolding o' split by simp
  have "out' = out" if "gone \<notin> ni_ID ` set out"
  proof -
    have f: "filter ?P out = out" using that by (intro filter_True) auto
    have "length out' \<le> length out"
      using out out' rendezvous_strategy.too_few [of req nodes cfg]
      by (auto simp: Rendezvous_SelectNodes_def Let_def split: if_splits)
    then show ?thesis using pre unfolding f by simp
  qed
  with rank pre show ?thesis by simp
qed

lemma rendezvous_minimal_movement_witness:
  "\<exists>out out'. Rendezvous_SelectNodes DefaultConfig ex_nodes \<lparr>rq_Key = ''k'', rq_Replicas = 2, rq_ChunkSize = 8, rq_Exclude = []\<rparr> = Inr out
     \<and> Rendezvous_SelectNodes DefaultConfig (filter (\<lambda>n. ni_ID n \<noteq> ''n1'') ex_nodes)
         \<lparr>rq_Key = ''k'', rq_Replicas = 2, rq_ChunkSize = 8, rq_Exclude = []\<rparr> = Inr out'
     \<and> filter (\<lambda>n. ni_ID n \<noteq> ''n1'') out = take (length (filter (\<lambda>n. ni_ID n \<noteq> ''n1'') out)) out'"
proof -
  let ?req = "\<lparr>rq_Key = ''k'', rq_Replicas = 2, rq_ChunkSize = 8, rq_Exclude = []\<rparr>"
  have "\<exists>out. Rendezvous_SelectNodes DefaultConfig ex_nodes ?req = Inr out"
    "\<exists>out. Rendezvous_SelectNodes DefaultConfig (filter (\<lambda>n. ni_ID n \<noteq> ''n1'') ex_nodes) ?req = Inr out"
    by (auto simp: Rendezvous_SelectNodes_def eligibleNodes_def ex_nodes_def ex_info_def DefaultConfig_def
        excluded_def int64_of_float_def)
  then show ?thesis using rendezvous_minimal_movement by blast
qed

text \<open>
  Scores. The hash of a key and a node lies strictly between 0 and 1, so that the logarithm in
  the score is negative and the score of every node is a positive number, whatever its weight.
\<close>

lemma rendezvous_score_positive:
  "0 < hashUnitInterval key nodeID \<and> hashUnitInterval key nodeID < 1 \<and> 0 < Rendezvous_score cfg key n"
proof -
  have b: "0 < hashUnitInterval k i \<and> hashUnitInterval k i < 1" for k i
    by (auto simp: hashUnitInterval_def Let_def)
  have w: "0 < (if w \<le> 0 then (if pc_MinWeight cfg \<le> 0 then 1 / 10 ^ 9 else pc_MinWeight cfg) else w)" for w :: real
    by simp
  have "0 < Rendezvous_score cfg key n"
    unfolding Rendezvous_score_def Let_def
    using divide_pos_neg [OF w, of "ln (hashUnitInterval key (ni_ID n))"] b [of key "ni_ID n"] by simp
  with b show ?thesis by simp
qed

end
