(* ===== verification/Disk.thy ===== *)
theory Disk
  imports Flex_Prelude
begin

text \<open>
  The part of a POSIX file system that the chunk store uses. A name refers to an inode, and both
  names and contents exist twice: as processes see them, and as they are on the medium. A file's
  contents reach the medium at the latest when the file is synced, a name of a file or directory at
  the latest when the directory it stands in is synced.
\<close>

type_synonym path = string
type_synonym inode = nat

record fs =
  fs_names :: "(path \<times> inode) list"
  fs_durable :: "(path \<times> inode) list"
  fs_dirs :: "path list"
  fs_durable_dirs :: "path list"
  fs_data :: "inode \<Rightarrow> bytes"
  fs_synced :: "inode \<Rightarrow> bytes"
  fs_next :: inode

definition file_at :: "fs \<Rightarrow> path \<Rightarrow> bytes option" where
  "file_at f p = map_option (fs_data f) (map_of (fs_names f) p)"

text \<open>\<^verbatim>\<open>filepath.Base\<close> and \<^verbatim>\<open>filepath.Dir\<close> of a clean path, the directories on the way to it, and the
  operations that change the file system.\<close>

datatype fs_op =
    MkdirAll path
  | CreateFile path
  | AppendFile path bytes
  | SyncFile path
  | RenameFile path path
  | SyncDir path
  | RemoveFile path

definition Base :: "path \<Rightarrow> string" where
  "Base p = rev (takeWhile (\<lambda>c. c \<noteq> CHR ''/'') (rev p))"

definition Dir :: "path \<Rightarrow> path" where
  "Dir p = rev (tl (dropWhile (\<lambda>c. c \<noteq> CHR ''/'') (rev p)))"

definition parent_dirs :: "path \<Rightarrow> path list" where
  "parent_dirs p = map (\<lambda>i. take i p) (filter (\<lambda>i. p ! i = CHR ''/'') [1..<length p])"

fun fs_apply :: "fs_op \<Rightarrow> fs \<Rightarrow> fs" where
  "fs_apply (MkdirAll d) f = f\<lparr>fs_dirs := parent_dirs d @ d # fs_dirs f\<rparr>"
| "fs_apply (CreateFile p) f = f\<lparr>fs_names := (p, fs_next f) # fs_names f, fs_data := (fs_data f)(fs_next f := []),
     fs_synced := (fs_synced f)(fs_next f := []), fs_next := Suc (fs_next f)\<rparr>"
| "fs_apply (AppendFile p bs) f =
     (case map_of (fs_names f) p of
        None \<Rightarrow> f
      | Some i \<Rightarrow> f\<lparr>fs_data := (fs_data f)(i := fs_data f i @ bs)\<rparr>)"
| "fs_apply (SyncFile p) f =
     (case map_of (fs_names f) p of
        None \<Rightarrow> f
      | Some i \<Rightarrow> f\<lparr>fs_synced := (fs_synced f)(i := fs_data f i)\<rparr>)"
| "fs_apply (RenameFile p q) f =
     (case map_of (fs_names f) p of
        None \<Rightarrow> f
      | Some i \<Rightarrow> f\<lparr>fs_names := (q, i) # filter (\<lambda>e. fst e \<noteq> p \<and> fst e \<noteq> q) (fs_names f)\<rparr>)"
| "fs_apply (SyncDir d) f =
     f\<lparr>fs_durable := filter (\<lambda>e. Dir (fst e) = d) (fs_names f) @ filter (\<lambda>e. Dir (fst e) \<noteq> d) (fs_durable f),
       fs_durable_dirs := filter (\<lambda>e. Dir e = d) (fs_dirs f) @ fs_durable_dirs f\<rparr>"
| "fs_apply (RemoveFile p) f = f\<lparr>fs_names := filter (\<lambda>e. fst e \<noteq> p) (fs_names f)\<rparr>"

definition fs_run :: "fs_op list \<Rightarrow> fs \<Rightarrow> fs" where
  "fs_run ops f = fold fs_apply ops f"

text \<open>
  What a machine may find after a power failure. A name is in its durable or in its current state,
  or has vanished together with a directory that was not durable; a file whose contents were synced
  has those contents, and of other files nothing is known.
\<close>

definition power_loss :: "fs \<Rightarrow> fs \<Rightarrow> bool" where
  "power_loss f f' \<longleftrightarrow>
     (\<forall>p. map_of (fs_names f') p = map_of (fs_durable f) p \<or> map_of (fs_names f') p = map_of (fs_names f) p
        \<or> (map_of (fs_names f') p = None \<and> \<not> set (parent_dirs p) \<subseteq> set (fs_durable_dirs f)))
     \<and> (\<forall>i. fs_synced f i = fs_data f i \<longrightarrow> fs_data f' i = fs_data f i)"

section \<open>Names and contents\<close>

lemma map_of_filter_key: "map_of (filter (\<lambda>e. P (fst e)) xs) p = (if P p then map_of xs p else None)"
  by (induction xs) auto

lemma map_of_append_key: "map_of (filter (\<lambda>e. P (fst e)) xs @ filter (\<lambda>e. \<not> P (fst e)) ys) p = (if P p then map_of xs p else map_of ys p)"
  using map_of_filter_key [of P xs p] map_of_filter_key [of "\<lambda>x. \<not> P x" ys p]
  by (auto simp: map_add_def split: option.split)

lemma names_apply [simp]:
  "fs_names (fs_apply (MkdirAll d) f) = fs_names f"
  "map_of (fs_names (fs_apply (CreateFile p) f)) = (map_of (fs_names f))(p \<mapsto> fs_next f)"
  "fs_names (fs_apply (AppendFile p bs) f) = fs_names f"
  "fs_names (fs_apply (SyncFile p) f) = fs_names f"
  "fs_names (fs_apply (SyncDir d) f) = fs_names f"
  "map_of (fs_names (fs_apply (RemoveFile p) f)) = (map_of (fs_names f))(p := None)"
  by (auto simp: map_of_filter_key [of "\<lambda>x. x \<noteq> p"] fun_eq_iff split: option.split)

lemma names_rename:
  "map_of (fs_names f) p = Some i \<Longrightarrow> p \<noteq> q \<Longrightarrow>
   map_of (fs_names (fs_apply (RenameFile p q) f)) = (map_of (fs_names f))(p := None, q \<mapsto> i)"
  by (auto simp: map_of_filter_key [of "\<lambda>x. x \<noteq> p \<and> x \<noteq> q"] fun_eq_iff)

lemma durable_apply [simp]:
  "fs_durable (fs_apply (MkdirAll d) f) = fs_durable f"
  "fs_durable (fs_apply (CreateFile p) f) = fs_durable f"
  "fs_durable (fs_apply (AppendFile p bs) f) = fs_durable f"
  "fs_durable (fs_apply (SyncFile p) f) = fs_durable f"
  "fs_durable (fs_apply (RenameFile p q) f) = fs_durable f"
  "fs_durable (fs_apply (RemoveFile p) f) = fs_durable f"
  "map_of (fs_durable (fs_apply (SyncDir d) f)) x = (if Dir x = d then map_of (fs_names f) x else map_of (fs_durable f) x)"
  using map_of_append_key [of "\<lambda>x. Dir x = d" "fs_names f" "fs_durable f" x]
  by (auto simp del: map_of_append split: option.split)

lemma data_apply [simp]:
  "fs_data (fs_apply (MkdirAll d) f) = fs_data f" "fs_synced (fs_apply (MkdirAll d) f) = fs_synced f"
  "fs_data (fs_apply (SyncFile p) f) = fs_data f" "fs_data (fs_apply (RenameFile p q) f) = fs_data f"
  "fs_data (fs_apply (SyncDir d) f) = fs_data f" "fs_data (fs_apply (RemoveFile p) f) = fs_data f"
  "fs_synced (fs_apply (AppendFile p bs) f) = fs_synced f" "fs_synced (fs_apply (RenameFile p q) f) = fs_synced f"
  "fs_synced (fs_apply (SyncDir d) f) = fs_synced f" "fs_synced (fs_apply (RemoveFile p) f) = fs_synced f"
  by (auto split: option.split)

lemma Dir_append: "CHR ''/'' \<notin> set b \<Longrightarrow> Dir (d @ CHR ''/'' # b) = d"
  by (simp add: Dir_def dropWhile_append)

lemma Base_append: "CHR ''/'' \<notin> set b \<Longrightarrow> Base (d @ CHR ''/'' # b) = b"
  by (simp add: Base_def takeWhile_append)

end
