(* ===== verification/Chunk_Store.thy ===== *)
theory Chunk_Store
  imports Disk Checksum Go_Strings
begin

text \<open>
  \<^verbatim>\<open>internal/storage/chunkstore.go\<close>: the directory of chunk files of a storage node. An operation
  takes the state of the process (\<open>ChunkStore\<close>) and of the file system; what it does to the latter
  is the list of its file operations in order, so that a crash is a prefix of that list. Whether a
  system call fails is decided by the argument \<open>flt\<close>.
\<close>

datatype syscall = SysStat | SysMkdir | SysOpen | SysRead | SysSync | SysClose | SysRename | SysSyncDir | SysRemove

datatype store_error =
    ErrNotFound
  | ErrInvalidChunkID
  | ErrInvalidChecksum
  | ErrSize
  | ErrCopy
  | ErrChecksum checksum_error
  | ErrIO syscall

record ChunkStore =
  cs_root :: path
  cs_dataDir :: path
  cs_tempDir :: path
  cs_fsync :: bool
  cs_capacity :: int
  cs_usedBytes :: int
  cs_chunkCount :: int
  cs_activeRequests :: int
  cs_tempSeq :: "64 word"

section \<open>Paths\<close>

definition is_hex :: "char \<Rightarrow> bool" where
  "is_hex c \<longleftrightarrow> (CHR ''0'' \<le> c \<and> c \<le> CHR ''9'') \<or> (CHR ''a'' \<le> c \<and> c \<le> CHR ''f'')"

definition ValidateChunkID :: "string \<Rightarrow> store_error option" where
  "ValidateChunkID i =
     (if length i \<noteq> 36 then Some ErrInvalidChunkID
      else if list_all (\<lambda>k. if k \<in> {8, 13, 18, 23} then i ! k = CHR ''-'' else is_hex (i ! k)) [0..<36] then None
      else Some ErrInvalidChunkID)"

definition chunkSuffix :: string where
  "chunkSuffix = ''.chunk''"

definition RelativePath :: "string \<Rightarrow> store_error + path" where
  "RelativePath chunkID =
     (case ValidateChunkID chunkID of
        Some e \<Rightarrow> Inl e
      | None \<Rightarrow>
          let flat = filter (\<lambda>c. c \<noteq> CHR ''-'') chunkID
          in Inr (take 2 flat @ ''/'' @ take 2 (drop 2 flat) @ ''/'' @ chunkID @ chunkSuffix))"

definition PathFor :: "ChunkStore \<Rightarrow> string \<Rightarrow> store_error + path" where
  "PathFor cs chunkID =
     (case RelativePath chunkID of
        Inl e \<Rightarrow> Inl e
      | Inr rel \<Rightarrow> Inr (cs_dataDir cs @ ''/'' @ rel))"

section \<open>Counters\<close>

definition addUsage :: "int \<Rightarrow> int \<Rightarrow> ChunkStore \<Rightarrow> ChunkStore" where
  "addUsage bs chunks cs =
     cs\<lparr>cs_usedBytes := max 0 (wrap64 (cs_usedBytes cs + bs)), cs_chunkCount := max 0 (wrap64 (cs_chunkCount cs + chunks))\<rparr>"

definition BeginRequest :: "ChunkStore \<Rightarrow> ChunkStore" where
  "BeginRequest cs = cs\<lparr>cs_activeRequests := wrap32 (cs_activeRequests cs + 1)\<rparr>"

definition EndRequest :: "ChunkStore \<Rightarrow> ChunkStore" where
  "EndRequest cs = cs\<lparr>cs_activeRequests := wrap32 (cs_activeRequests cs - 1)\<rparr>"

text \<open>\<^verbatim>\<open>Stats\<close>; what the file system reports, \<open>diskAvailable\<close> and \<open>diskUsage\<close>, is an argument.\<close>

definition Stats :: "int option \<Rightarrow> (int \<times> int) option \<Rightarrow> ChunkStore \<Rightarrow> (int \<times> int \<times> int \<times> int \<times> int) \<times> bool" where
  "Stats diskAvailable diskUsage cs =
     (let used = cs_usedBytes cs; chunks = cs_chunkCount cs; active = cs_activeRequests cs
      in if cs_capacity cs > 0
         then let left = max 0 (wrap64 (cs_capacity cs - used));
                  available = (case diskAvailable of
                      Some fsAvail \<Rightarrow> if fsAvail < left then fsAvail else left
                    | None \<Rightarrow> left)
              in ((cs_capacity cs, used, available, chunks, active), True)
         else (case diskUsage of
             None \<Rightarrow> ((0, used, 0, chunks, active), False)
           | Some (fsTotal, fsAvail) \<Rightarrow> ((fsTotal, used, fsAvail, chunks, active), True)))"

section \<open>Writing\<close>

record WriteResult =
  wr_BytesWritten :: int
  wr_Checksum :: string
  wr_AlreadyExisted :: bool

definition verifyFile :: "(syscall \<Rightarrow> bool) \<Rightarrow> fs \<Rightarrow> path \<Rightarrow> store_error + string \<times> int" where
  "verifyFile flt f p =
     (case file_at f p of
        None \<Rightarrow> Inl (ErrIO SysOpen)
      | Some bs \<Rightarrow>
          if flt SysOpen then Inl (ErrIO SysOpen)
          else if flt SysRead then Inl (ErrIO SysRead)
          else Inr (Hex (digest_write New bs), int (length bs)))"

definition temp_path :: "ChunkStore \<Rightarrow> string \<Rightarrow> 64 word \<Rightarrow> path" where
  "temp_path cs chunkID n = cs_tempDir cs @ ''/'' @ chunkID @ ''.'' @ decimal (unat n) @ ''.tmp''"

text \<open>
  The source of a write is the list of pieces \<^verbatim>\<open>io.Copy\<close> transfers, and whether it ends with an
  error, of the source or of the disk. \<open>discard\<close> is the deferred clean-up of the temporary file, whose
  own failure is ignored.
\<close>

type_synonym copy_source = "bytes list \<times> bool"

definition discard :: "(syscall \<Rightarrow> bool) \<Rightarrow> path \<Rightarrow> fs_op list" where
  "discard flt tmp = (if flt SysRemove then [] else [RemoveFile tmp])"

definition write_new ::
  "(syscall \<Rightarrow> bool) \<Rightarrow> ChunkStore \<Rightarrow> fs \<Rightarrow> path \<Rightarrow> string \<Rightarrow> copy_source \<Rightarrow> int \<Rightarrow> string
     \<Rightarrow> (store_error + WriteResult) \<times> ChunkStore \<times> fs_op list"
where
  "write_new flt cs f final chunkID src expectedSize expectedChecksum =
     (if flt SysMkdir then (Inl (ErrIO SysMkdir), cs, [])
      else let cs1 = cs\<lparr>cs_tempSeq := cs_tempSeq cs + 1\<rparr>;
               tmp = temp_path cs chunkID (cs_tempSeq cs1);
               mk = [MkdirAll (Dir final)]
      in if flt SysOpen \<or> file_at f tmp \<noteq> None then (Inl (ErrIO SysOpen), cs1, mk)
      else let (pieces, failed) = src;
               copied = mk @ CreateFile tmp # map (AppendFile tmp) pieces;
               written = int (length (concat pieces));
               undo = discard flt tmp
      in if failed then (Inl ErrCopy, cs1, copied @ undo)
      else if expectedSize \<ge> 0 \<and> written \<noteq> expectedSize then (Inl ErrSize, cs1, copied @ undo)
      else if cs_fsync cs \<and> flt SysSync then (Inl (ErrIO SysSync), cs1, copied @ undo)
      else let synced = copied @ (if cs_fsync cs then [SyncFile tmp] else [])
      in if flt SysClose then (Inl (ErrIO SysClose), cs1, synced @ undo)
      else let digest = Hex (foldl digest_write New pieces)
      in (case (if expectedChecksum = [] then None else Verify chunkID expectedChecksum digest) of
            Some e \<Rightarrow> (Inl (ErrChecksum e), cs1, synced @ undo)
          | None \<Rightarrow>
              if flt SysRename then (Inl (ErrIO SysRename), cs1, synced @ undo)
              else let published = synced @ [RenameFile tmp final]
              in if cs_fsync cs \<and> flt SysSyncDir then (Inl (ErrIO SysSyncDir), cs1, published)
              else (Inr \<lparr>wr_BytesWritten = written, wr_Checksum = digest, wr_AlreadyExisted = False\<rparr>, addUsage written 1 cs1,
                    published @ (if cs_fsync cs then [SyncDir (Dir final)] else []))))"

definition ChunkStore_Write ::
  "(syscall \<Rightarrow> bool) \<Rightarrow> ChunkStore \<Rightarrow> fs \<Rightarrow> string \<Rightarrow> copy_source \<Rightarrow> int \<Rightarrow> string
     \<Rightarrow> (store_error + WriteResult) \<times> ChunkStore \<times> fs_op list"
where
  "ChunkStore_Write flt cs f chunkID src expectedSize expectedChecksum =
     (case PathFor cs chunkID of
        Inl e \<Rightarrow> (Inl e, cs, [])
      | Inr final \<Rightarrow>
          if expectedChecksum \<noteq> [] \<and> \<not> Valid expectedChecksum then (Inl ErrInvalidChecksum, cs, [])
          else (case (if file_at f final \<noteq> None \<and> \<not> flt SysStat then verifyFile flt f final else Inl ErrNotFound) of
              Inr (digest, n) \<Rightarrow>
                if expectedChecksum = [] \<or> Equal digest expectedChecksum
                then (Inr \<lparr>wr_BytesWritten = n, wr_Checksum = digest, wr_AlreadyExisted = True\<rparr>, cs, [])
                else write_new flt cs f final chunkID src expectedSize expectedChecksum
            | Inl _ \<Rightarrow> write_new flt cs f final chunkID src expectedSize expectedChecksum))"

section \<open>Reading, deleting and checking\<close>

text \<open>An open file is represented by the bytes that reading it delivers.\<close>

definition ChunkStore_Open :: "(syscall \<Rightarrow> bool) \<Rightarrow> ChunkStore \<Rightarrow> fs \<Rightarrow> string \<Rightarrow> store_error + bytes \<times> int" where
  "ChunkStore_Open flt cs f chunkID =
     (case PathFor cs chunkID of
        Inl e \<Rightarrow> Inl e
      | Inr p \<Rightarrow>
          (case file_at f p of
             None \<Rightarrow> Inl ErrNotFound
           | Some bs \<Rightarrow>
               if flt SysOpen then Inl (ErrIO SysOpen)
               else if flt SysStat then Inl (ErrIO SysStat)
               else Inr (bs, int (length bs))))"

definition ChunkStore_Delete ::
  "(syscall \<Rightarrow> bool) \<Rightarrow> ChunkStore \<Rightarrow> fs \<Rightarrow> string \<Rightarrow> (store_error + bool) \<times> ChunkStore \<times> fs_op list"
where
  "ChunkStore_Delete flt cs f chunkID =
     (case PathFor cs chunkID of
        Inl e \<Rightarrow> (Inl e, cs, [])
      | Inr p \<Rightarrow>
          (case file_at f p of
             None \<Rightarrow> (Inr False, cs, [])
           | Some bs \<Rightarrow>
               if flt SysStat then (Inl (ErrIO SysStat), cs, [])
               else if flt SysRemove then (Inl (ErrIO SysRemove), cs, [])
               else (Inr True, addUsage (- int (length bs)) (-1) cs, [RemoveFile p])))"

record CheckResult =
  cr_Exists :: bool
  cr_SizeBytes :: int
  cr_Checksum :: string
  cr_Valid :: bool

definition ChunkStore_Check :: "(syscall \<Rightarrow> bool) \<Rightarrow> ChunkStore \<Rightarrow> fs \<Rightarrow> string \<Rightarrow> bool \<Rightarrow> CheckResult \<times> store_error option" where
  "ChunkStore_Check flt cs f chunkID verify =
     (let none = \<lparr>cr_Exists = False, cr_SizeBytes = 0, cr_Checksum = [], cr_Valid = False\<rparr>
      in case PathFor cs chunkID of
           Inl e \<Rightarrow> (none, Some e)
         | Inr p \<Rightarrow>
             (case file_at f p of
                None \<Rightarrow> (none, None)
              | Some bs \<Rightarrow>
                  if flt SysStat then (none, Some (ErrIO SysStat))
                  else let res = none\<lparr>cr_Exists := True, cr_SizeBytes := int (length bs)\<rparr>
                       in if \<not> verify then (res, None)
                          else (case verifyFile flt f p of
                                  Inl e \<Rightarrow> (res, Some e)
                                | Inr (digest, n) \<Rightarrow> (res\<lparr>cr_Checksum := digest, cr_SizeBytes := n, cr_Valid := True\<rparr>, None))))"

section \<open>Inventory\<close>

record InventoryEntry =
  ie_ChunkID :: string
  ie_Size :: int
  ie_Modified :: time

text \<open>
  \<^verbatim>\<open>filepath.WalkDir\<close> visits the files below a directory in lexical order. What the system says about
  a visited file, \<open>stat\<close>, and its modification time, \<open>mtime\<close>, are arguments.
\<close>

datatype stat_result = StatOk | StatGone | StatFail

datatype 'e walk_error = WalkIO | WalkFn 'e

definition walk_files :: "fs \<Rightarrow> path \<Rightarrow> path list" where
  "walk_files f d = sort (remdups (filter (\<lambda>p. HasPrefix p (d @ ''/'')) (map fst (fs_names f))))"

definition TrimSuffix :: "string \<Rightarrow> string \<Rightarrow> string" where
  "TrimSuffix s suffix = (if HasSuffix s suffix then take (length s - length suffix) s else s)"

definition file_size :: "fs \<Rightarrow> path \<Rightarrow> int" where
  "file_size f p = (case file_at f p of None \<Rightarrow> 0 | Some bs \<Rightarrow> int (length bs))"

fun walk_loop ::
  "(path \<Rightarrow> stat_result) \<Rightarrow> (path \<Rightarrow> time) \<Rightarrow> int \<Rightarrow> (InventoryEntry list \<Rightarrow> 's \<Rightarrow> 'e option \<times> 's) \<Rightarrow> fs
     \<Rightarrow> path list \<Rightarrow> InventoryEntry list \<Rightarrow> 's \<Rightarrow> ('e walk_error + InventoryEntry list) \<times> 's"
where
  "walk_loop stat mtime batchSize fn f [] batch s = (Inr batch, s)"
| "walk_loop stat mtime batchSize fn f (p # ps) batch s =
     (if \<not> HasSuffix (Base p) chunkSuffix then walk_loop stat mtime batchSize fn f ps batch s
      else let i = TrimSuffix (Base p) chunkSuffix
      in if ValidateChunkID i \<noteq> None then walk_loop stat mtime batchSize fn f ps batch s
      else (case stat p of
          StatGone \<Rightarrow> walk_loop stat mtime batchSize fn f ps batch s
        | StatFail \<Rightarrow> (Inl WalkIO, s)
        | StatOk \<Rightarrow>
            let batch' = batch @ [\<lparr>ie_ChunkID = i, ie_Size = file_size f p, ie_Modified = mtime p\<rparr>]
            in if int (length batch') \<ge> batchSize
               then (case fn batch' s of
                       (Some e, s') \<Rightarrow> (Inl (WalkFn e), s')
                     | (None, s') \<Rightarrow> walk_loop stat mtime batchSize fn f ps [] s')
               else walk_loop stat mtime batchSize fn f ps batch' s))"

definition WalkInventory ::
  "(path \<Rightarrow> stat_result) \<Rightarrow> (path \<Rightarrow> time) \<Rightarrow> ChunkStore \<Rightarrow> fs \<Rightarrow> int \<Rightarrow> (InventoryEntry list \<Rightarrow> 's \<Rightarrow> 'e option \<times> 's)
     \<Rightarrow> 's \<Rightarrow> 'e walk_error option \<times> 's"
where
  "WalkInventory stat mtime cs f batchSize fn s =
     (case walk_loop stat mtime (if batchSize \<le> 0 then 1000 else batchSize) fn f (walk_files f (cs_dataDir cs)) [] s of
        (Inl e, s') \<Rightarrow> (Some e, s')
      | (Inr batch, s') \<Rightarrow>
          if batch \<noteq> [] then (case fn batch s' of (Some e, s'') \<Rightarrow> (Some (WalkFn e), s'') | (None, s'') \<Rightarrow> (None, s''))
          else (None, s'))"

section \<open>Startup\<close>

definition scan :: "(path \<Rightarrow> stat_result) \<Rightarrow> fs \<Rightarrow> ChunkStore \<Rightarrow> store_error + ChunkStore" where
  "scan stat f cs =
     (let files = filter (\<lambda>p. HasSuffix (Base p) chunkSuffix) (walk_files f (cs_dataDir cs))
      in if list_ex (\<lambda>p. stat p \<noteq> StatOk) files then Inl (ErrIO SysStat)
         else Inr (cs\<lparr>cs_usedBytes := foldl (\<lambda>b p. wrap64 (b + file_size f p)) 0 files, cs_chunkCount := wrap64 (int (length files))\<rparr>))"

definition clearTempDir :: "(syscall \<Rightarrow> bool) \<Rightarrow> (path \<Rightarrow> bool) \<Rightarrow> ChunkStore \<Rightarrow> fs \<Rightarrow> store_error option \<times> fs_op list" where
  "clearTempDir flt rm_fails cs f =
     (if flt SysRead then (Some (ErrIO SysRead), [])
      else let entries = walk_files f (cs_tempDir cs)
           in (if list_ex rm_fails entries then Some (ErrIO SysRemove) else None,
               map RemoveFile (takeWhile (\<lambda>p. \<not> rm_fails p) entries)))"

definition NewChunkStore ::
  "(syscall \<Rightarrow> bool) \<Rightarrow> (path \<Rightarrow> bool) \<Rightarrow> (path \<Rightarrow> stat_result) \<Rightarrow> fs \<Rightarrow> path \<Rightarrow> bool \<Rightarrow> int \<Rightarrow> (store_error + ChunkStore) \<times> fs_op list"
where
  "NewChunkStore flt rm_fails stat f root fsync capacity =
     (let cs = \<lparr>cs_root = root, cs_dataDir = root @ ''/data'', cs_tempDir = root @ ''/tmp'', cs_fsync = fsync,
                cs_capacity = capacity, cs_usedBytes = 0, cs_chunkCount = 0, cs_activeRequests = 0, cs_tempSeq = 0\<rparr>
      in if flt SysMkdir then (Inl (ErrIO SysMkdir), [])
         else let mk = [MkdirAll (cs_dataDir cs), MkdirAll (cs_tempDir cs)]
         in (case clearTempDir flt rm_fails cs (fs_run mk f) of
               (Some e, ops) \<Rightarrow> (Inl e, mk @ ops)
             | (None, ops) \<Rightarrow> (scan stat (fs_run (mk @ ops) f) cs, mk @ ops)))"

section \<open>The layout of the directory\<close>

definition shard :: "string \<Rightarrow> string" where
  "shard i = (let flat = filter (\<lambda>c. c \<noteq> CHR ''-'') i in take 2 flat @ ''/'' @ take 2 (drop 2 flat))"

definition chunk_path :: "ChunkStore \<Rightarrow> string \<Rightarrow> path" where
  "chunk_path cs i = (cs_dataDir cs @ ''/'' @ shard i) @ CHR ''/'' # (i @ chunkSuffix)"

definition valid_id :: "string \<Rightarrow> bool" where
  "valid_id i \<longleftrightarrow> ValidateChunkID i = None"

lemma PathFor_eq: "PathFor cs i = (if valid_id i then Inr (chunk_path cs i) else Inl ErrInvalidChunkID)"
  by (auto simp: PathFor_def RelativePath_def valid_id_def chunk_path_def shard_def Let_def ValidateChunkID_def split: option.split)

lemma valid_id_chars:
  assumes "valid_id i" and "c \<in> set i"
  shows "c = CHR ''-'' \<or> is_hex c"
proof -
  from assms have l: "length i = 36"
    and a: "\<forall>k \<in> set [0..<36]. if k \<in> {8, 13, 18, 23} then i ! k = CHR ''-'' else is_hex (i ! k)"
    by (auto simp: valid_id_def ValidateChunkID_def list_all_iff split: if_splits)
  from assms(2) l obtain k where "k < 36" "i ! k = c" by (auto simp: in_set_conv_nth)
  with a show ?thesis by (auto split: if_splits dest!: bspec [where x = k])
qed

lemma valid_id_special: "valid_id i \<Longrightarrow> CHR ''/'' \<notin> set i \<and> CHR ''.'' \<notin> set i"
  using valid_id_chars [of i "CHR ''/''"] valid_id_chars [of i "CHR ''.''"]
  by (auto simp: is_hex_def less_eq_char_def)

lemma Base_chunk_path: "valid_id i \<Longrightarrow> Base (chunk_path cs i) = i @ chunkSuffix"
  unfolding chunk_path_def using valid_id_special [of i] by (intro Base_append) (auto simp: chunkSuffix_def)

lemma Dir_chunk_path: "valid_id i \<Longrightarrow> Dir (chunk_path cs i) = cs_dataDir cs @ ''/'' @ shard i"
  unfolding chunk_path_def using valid_id_special [of i] by (intro Dir_append) (auto simp: chunkSuffix_def)

lemma chunk_path_inj: "valid_id i \<Longrightarrow> valid_id j \<Longrightarrow> chunk_path cs i = chunk_path cs' j \<Longrightarrow> i = j"
  using Base_chunk_path [of i cs] Base_chunk_path [of j cs'] by simp

lemma temp_not_chunk: "temp_path cs i n \<noteq> chunk_path cs' j"
proof
  assume "temp_path cs i n = chunk_path cs' j"
  then have "last (temp_path cs i n) = last (chunk_path cs' j)" by simp
  then show False by (simp add: temp_path_def chunk_path_def chunkSuffix_def)
qed

lemma Hex_digest: "Hex (foldl digest_write New ps) = Sum (concat ps)" "Hex (digest_write New b) = Sum b"
  by (simp_all add: Hex_def Sum_def Sum256_def foldl_digest_New)

section \<open>What a write does to the file system\<close>

definition fs_wf :: "fs \<Rightarrow> bool" where
  "fs_wf f \<longleftrightarrow> (\<forall>e \<in> set (fs_names f) \<union> set (fs_durable f). snd e < fs_next f)"

text \<open>Operations on the temporary file only, and the states they lead to.\<close>

fun temp_op :: "path \<Rightarrow> fs_op \<Rightarrow> bool" where
  "temp_op tmp (MkdirAll d) = True"
| "temp_op tmp (CreateFile p) = (p = tmp)"
| "temp_op tmp (AppendFile p bs) = (p = tmp)"
| "temp_op tmp (SyncFile p) = (p = tmp)"
| "temp_op tmp (RemoveFile p) = (p = tmp)"
| "temp_op tmp _ = False"

definition quiet :: "path \<Rightarrow> fs \<Rightarrow> fs \<Rightarrow> bool" where
  "quiet tmp f0 f \<longleftrightarrow> (\<forall>p. p \<noteq> tmp \<longrightarrow> map_of (fs_names f) p = map_of (fs_names f0) p) \<and> fs_durable f = fs_durable f0
     \<and> fs_durable_dirs f = fs_durable_dirs f0 \<and> (\<forall>i < fs_next f0. fs_data f i = fs_data f0 i \<and> fs_synced f i = fs_synced f0 i)
     \<and> (\<forall>i. map_of (fs_names f) tmp = Some i \<longrightarrow> fs_next f0 \<le> i \<and> i < fs_next f) \<and> fs_next f0 \<le> fs_next f"

lemma quiet_refl: "map_of (fs_names f) tmp = None \<Longrightarrow> quiet tmp f f"
  by (simp add: quiet_def)

lemma quiet_apply: "quiet tmp f0 f \<Longrightarrow> temp_op tmp x \<Longrightarrow> quiet tmp f0 (fs_apply x f)"
  by (cases x) (auto simp: quiet_def map_of_filter_key [of "\<lambda>x. x \<noteq> tmp"] split: option.splits)

lemma quiet_run: "quiet tmp f0 f \<Longrightarrow> list_all (temp_op tmp) ops \<Longrightarrow> quiet tmp f0 (fs_run ops f)"
  unfolding fs_run_def by (induction ops arbitrary: f) (auto intro: quiet_apply)

lemma fs_run_append: "fs_run (a @ b) f = fs_run b (fs_run a f)"
  by (simp add: fs_run_def)

definition staged :: "bool \<Rightarrow> path \<Rightarrow> path \<Rightarrow> bytes list \<Rightarrow> fs_op list" where
  "staged sync tmp d pieces = MkdirAll d # CreateFile tmp # map (AppendFile tmp) pieces @ (if sync then [SyncFile tmp] else [])"

text \<open>A write stops while only the temporary file was touched, or it publishes the complete file.\<close>

lemma write_new_cases:
  assumes "write_new flt cs f final i src n ex = (res, cs', ops)"
  obtains (stopped) e where "res = Inl e" "list_all (temp_op (temp_path cs i (cs_tempSeq cs + 1))) ops"
      "file_at f (temp_path cs i (cs_tempSeq cs + 1)) = None \<or> (\<forall>x \<in> set ops. \<exists>d. x = MkdirAll d)"
      "cs' = cs \<or> cs' = cs\<lparr>cs_tempSeq := cs_tempSeq cs + 1\<rparr>"
  | (published) pieces tail where "src = (pieces, False)" "file_at f (temp_path cs i (cs_tempSeq cs + 1)) = None"
      "ops = staged (cs_fsync cs) (temp_path cs i (cs_tempSeq cs + 1)) (Dir final) pieces
             @ RenameFile (temp_path cs i (cs_tempSeq cs + 1)) final # tail"
      "0 \<le> n \<longrightarrow> int (length (concat pieces)) = n" "ex \<noteq> [] \<longrightarrow> Sum (concat pieces) = ex"
      "(res = Inl (ErrIO SysSyncDir) \<and> cs_fsync cs \<and> tail = [] \<and> cs' = cs\<lparr>cs_tempSeq := cs_tempSeq cs + 1\<rparr>)
       \<or> (res = Inr \<lparr>wr_BytesWritten = int (length (concat pieces)), wr_Checksum = Sum (concat pieces), wr_AlreadyExisted = False\<rparr>
          \<and> tail = (if cs_fsync cs then [SyncDir (Dir final)] else [])
          \<and> cs' = addUsage (int (length (concat pieces))) 1 (cs\<lparr>cs_tempSeq := cs_tempSeq cs + 1\<rparr>))"
proof -
  obtain pieces failed where src: "src = (pieces, failed)" by (cases src)
  have v: "Verify i ex (Sum (concat pieces)) = None \<longleftrightarrow> Sum (concat pieces) = ex"
    by (auto simp: Verify_def Equal_iff)
  show ?thesis
    using assms stopped published unfolding write_new_def src Hex_digest
    by (auto simp: Let_def v discard_def staged_def list_all_iff split: if_splits option.splits prod.splits)
qed

lemma run_appends:
  assumes "map_of (fs_names f) tmp = Some i"
  shows "fs_run (map (AppendFile tmp) ps) f = f\<lparr>fs_data := (fs_data f)(i := fs_data f i @ concat ps)\<rparr>"
  using assms unfolding fs_run_def by (induction ps arbitrary: f) simp_all

lemma run_staged:
  fixes f tmp d ps sync
  defines "g \<equiv> fs_run (staged sync tmp d ps) f"
  shows "map_of (fs_names g) tmp = Some (fs_next f) \<and> fs_data g (fs_next f) = concat ps
    \<and> (sync \<longrightarrow> fs_synced g (fs_next f) = concat ps) \<and> fs_next g = Suc (fs_next f)"
proof -
  define h where "h = fs_apply (CreateFile tmp) (fs_apply (MkdirAll d) f)"
  have h: "map_of (fs_names h) tmp = Some (fs_next f)" "fs_data h (fs_next f) = []" "fs_next h = Suc (fs_next f)"
    by (simp_all add: h_def)
  have "g = fs_run (if sync then [SyncFile tmp] else []) (fs_run (map (AppendFile tmp) ps) h)"
    by (simp add: g_def staged_def h_def fs_run_def)
  with h run_appends [OF h(1)] show ?thesis by (simp add: fs_run_def)
qed

lemma staged_temp_ops: "list_all (temp_op tmp) (staged sync tmp d ps)"
  by (auto simp: staged_def list_all_iff)

lemma fs_wfD: "fs_wf f \<Longrightarrow> map_of (fs_names f) p = Some i \<Longrightarrow> i < fs_next f"
  "fs_wf f \<Longrightarrow> map_of (fs_durable f) p = Some i \<Longrightarrow> i < fs_next f"
  by (force simp: fs_wf_def dest!: map_of_SomeD)+

lemma quiet_file_at: "quiet tmp f0 f \<Longrightarrow> fs_wf f0 \<Longrightarrow> p \<noteq> tmp \<Longrightarrow> file_at f p = file_at f0 p"
  unfolding file_at_def quiet_def by (cases "map_of (fs_names f0) p") (auto dest: fs_wfD)

text \<open>After the rename, and after the sync of the directory.\<close>

lemma run_publish:
  fixes f tmp final d ps sync
  defines "g \<equiv> fs_run (staged sync tmp d ps @ [RenameFile tmp final]) f"
  assumes "map_of (fs_names f) tmp = None" and "tmp \<noteq> final"
  shows "map_of (fs_names g) = (map_of (fs_names f))(final \<mapsto> fs_next f)" "fs_durable g = fs_durable f"
    "fs_durable_dirs g = fs_durable_dirs f" "fs_data g (fs_next f) = concat ps" "sync \<longrightarrow> fs_synced g (fs_next f) = concat ps"
    "\<forall>i < fs_next f. fs_data g i = fs_data f i \<and> fs_synced g i = fs_synced f i" "fs_next g = Suc (fs_next f)"
proof -
  define h where "h = fs_run (staged sync tmp d ps) f"
  note rs = run_staged [of sync tmp d ps f, folded h_def]
  have q: "quiet tmp f h" unfolding h_def by (rule quiet_run [OF quiet_refl [OF assms(2)] staged_temp_ops])
  have g: "g = fs_apply (RenameFile tmp final) h" by (simp add: g_def h_def fs_run_def)
  have n: "map_of (fs_names h) = (map_of (fs_names f))(tmp \<mapsto> fs_next f)"
    using q rs by (auto simp: quiet_def fun_eq_iff)
  have "map_of (fs_names g) = (map_of (fs_names h))(tmp := None, final \<mapsto> fs_next f)"
    unfolding g using rs assms(3) by (intro names_rename) simp_all
  then show "map_of (fs_names g) = (map_of (fs_names f))(final \<mapsto> fs_next f)"
    using n assms(2,3) by (auto simp: fun_eq_iff)
  show "fs_durable g = fs_durable f" "fs_data g (fs_next f) = concat ps" "sync \<longrightarrow> fs_synced g (fs_next f) = concat ps"
    "\<forall>i < fs_next f. fs_data g i = fs_data f i \<and> fs_synced g i = fs_synced f i"
    using q rs by (simp_all only: g data_apply durable_apply) (simp_all add: quiet_def)
  show "fs_durable_dirs g = fs_durable_dirs f" "fs_next g = Suc (fs_next f)"
    using q rs by (auto simp: g quiet_def split: option.split)
qed

lemma file_at_published:
  assumes "map_of (fs_names g) = (map_of (fs_names f))(final \<mapsto> fs_next f)" "fs_data g (fs_next f) = bs"
    "\<forall>i < fs_next f. fs_data g i = fs_data f i \<and> fs_synced g i = fs_synced f i" "fs_wf f"
  shows "file_at g p = (if p = final then Some bs else file_at f p)"
  using assms by (cases "map_of (fs_names f) p") (auto simp: file_at_def dest: fs_wfD)

end
