(* ===== verification/Chunk_Durability.thy ===== *)
theory Chunk_Durability
  imports Chunk_Store
begin

text \<open>
  What the chunk store promises: chunk files are complete whenever they are visible, also after a
  crash or a power failure at any moment of a write; a successful write survives; the store behaves
  as a map from chunk IDs to contents; and its inventory lists exactly the chunks it holds.
\<close>

section \<open>Crash safety\<close>

text \<open>
  The store promises that a file appears under its final name only with its bytes on disk.
  \<open>settled\<close> says so of a file system: whatever a chunk's name refers to, now or after a power
  failure, has reached the medium.
\<close>

definition settled :: "ChunkStore \<Rightarrow> fs \<Rightarrow> bool" where
  "settled cs f \<longleftrightarrow> (\<forall>i n. valid_id i \<and> (map_of (fs_names f) (chunk_path cs i) = Some n \<or> map_of (fs_durable f) (chunk_path cs i) = Some n)
     \<longrightarrow> fs_synced f n = fs_data f n)"

definition durable_at :: "fs \<Rightarrow> path \<Rightarrow> bytes option" where
  "durable_at f p = map_option (fs_data f) (map_of (fs_durable f) p)"

lemma settled_after_loss:
  assumes "power_loss f f'" and "settled cs f" and "valid_id i"
  shows "file_at f' (chunk_path cs i) = file_at f (chunk_path cs i) \<or> file_at f' (chunk_path cs i) = durable_at f (chunk_path cs i)
    \<or> (file_at f' (chunk_path cs i) = None \<and> \<not> set (parent_dirs (chunk_path cs i)) \<subseteq> set (fs_durable_dirs f))"
proof -
  let ?p = "chunk_path cs i"
  have d: "fs_data f' n = fs_data f n" if "map_of (fs_names f) ?p = Some n \<or> map_of (fs_durable f) ?p = Some n" for n
    using assms that by (auto simp: power_loss_def settled_def)
  consider "map_of (fs_names f') ?p = map_of (fs_durable f) ?p" | "map_of (fs_names f') ?p = map_of (fs_names f) ?p"
    | "map_of (fs_names f') ?p = None" "\<not> set (parent_dirs ?p) \<subseteq> set (fs_durable_dirs f)"
    using assms(1) [unfolded power_loss_def, THEN conjunct1, THEN spec, of ?p] by metis
  then show ?thesis
  proof cases
    case 1
    then have "file_at f' ?p = durable_at f ?p" using d by (cases "map_of (fs_durable f) ?p") (auto simp: file_at_def durable_at_def)
    then show ?thesis by simp
  next
    case 2
    then have "file_at f' ?p = file_at f ?p" using d by (cases "map_of (fs_names f) ?p") (auto simp: file_at_def)
    then show ?thesis by simp
  qed (simp add: file_at_def)
qed

text \<open>The states between which the file operations of a write lead.\<close>

inductive write_state :: "ChunkStore \<Rightarrow> fs \<Rightarrow> path \<Rightarrow> path \<Rightarrow> bytes \<Rightarrow> bool \<Rightarrow> fs \<Rightarrow> bool"
  for cs f0 tmp final bs complete
where
  idle: "fs_names f = fs_names f0 \<Longrightarrow> fs_durable f = fs_durable f0 \<Longrightarrow> fs_durable_dirs f = fs_durable_dirs f0 \<Longrightarrow>
    fs_data f = fs_data f0 \<Longrightarrow> fs_synced f = fs_synced f0 \<Longrightarrow> write_state cs f0 tmp final bs complete f"
| before: "quiet tmp f0 f \<Longrightarrow> write_state cs f0 tmp final bs complete f"
| renamed: "complete \<Longrightarrow> map_of (fs_names f) = (map_of (fs_names f0))(final \<mapsto> fs_next f0) \<Longrightarrow>
    \<forall>p. map_of (fs_durable f) p = map_of (fs_durable f0) p
      \<or> (p = final \<and> map_of (fs_durable f) p = Some (fs_next f0)) \<or> map_of (fs_durable f) p = map_of (fs_names f0) p \<Longrightarrow>
    set (fs_durable_dirs f0) \<subseteq> set (fs_durable_dirs f) \<Longrightarrow>
    fs_data f (fs_next f0) = bs \<Longrightarrow> cs_fsync cs \<longrightarrow> fs_synced f (fs_next f0) = bs \<Longrightarrow>
    \<forall>i < fs_next f0. fs_data f i = fs_data f0 i \<and> fs_synced f i = fs_synced f0 i \<Longrightarrow>
    write_state cs f0 tmp final bs complete f"

lemma take_append_cases: "(\<exists>j. take k (a @ b) = take j a) \<or> (\<exists>j. 0 < j \<and> take k (a @ b) = a @ take j b)"
proof (cases "k \<le> length a")
  case True
  then have "take k (a @ b) = take k a" by simp
  then show ?thesis by blast
next
  case False
  then have "take k (a @ b) = a @ take (k - length a) b" "0 < k - length a" by simp_all
  then show ?thesis by blast
qed

lemma run_mkdirs:
  assumes "\<forall>x \<in> set ops. \<exists>d. x = MkdirAll d"
  shows "fs_names (fs_run ops f) = fs_names f \<and> fs_durable (fs_run ops f) = fs_durable f
    \<and> fs_durable_dirs (fs_run ops f) = fs_durable_dirs f \<and> fs_data (fs_run ops f) = fs_data f \<and> fs_synced (fs_run ops f) = fs_synced f"
  using assms unfolding fs_run_def by (induction ops arbitrary: f) auto

lemma list_all_take: "list_all P xs \<Longrightarrow> list_all P (take k xs)"
  by (auto simp: list_all_iff dest: in_set_takeD)

lemma file_at_None: "file_at f p = None \<longleftrightarrow> map_of (fs_names f) p = None"
  by (simp add: file_at_def)

lemma publish_state:
  fixes f tmp final d ps
  assumes "map_of (fs_names f) tmp = None" and "tmp \<noteq> final"
  shows "write_state cs f tmp final (concat ps) True (fs_run (staged (cs_fsync cs) tmp d ps @ RenameFile tmp final # take j [SyncDir (Dir final)]) f)"
proof -
  define g where "g = fs_run (staged (cs_fsync cs) tmp d ps @ [RenameFile tmp final]) f"
  note rp = run_publish [where sync = "cs_fsync cs" and d = d and ps = ps, OF assms, folded g_def]
  have "write_state cs f tmp final (concat ps) True (fs_run (take j [SyncDir (Dir final)]) g)"
  proof (cases j)
    case 0
    then show ?thesis using rp by (auto simp: fs_run_def intro: renamed)
  next
    case (Suc m)
    then have s: "fs_run (take j [SyncDir (Dir final)]) g = fs_apply (SyncDir (Dir final)) g" by (simp add: fs_run_def)
    have dd: "set (fs_durable_dirs f) \<subseteq> set (fs_durable_dirs (fs_apply (SyncDir (Dir final)) g))" using rp(3) by auto
    have "\<forall>p. map_of (fs_durable (fs_apply (SyncDir (Dir final)) g)) p = map_of (fs_durable f) p
      \<or> (p = final \<and> map_of (fs_durable (fs_apply (SyncDir (Dir final)) g)) p = Some (fs_next f))
      \<or> map_of (fs_durable (fs_apply (SyncDir (Dir final)) g)) p = map_of (fs_names f) p"
      unfolding durable_apply rp(1,2) by auto
    then show ?thesis unfolding s using rp dd by (intro renamed) (simp_all only: names_apply data_apply, simp_all)
  qed
  then show ?thesis by (simp add: g_def fs_run_append [symmetric])
qed

definition accepted :: "copy_source \<Rightarrow> int \<Rightarrow> string \<Rightarrow> bool" where
  "accepted src n ex \<longleftrightarrow> \<not> snd src \<and> (0 \<le> n \<longrightarrow> int (length (concat (fst src))) = n) \<and> (ex \<noteq> [] \<longrightarrow> Sum (concat (fst src)) = ex)"

lemma write_new_trace:
  assumes "write_new flt cs f (chunk_path cs i) i src n ex = (res, cs', ops)"
  shows "write_state cs f (temp_path cs i (cs_tempSeq cs + 1)) (chunk_path cs i) (concat (fst src)) (accepted src n ex) (fs_run (take k ops) f)"
  using assms
proof (cases rule: write_new_cases)
  case (stopped e)
  from stopped(3) show ?thesis
  proof (elim disjE)
    assume "file_at f (temp_path cs i (cs_tempSeq cs + 1)) = None"
    then show ?thesis using stopped(2) by (intro before quiet_run quiet_refl list_all_take) (simp_all add: file_at_None)
  next
    assume "\<forall>x \<in> set ops. \<exists>d. x = MkdirAll d"
    then have "\<forall>x \<in> set (take k ops). \<exists>d. x = MkdirAll d" by (auto dest: in_set_takeD)
    from run_mkdirs [OF this] show ?thesis by (intro idle) simp_all
  qed
next
  case (published ps tl)
  let ?t = "temp_path cs i (cs_tempSeq cs + 1)" and ?s = "staged (cs_fsync cs) (temp_path cs i (cs_tempSeq cs + 1)) (Dir (chunk_path cs i)) ps"
  have acc: "accepted src n ex" using published by (simp add: accepted_def)
  have n: "map_of (fs_names f) ?t = None" using published(2) by (simp add: file_at_None)
  have tl: "tl = [] \<or> tl = [SyncDir (Dir (chunk_path cs i))]" using published(6) by auto
  from take_append_cases [of k ?s "RenameFile ?t (chunk_path cs i) # tl"] show ?thesis
  proof (elim disjE exE conjE)
    fix j assume "take k (?s @ RenameFile ?t (chunk_path cs i) # tl) = take j ?s"
    then show ?thesis unfolding published(3) by (auto intro!: before quiet_run quiet_refl list_all_take staged_temp_ops n)
  next
    fix j assume j: "0 < (j :: nat)" and tk: "take k (?s @ RenameFile ?t (chunk_path cs i) # tl) = ?s @ take j (RenameFile ?t (chunk_path cs i) # tl)"
    obtain m where "take (j - 1) tl = take m [SyncDir (Dir (chunk_path cs i))]" using tl by (metis take0 take_Nil)
    with j tk have "take k ops = ?s @ RenameFile ?t (chunk_path cs i) # take m [SyncDir (Dir (chunk_path cs i))]"
      unfolding published(3) by (cases j) simp_all
    then show ?thesis
      using publish_state [where cs = cs and d = "Dir (chunk_path cs i)" and ps = ps and j = m, OF n temp_not_chunk] acc published(1) by simp
  qed
qed

text \<open>A call either answers without touching the file system or goes through \<^const>\<open>write_new\<close>.\<close>

lemma Write_cases:
  assumes "ChunkStore_Write flt cs f i src n ex = (res, cs', ops)"
  obtains (refused) "ops = []" "cs' = cs" "res = Inl ErrInvalidChunkID \<and> \<not> valid_id i \<or> res = Inl ErrInvalidChecksum"
  | (existing) bs where "valid_id i" "ops = []" "cs' = cs" "file_at f (chunk_path cs i) = Some bs" "ex \<noteq> [] \<longrightarrow> Sum bs = ex"
      "res = Inr \<lparr>wr_BytesWritten = int (length bs), wr_Checksum = Sum bs, wr_AlreadyExisted = True\<rparr>"
  | (fresh) "valid_id i" "write_new flt cs f (chunk_path cs i) i src n ex = (res, cs', ops)"
proof -
  note d = assms [unfolded ChunkStore_Write_def PathFor_eq]
  show ?thesis
  proof (cases "valid_id i \<and> \<not> (ex \<noteq> [] \<and> \<not> Valid ex)")
    case False
    then show ?thesis using d by (intro refused) (auto split: if_splits)
  next
    case True
    show ?thesis
    proof (cases "\<exists>bs. file_at f (chunk_path cs i) = Some bs \<and> \<not> flt SysStat \<and> \<not> flt SysOpen \<and> \<not> flt SysRead \<and> (ex = [] \<or> Sum bs = ex)")
      case True
      then obtain bs where b: "file_at f (chunk_path cs i) = Some bs" "\<not> flt SysStat" "\<not> flt SysOpen" "\<not> flt SysRead" "ex = [] \<or> Sum bs = ex"
        by blast
      show ?thesis by (rule existing [of bs]) (use d b \<open>valid_id i \<and> _\<close> in \<open>auto simp: verifyFile_def Hex_digest Equal_iff\<close>)
    next
      case False
      then show ?thesis using d True
        by (intro fresh) (auto simp: verifyFile_def Hex_digest Equal_iff split: if_splits option.splits)
    qed
  qed
qed

lemma write_trace:
  assumes "ChunkStore_Write flt cs f i src n ex = (res, cs', ops)"
  shows "write_state cs f (temp_path cs i (cs_tempSeq cs + 1)) (chunk_path cs i) (concat (fst src)) (valid_id i \<and> accepted src n ex)
    (fs_run (take k ops) f)"
  using assms
proof (cases rule: Write_cases)
  case fresh
  then show ?thesis using write_new_trace [OF fresh(2)] by simp
qed (auto simp: fs_run_def intro: idle)

lemma write_state_view:
  assumes "write_state cs f0 tmp final bs complete f" and "fs_wf f0" and "p \<noteq> tmp"
  shows "file_at f p = file_at f0 p \<or> (p = final \<and> complete \<and> file_at f p = Some bs)"
  using assms(1)
proof cases
  case renamed
  from file_at_published [OF renamed(2,5,7) assms(2)] renamed(1) show ?thesis by simp
qed (use assms in \<open>auto simp: file_at_def [of f] file_at_def [of f0, symmetric] dest: quiet_file_at\<close>)

lemma write_state_durable:
  assumes "write_state cs f0 tmp final bs complete f" and "fs_wf f0" and "p \<noteq> tmp"
  shows "durable_at f p = durable_at f0 p \<or> durable_at f p = file_at f0 p \<or> (p = final \<and> complete \<and> durable_at f p = Some bs)"
  using assms(1)
proof cases
  case before
  then show ?thesis using assms(2) by (cases "map_of (fs_durable f0) p") (auto simp: durable_at_def quiet_def dest: fs_wfD)
next
  case renamed
  have "fs_data f i = fs_data f0 i" if "map_of (fs_names f0) p = Some i \<or> map_of (fs_durable f0) p = Some i" for i
    using that renamed(7) fs_wfD [OF assms(2), of p i] by blast
  then show ?thesis using renamed(1,5) spec [OF renamed(3), of p]
    by (cases "map_of (fs_names f0) p"; cases "map_of (fs_durable f0) p") (auto simp: durable_at_def file_at_def)
qed (simp add: durable_at_def)

lemma write_state_settled:
  assumes "write_state cs f0 tmp (chunk_path cs i) bs complete f" and "fs_wf f0" and "settled cs f0" and "cs_fsync cs"
    and "\<forall>j. tmp \<noteq> chunk_path cs j"
  shows "settled cs f"
  unfolding settled_def
proof (intro allI impI)
  fix j n
  let ?p = "chunk_path cs j"
  assume a: "valid_id j \<and> (map_of (fs_names f) ?p = Some n \<or> map_of (fs_durable f) ?p = Some n)"
  have old: "fs_synced f0 m = fs_data f0 m \<and> m < fs_next f0" if "map_of (fs_names f0) ?p = Some m \<or> map_of (fs_durable f0) ?p = Some m" for m
    using a that assms(3) fs_wfD [OF assms(2), of ?p m] unfolding settled_def by blast
  from assms(1) show "fs_synced f n = fs_data f n"
  proof cases
    case idle
    then show ?thesis using a old by auto
  next
    case before
    have "?p \<noteq> tmp" using assms(5) by metis
    with before show ?thesis using a old [of n] by (auto simp: quiet_def)
  next
    case renamed
    have "n = fs_next f0 \<or> map_of (fs_names f0) ?p = Some n \<or> map_of (fs_durable f0) ?p = Some n"
      using a renamed(2) spec [OF renamed(3), of ?p] by (metis fun_upd_apply option.inject)
    then show ?thesis using old [of n] renamed(5,6,7) assms(4) by auto
  qed
qed

lemma write_state_dirs: "write_state cs f0 tmp final bs complete f \<Longrightarrow> set (fs_durable_dirs f0) \<subseteq> set (fs_durable_dirs f)"
  by (erule write_state.cases) (auto simp: quiet_def)

text \<open>
  C8 (crash safety). However far a write got when the process died, every chunk has the contents it
  had before, except that the chunk being written may have exactly the bytes of the source, with
  the declared size and checksum. With fsync on, the same holds after a power failure at that
  moment, up to files that were not durable before either; and it goes on to hold.
\<close>

theorem write_crash_safe:
  assumes w: "ChunkStore_Write flt cs f i src n ex = (res, cs', ops)" and wf: "fs_wf f" and j: "valid_id j"
    and p: "p = chunk_path cs j"
  shows "(file_at (fs_run (take k ops) f) p = file_at f p
      \<or> (j = i \<and> accepted src n ex \<and> file_at (fs_run (take k ops) f) p = Some (concat (fst src))))
    \<and> (cs_fsync cs \<and> settled cs f \<longrightarrow> settled cs (fs_run (take k ops) f)
      \<and> (power_loss (fs_run (take k ops) f) f' \<longrightarrow>
           file_at f' p = file_at f p \<or> file_at f' p = durable_at f p
           \<or> (j = i \<and> accepted src n ex \<and> file_at f' p = Some (concat (fst src)))
           \<or> (file_at f' p = None \<and> \<not> set (parent_dirs p) \<subseteq> set (fs_durable_dirs f))))"
proof -
  let ?g = "fs_run (take k ops) f" and ?tmp = "temp_path cs i (cs_tempSeq cs + 1)"
  note tr = write_trace [OF w, of k]
  have pt: "p \<noteq> ?tmp" unfolding p by (rule temp_not_chunk [symmetric])
  have ji: "j = i" if "p = chunk_path cs i" "valid_id i" using that chunk_path_inj [OF j] unfolding p by blast
  have v: "file_at ?g p = file_at f p \<or> (j = i \<and> accepted src n ex \<and> file_at ?g p = Some (concat (fst src)))"
    using write_state_view [OF tr wf pt] ji by blast
  have d: "durable_at ?g p = durable_at f p \<or> durable_at ?g p = file_at f p
      \<or> (j = i \<and> accepted src n ex \<and> durable_at ?g p = Some (concat (fst src)))"
    using write_state_durable [OF tr wf pt] ji by blast
  have s: "settled cs ?g" if "cs_fsync cs" "settled cs f"
    using write_state_settled [OF tr wf that(2,1)] temp_not_chunk by blast
  have l: "file_at f' p = file_at ?g p \<or> file_at f' p = durable_at ?g p
      \<or> (file_at f' p = None \<and> \<not> set (parent_dirs p) \<subseteq> set (fs_durable_dirs ?g))"
    if "cs_fsync cs" "settled cs f" "power_loss ?g f'"
    using settled_after_loss [OF that(3) s [OF that(1,2)] j] unfolding p .
  have dd: "set (fs_durable_dirs f) \<subseteq> set (fs_durable_dirs ?g)" by (rule write_state_dirs [OF tr])
  show ?thesis
  proof (intro conjI impI)
    assume a: "cs_fsync cs \<and> settled cs f" and "power_loss ?g f'"
    from l [of, OF _ _ this(2)] a have "file_at f' p = file_at ?g p \<or> file_at f' p = durable_at ?g p
      \<or> (file_at f' p = None \<and> \<not> set (parent_dirs p) \<subseteq> set (fs_durable_dirs f))" using dd by blast
    then show "file_at f' p = file_at f p \<or> file_at f' p = durable_at f p
           \<or> (j = i \<and> accepted src n ex \<and> file_at f' p = Some (concat (fst src)))
           \<or> (file_at f' p = None \<and> \<not> set (parent_dirs p) \<subseteq> set (fs_durable_dirs f))" using v d by metis
  qed (use v s in blast)+
qed

text \<open>
  C19 (durability). A chunk that a write with fsync stored is still there after a power failure,
  with the bytes of the source, if the directories on the way to it were durable before.
\<close>

theorem write_durable:
  assumes w: "ChunkStore_Write flt cs f i src n ex = (Inr r, cs', ops)" and new: "\<not> wr_AlreadyExisted r" and wf: "fs_wf f"
    and sync: "cs_fsync cs" and dirs: "set (parent_dirs (chunk_path cs i)) \<subseteq> set (fs_durable_dirs f)"
    and loss: "power_loss (fs_run ops f) f'"
  shows "file_at f' (chunk_path cs i) = Some (concat (fst src)) \<and> wr_Checksum r = Sum (concat (fst src))
    \<and> (ex \<noteq> [] \<longrightarrow> Sum (concat (fst src)) = ex)"
  using w
proof (cases rule: Write_cases)
  case fresh
  let ?p = "chunk_path cs i" and ?t = "temp_path cs i (cs_tempSeq cs + 1)"
  from fresh(2) show ?thesis
  proof (cases rule: write_new_cases)
    case (published ps tl)
    define g where "g = fs_run (staged True ?t (Dir ?p) ps @ [RenameFile ?t ?p]) f"
    note rp = run_publish [where sync = True and final = ?p and d = "Dir ?p" and ps = ps, OF published(2) [unfolded file_at_None] temp_not_chunk, folded g_def]
    have e: "fs_run ops f = fs_apply (SyncDir (Dir ?p)) g"
      using published(3,6) sync by (simp add: g_def fs_run_def)
    have dd: "set (parent_dirs ?p) \<subseteq> set (fs_durable_dirs (fs_run ops f))" using dirs rp(3) unfolding e by auto
    have "map_of (fs_names f') ?p = Some (fs_next f)"
      using loss [unfolded power_loss_def, THEN conjunct1, THEN spec, of ?p] dd
      unfolding e durable_apply names_apply rp(1) by auto
    moreover have "fs_data f' (fs_next f) = concat ps"
      using loss rp(4,5) unfolding power_loss_def e data_apply by auto
    ultimately show ?thesis using published by (auto simp: file_at_def)
  qed simp
qed (use new in simp_all)

section \<open>The store as a map\<close>

text \<open>
  What the users of a node rely on: the node holds a map from chunk IDs to contents, a write that
  succeeds leaves an entry with the reported size and digest, and a failed call changes nothing,
  except that a write whose final sync failed may have taken place.
\<close>

locale chunk_holder =
  fixes view :: "'s \<Rightarrow> string \<Rightarrow> bytes option" and inv :: "'s \<Rightarrow> bool"
    and put :: "'e \<Rightarrow> string \<Rightarrow> copy_source \<Rightarrow> int \<Rightarrow> string \<Rightarrow> 's \<Rightarrow> (store_error + WriteResult) \<times> 's"
    and del :: "'e \<Rightarrow> string \<Rightarrow> 's \<Rightarrow> (store_error + bool) \<times> 's"
    and get :: "'e \<Rightarrow> string \<Rightarrow> 's \<Rightarrow> store_error + bytes \<times> int"
  assumes put_inv: "inv s \<Longrightarrow> inv (snd (put e i src n ex s))"
    and del_inv: "inv s \<Longrightarrow> inv (snd (del e i s))"
    and put_stored: "inv s \<Longrightarrow> put e i src n ex s = (Inr r, s') \<Longrightarrow>
      \<exists>d. view s' = (view s)(i \<mapsto> d) \<and> wr_Checksum r = Sum d \<and> wr_BytesWritten r = int (length d) \<and> (ex \<noteq> [] \<longrightarrow> Sum d = ex)
        \<and> (if wr_AlreadyExisted r then view s i = Some d else d = concat (fst src) \<and> accepted src n ex)"
    and put_failed: "inv s \<Longrightarrow> put e i src n ex s = (Inl err, s') \<Longrightarrow>
      view s' = view s \<or> (err = ErrIO SysSyncDir \<and> accepted src n ex \<and> view s' = (view s)(i \<mapsto> concat (fst src)))"
    and deleted: "inv s \<Longrightarrow> del e i s = (Inr b, s') \<Longrightarrow> view s' = (view s)(i := None) \<and> (b \<longleftrightarrow> view s i \<noteq> None)"
    and delete_failed: "inv s \<Longrightarrow> del e i s = (Inl err, s') \<Longrightarrow> view s' = view s"
    and read_found: "inv s \<Longrightarrow> get e i s = Inr (d, n) \<Longrightarrow> view s i = Some d \<and> n = int (length d)"
    and read_missing: "inv s \<Longrightarrow> get e i s = Inl ErrNotFound \<Longrightarrow> view s i = None"
begin

text \<open>If all writes of a chunk declare its digest, every copy of it has that digest.\<close>

definition consistent :: "(string \<Rightarrow> string) \<Rightarrow> 's \<Rightarrow> bool" where
  "consistent sums s \<longleftrightarrow> (\<forall>i d. view s i = Some d \<longrightarrow> Sum d = sums i)"

lemma consistent_write:
  assumes "inv s" and "consistent sums s" and "sums i \<noteq> []"
  shows "consistent sums (snd (put e i src n (sums i) s))"
proof -
  obtain res s' where w: "put e i src n (sums i) s = (res, s')" by fastforce
  have "\<exists>d. view s' = view s \<or> (view s' = (view s)(i \<mapsto> d) \<and> Sum d = sums i)"
  proof (cases res)
    case (Inl err)
    with w put_failed [OF assms(1), of e i src n "sums i" err s'] assms(3) show ?thesis by (auto simp: accepted_def)
  next
    case (Inr r)
    with w put_stored [OF assms(1), of e i src n "sums i" r s'] assms(3) show ?thesis by auto
  qed
  then show ?thesis using assms(2) w by (auto simp: consistent_def split: if_splits)
qed

lemma consistent_delete:
  assumes "inv s" and "consistent sums s"
  shows "consistent sums (snd (del e i s))"
proof -
  obtain res s' where d: "del e i s = (res, s')" by fastforce
  have "view s' = view s \<or> view s' = (view s)(i := None)"
    using deleted [OF assms(1), of e i _ s'] delete_failed [OF assms(1), of e i _ s'] d by (cases res) auto
  then show ?thesis using assms(2) d by (auto simp: consistent_def split: if_splits)
qed

end

type_synonym node_state = "ChunkStore \<times> fs"

definition node_view :: "node_state \<Rightarrow> string \<Rightarrow> bytes option" where
  "node_view s i = (if valid_id i then file_at (snd s) (chunk_path (fst s) i) else None)"

definition node_ok :: "node_state \<Rightarrow> bool" where
  "node_ok s \<longleftrightarrow> fs_wf (snd s)"

definition node_write :: "(syscall \<Rightarrow> bool) \<Rightarrow> string \<Rightarrow> copy_source \<Rightarrow> int \<Rightarrow> string \<Rightarrow> node_state \<Rightarrow> (store_error + WriteResult) \<times> node_state" where
  "node_write flt i src n ex s =
     (case ChunkStore_Write flt (fst s) (snd s) i src n ex of (res, cs', ops) \<Rightarrow> (res, cs', fs_run ops (snd s)))"

definition node_delete :: "(syscall \<Rightarrow> bool) \<Rightarrow> string \<Rightarrow> node_state \<Rightarrow> (store_error + bool) \<times> node_state" where
  "node_delete flt i s = (case ChunkStore_Delete flt (fst s) (snd s) i of (res, cs', ops) \<Rightarrow> (res, cs', fs_run ops (snd s)))"

definition node_read :: "(syscall \<Rightarrow> bool) \<Rightarrow> string \<Rightarrow> node_state \<Rightarrow> store_error + bytes \<times> int" where
  "node_read flt i s = ChunkStore_Open flt (fst s) (snd s) i"

lemma fs_wf_apply: "fs_wf f \<Longrightarrow> fs_wf (fs_apply x f)"
  by (cases x) (force simp: fs_wf_def less_Suc_eq split: option.splits dest: map_of_SomeD)+

lemma fs_wf_run: "fs_wf f \<Longrightarrow> fs_wf (fs_run ops f)"
  unfolding fs_run_def by (induction ops arbitrary: f) (auto intro: fs_wf_apply)

lemma chunk_path_dir: "cs_dataDir cs' = cs_dataDir cs \<Longrightarrow> chunk_path cs' i = chunk_path cs i"
  by (simp add: chunk_path_def)

lemma same_dirs [simp]: "cs_dataDir (addUsage b c cs) = cs_dataDir cs" "cs_fsync (addUsage b c cs) = cs_fsync cs"
  by (simp_all add: addUsage_def)

lemma Write_dirs:
  assumes "ChunkStore_Write flt cs f i src n ex = (res, cs', ops)"
  shows "cs_dataDir cs' = cs_dataDir cs"
  using assms
proof (cases rule: Write_cases)
  case fresh
  from fresh(2) show ?thesis by (cases rule: write_new_cases) auto
qed simp_all

lemma node_view_fresh:
  assumes w: "write_new flt cs f (chunk_path cs i) i src n ex = (res, cs', ops)" and ok: "fs_wf f" and v: "valid_id i" and d: "cs_dataDir cs' = cs_dataDir cs"
  shows "(\<exists>e. res = Inl e) \<and> node_view (cs', fs_run ops f) = node_view (cs, f)
    \<or> accepted src n ex \<and> node_view (cs', fs_run ops f) = (node_view (cs, f))(i \<mapsto> concat (fst src))
      \<and> (res = Inl (ErrIO SysSyncDir) \<or> res = Inr \<lparr>wr_BytesWritten = int (length (concat (fst src))), wr_Checksum = Sum (concat (fst src)), wr_AlreadyExisted = False\<rparr>)"
proof -
  let ?t = "temp_path cs i (cs_tempSeq cs + 1)" and ?p = "chunk_path cs i"
  from w show ?thesis
  proof (cases rule: write_new_cases)
    case (stopped e)
    from stopped(3) have "file_at (fs_run ops f) (chunk_path cs j) = file_at f (chunk_path cs j)" for j
    proof (elim disjE)
      assume "file_at f ?t = None"
      then show ?thesis
        by (intro quiet_file_at [OF quiet_run [OF quiet_refl stopped(2)] ok]) (simp_all add: file_at_None temp_not_chunk [symmetric])
    next
      assume "\<forall>x \<in> set ops. \<exists>d. x = MkdirAll d"
      from run_mkdirs [OF this] show ?thesis by (simp add: file_at_def)
    qed
    then show ?thesis using stopped(1) by (auto simp: node_view_def fun_eq_iff chunk_path_dir [OF d])
  next
    case (published ps tl)
    define g where "g = fs_run (staged (cs_fsync cs) ?t (Dir ?p) ps @ [RenameFile ?t ?p]) f"
    note rp = run_publish [where sync = "cs_fsync cs" and final = ?p and d = "Dir ?p" and ps = ps,
        OF published(2) [unfolded file_at_None] temp_not_chunk, folded g_def]
    have "fs_run ops f = fs_run tl g" using published(3) by (simp add: g_def fs_run_def)
    moreover have "file_at (fs_run tl g) p = file_at g p" for p using published(6) by (auto simp: fs_run_def file_at_def)
    ultimately have "file_at (fs_run ops f) p = (if p = ?p then Some (concat ps) else file_at f p)" for p
      using file_at_published [OF rp(1,4,6) ok] by simp
    then have "node_view (cs', fs_run ops f) = (node_view (cs, f))(i \<mapsto> concat ps)"
      using v chunk_path_inj by (auto simp: node_view_def fun_eq_iff chunk_path_dir [OF d])
    then show ?thesis using published by (auto simp: accepted_def)
  qed
qed

lemma node_write_effect:
  assumes w: "node_write flt i src n ex s = (res, s')" and ok: "node_ok s"
  shows "(\<exists>e. res = Inl e) \<and> node_view s' = node_view s
    \<or> accepted src n ex \<and> node_view s' = (node_view s)(i \<mapsto> concat (fst src))
      \<and> (res = Inl (ErrIO SysSyncDir) \<or> res = Inr \<lparr>wr_BytesWritten = int (length (concat (fst src))), wr_Checksum = Sum (concat (fst src)), wr_AlreadyExisted = False\<rparr>)
    \<or> (\<exists>bs. node_view s i = Some bs \<and> node_view s' = node_view s \<and> (ex \<noteq> [] \<longrightarrow> Sum bs = ex)
        \<and> res = Inr \<lparr>wr_BytesWritten = int (length bs), wr_Checksum = Sum bs, wr_AlreadyExisted = True\<rparr>)"
proof -
  obtain cs' ops where c: "ChunkStore_Write flt (fst s) (snd s) i src n ex = (res, cs', ops)" and s': "s' = (cs', fs_run ops (snd s))"
    using w by (auto simp: node_write_def split: prod.splits)
  from c show ?thesis
  proof (cases rule: Write_cases)
    case fresh
    from node_view_fresh [OF fresh(2) ok [unfolded node_ok_def] fresh(1) Write_dirs [OF c]] show ?thesis
      unfolding s' prod.collapse by blast
  next
    case (existing bs)
    then have "node_view s i = Some bs" "s' = s" by (simp_all add: s' node_view_def fs_run_def)
    then show ?thesis using existing by simp
  next
    case refused
    then have "s' = s" by (simp add: s' fs_run_def)
    with refused show ?thesis by auto
  qed
qed

lemma node_ok_write: "node_ok s \<Longrightarrow> node_ok (snd (node_write flt i src n ex s))"
  by (cases "ChunkStore_Write flt (fst s) (snd s) i src n ex") (simp add: node_ok_def node_write_def fs_wf_run)

lemma node_ok_delete: "node_ok s \<Longrightarrow> node_ok (snd (node_delete flt i s))"
  by (cases "ChunkStore_Delete flt (fst s) (snd s) i") (simp add: node_ok_def node_delete_def fs_wf_run)

lemma node_delete_effect:
  assumes "node_delete flt i s = (res, s')"
  shows "case res of Inr b \<Rightarrow> node_view s' = (node_view s)(i := None) \<and> (b \<longleftrightarrow> node_view s i \<noteq> None) | Inl e \<Rightarrow> node_view s' = node_view s"
proof -
  have p: "file_at (fs_apply (RemoveFile p) f) = (file_at f)(p := None)" for p f
    by (auto simp: fun_eq_iff file_at_def simp del: fs_apply.simps)
  obtain cs f where s: "s = (cs, f)" by (cases s)
  have rm: "node_view (addUsage a b cs, fs_apply (RemoveFile (chunk_path cs i)) f) j = ((node_view s)(i := None)) j" if "valid_id i" for a b j
    using that chunk_path_inj [of j i cs cs] by (simp add: node_view_def p s chunk_path_dir [OF same_dirs(1)] del: fs_apply.simps)
  show ?thesis
  proof (cases "valid_id i \<and> file_at f (chunk_path cs i) \<noteq> None \<and> \<not> flt SysStat \<and> \<not> flt SysRemove")
    case True
    then have "res = Inr True" "s' = (addUsage (- int (length (the (file_at f (chunk_path cs i))))) (- 1) cs, fs_apply (RemoveFile (chunk_path cs i)) f)"
      using assms by (auto simp: node_delete_def ChunkStore_Delete_def PathFor_eq fs_run_def s simp del: fs_apply.simps)
    then show ?thesis using rm True by (simp add: fun_eq_iff) (simp add: node_view_def s)
  next
    case False
    then have "s' = s \<and> (res = Inr False \<longrightarrow> node_view s i = None) \<and> res \<noteq> Inr True"
      using assms by (auto simp: node_delete_def ChunkStore_Delete_def PathFor_eq fs_run_def s node_view_def split: if_splits option.splits)
    then show ?thesis by (cases res) (auto simp: fun_upd_idem)
  qed
qed

lemma node_read_effect:
  "node_read flt i s = res \<Longrightarrow> (\<forall>d n. res = Inr (d, n) \<longrightarrow> node_view s i = Some d \<and> n = int (length d)) \<and> (res = Inl ErrNotFound \<longrightarrow> node_view s i = None)"
  by (auto simp: node_read_def ChunkStore_Open_def PathFor_eq node_view_def split: if_splits option.splits)

interpretation chunk_files: chunk_holder node_view node_ok node_write node_delete node_read
proof
  fix s e i src n ex and r :: WriteResult and s'
  assume "node_ok s" "node_write e i src n ex s = (Inr r, s')"
  from node_write_effect [OF this(2,1)]
  show "\<exists>d. node_view s' = (node_view s)(i \<mapsto> d) \<and> wr_Checksum r = Sum d \<and> wr_BytesWritten r = int (length d) \<and> (ex \<noteq> [] \<longrightarrow> Sum d = ex)
        \<and> (if wr_AlreadyExisted r then node_view s i = Some d else d = concat (fst src) \<and> accepted src n ex)"
    by (auto simp: accepted_def fun_upd_idem)
next
  fix s e i src n ex err s'
  assume "node_ok s" "node_write e i src n ex s = (Inl err, s')"
  from node_write_effect [OF this(2,1)]
  show "node_view s' = node_view s \<or> (err = ErrIO SysSyncDir \<and> accepted src n ex \<and> node_view s' = (node_view s)(i \<mapsto> concat (fst src)))"
    by auto
next
  fix s e i b s'
  assume "node_delete e i s = (Inr b, s')"
  from node_delete_effect [OF this] show "node_view s' = (node_view s)(i := None) \<and> (b \<longleftrightarrow> node_view s i \<noteq> None)" by simp
next
  fix s e i err s'
  assume "node_delete e i s = (Inl err, s')"
  from node_delete_effect [OF this] show "node_view s' = node_view s" by simp
next
  fix s e i d n
  assume "node_read e i s = Inr (d, n)"
  from node_read_effect [OF this] show "node_view s i = Some d \<and> n = int (length d)" by simp
next
  fix s e i
  assume "node_read e i s = Inl ErrNotFound"
  from node_read_effect [OF this] show "node_view s i = None" by simp
qed (simp_all add: node_ok_write node_ok_delete)

text \<open>
  C9 (the directory is a map). Seen as a map from chunk IDs to contents, a write that succeeds sets
  the entry to the bytes of the source, or finds one that has the declared digest; what it reports
  is the size and digest of the entry; a failed write changes nothing, unless only the sync of the
  directory failed; deleting removes the entry and says whether there was one; reading returns it.
\<close>

theorem chunk_store_refines:
  assumes ok: "node_ok s"
  shows "(case node_write flt i src n ex s of
      (Inr r, s') \<Rightarrow> node_ok s' \<and> (\<exists>d. node_view s' = (node_view s)(i \<mapsto> d) \<and> wr_Checksum r = Sum d \<and> wr_BytesWritten r = int (length d)
        \<and> (if wr_AlreadyExisted r then node_view s i = Some d \<and> (ex \<noteq> [] \<longrightarrow> Sum d = ex) else d = concat (fst src) \<and> accepted src n ex))
    | (Inl e, s') \<Rightarrow> node_ok s' \<and> (if e = ErrIO SysSyncDir \<and> accepted src n ex \<and> node_view s' \<noteq> node_view s
        then node_view s' = (node_view s)(i \<mapsto> concat (fst src)) else node_view s' = node_view s))
    \<and> (case node_delete flt i s of
      (Inr existed, s') \<Rightarrow> node_ok s' \<and> node_view s' = (node_view s)(i := None) \<and> (existed \<longleftrightarrow> node_view s i \<noteq> None)
    | (Inl e, s') \<Rightarrow> node_ok s' \<and> node_view s' = node_view s)
    \<and> (case node_read flt i s of
      Inr (d, m) \<Rightarrow> node_view s i = Some d \<and> m = int (length d)
    | Inl e \<Rightarrow> e = ErrNotFound \<longrightarrow> node_view s i = None)"
proof (intro conjI)
  obtain res s' where w: "node_write flt i src n ex s = (res, s')" by (cases "node_write flt i src n ex s")
  have ok': "node_ok s'" using chunk_files.put_inv [OF ok, of flt i src n ex] w by simp
  show "case node_write flt i src n ex s of
      (Inr r, s') \<Rightarrow> node_ok s' \<and> (\<exists>d. node_view s' = (node_view s)(i \<mapsto> d) \<and> wr_Checksum r = Sum d \<and> wr_BytesWritten r = int (length d)
        \<and> (if wr_AlreadyExisted r then node_view s i = Some d \<and> (ex \<noteq> [] \<longrightarrow> Sum d = ex) else d = concat (fst src) \<and> accepted src n ex))
    | (Inl e, s') \<Rightarrow> node_ok s' \<and> (if e = ErrIO SysSyncDir \<and> accepted src n ex \<and> node_view s' \<noteq> node_view s
        then node_view s' = (node_view s)(i \<mapsto> concat (fst src)) else node_view s' = node_view s)"
  proof (cases res)
    case (Inl e)
    from chunk_files.put_failed [OF ok w [unfolded Inl]] ok' show ?thesis unfolding w Inl by auto
  next
    case (Inr r)
    from chunk_files.put_stored [OF ok w [unfolded Inr]] obtain d where "node_view s' = (node_view s)(i \<mapsto> d)" "wr_Checksum r = Sum d"
      "wr_BytesWritten r = int (length d)" "ex \<noteq> [] \<longrightarrow> Sum d = ex"
      "if wr_AlreadyExisted r then node_view s i = Some d else d = concat (fst src) \<and> accepted src n ex" by blast
    then show ?thesis unfolding w Inr using ok' by (auto intro!: exI [of _ d])
  qed
  show "case node_delete flt i s of
      (Inr existed, s') \<Rightarrow> node_ok s' \<and> node_view s' = (node_view s)(i := None) \<and> (existed \<longleftrightarrow> node_view s i \<noteq> None)
    | (Inl e, s') \<Rightarrow> node_ok s' \<and> node_view s' = node_view s"
    using chunk_files.del_inv [OF ok, of flt i] chunk_files.deleted [OF ok, of flt i] chunk_files.delete_failed [OF ok, of flt i]
    by (auto split: prod.split sum.split)
  show "case node_read flt i s of Inr (d, m) \<Rightarrow> node_view s i = Some d \<and> m = int (length d) | Inl e \<Rightarrow> e = ErrNotFound \<longrightarrow> node_view s i = None"
    using chunk_files.read_found [OF ok, of flt i] chunk_files.read_missing [OF ok, of flt i] by (auto split: sum.split)
qed

section \<open>The inventory\<close>

definition chunk_file :: "path \<Rightarrow> bool" where
  "chunk_file p \<longleftrightarrow> HasSuffix (Base p) chunkSuffix \<and> valid_id (TrimSuffix (Base p) chunkSuffix)"

definition inventory_entry :: "(path \<Rightarrow> time) \<Rightarrow> fs \<Rightarrow> path \<Rightarrow> InventoryEntry" where
  "inventory_entry mtime f p = \<lparr>ie_ChunkID = TrimSuffix (Base p) chunkSuffix, ie_Size = file_size f p, ie_Modified = mtime p\<rparr>"

text \<open>The callback that keeps all batches.\<close>

definition collect :: "InventoryEntry list \<Rightarrow> InventoryEntry list list \<Rightarrow> unit option \<times> InventoryEntry list list" where
  "collect b bs = (None, bs @ [b])"

lemma walk_loop_collect:
  assumes "0 < N" and "int (length batch) < N" and "\<forall>p \<in> set ps. stat p \<noteq> StatFail"
  shows "\<exists>bs batch'. walk_loop stat mtime N collect f ps batch s = (Inr batch', s @ bs) \<and> int (length batch') < N
    \<and> concat bs @ batch' = batch @ map (inventory_entry mtime f) (filter (\<lambda>p. chunk_file p \<and> stat p = StatOk) ps)
    \<and> (\<forall>b \<in> set bs. int (length b) = N)"
  using assms(2,3)
proof (induction ps arbitrary: batch s)
  case (Cons p ps)
  note IH = Cons.IH [OF _ ballI [OF bspec [OF Cons.prems(2)]]]
  let ?e = "inventory_entry mtime f p"
  show ?case
  proof (cases "chunk_file p \<and> stat p = StatOk")
    case True
    show ?thesis
    proof (cases "int (length (batch @ [?e])) \<ge> N")
      case full: True
      with IH [of "[]" "s @ [batch @ [?e]]"] assms(1) obtain bs batch' where
        "walk_loop stat mtime N collect f ps [] (s @ [batch @ [?e]]) = (Inr batch', s @ (batch @ [?e]) # bs)" "int (length batch') < N"
        "concat bs @ batch' = map (inventory_entry mtime f) (filter (\<lambda>p. chunk_file p \<and> stat p = StatOk) ps)" "\<forall>b \<in> set bs. int (length b) = N"
        by auto
      then show ?thesis using True full Cons.prems(1)
        by (intro exI [of _ "(batch @ [?e]) # bs"] exI [of _ batch']) (simp add: chunk_file_def valid_id_def inventory_entry_def collect_def [of "batch @ [x]" s for x])
    next
      case False
      with IH [of "batch @ [?e]" s] True show ?thesis by (simp add: chunk_file_def valid_id_def inventory_entry_def)
    qed
  next
    case False
    then have "walk_loop stat mtime N collect f (p # ps) batch s = walk_loop stat mtime N collect f ps batch s"
      using Cons.prems(2) by (cases "stat p") (auto simp: chunk_file_def valid_id_def Let_def)
    with IH [of batch s] False Cons.prems(1) show ?thesis by (auto simp del: walk_loop.simps)
  qed
qed simp

text \<open>Every chunk file in the data directory is where the layout puts it.\<close>

definition tidy :: "ChunkStore \<Rightarrow> fs \<Rightarrow> bool" where
  "tidy cs f \<longleftrightarrow> (\<forall>p \<in> set (walk_files f (cs_dataDir cs)). chunk_file p \<longrightarrow> p = chunk_path cs (TrimSuffix (Base p) chunkSuffix))"

lemma TrimSuffix_append: "TrimSuffix (s @ suffix) suffix = s" "HasSuffix (s @ suffix) suffix"
  by (simp_all add: TrimSuffix_def HasSuffix_def)

lemma set_walk_files: "p \<in> set (walk_files f d) \<longleftrightarrow> HasPrefix p (d @ ''/'') \<and> file_at f p \<noteq> None"
  by (auto simp: walk_files_def file_at_None map_of_eq_None_iff)

lemma distinct_walk_files: "distinct (walk_files f d)"
  by (simp add: walk_files_def)

lemma chunk_path_walked:
  assumes "valid_id i"
  shows "chunk_path cs i \<in> set (walk_files f (cs_dataDir cs)) \<longleftrightarrow> node_view (cs, f) i \<noteq> None"
    and "chunk_file (chunk_path cs i)" and "TrimSuffix (Base (chunk_path cs i)) chunkSuffix = i"
proof -
  have "HasPrefix (chunk_path cs i) (cs_dataDir cs @ ''/'')" by (simp add: HasPrefix_iff chunk_path_def)
  then show "chunk_path cs i \<in> set (walk_files f (cs_dataDir cs)) \<longleftrightarrow> node_view (cs, f) i \<noteq> None"
    using assms by (simp add: set_walk_files node_view_def)
  show "chunk_file (chunk_path cs i)" "TrimSuffix (Base (chunk_path cs i)) chunkSuffix = i"
    using assms by (simp_all add: chunk_file_def Base_chunk_path TrimSuffix_append)
qed

lemma tidy_files:
  assumes "tidy cs f"
  shows "inj_on (\<lambda>p. TrimSuffix (Base p) chunkSuffix) (set (filter chunk_file (walk_files f (cs_dataDir cs))))"
    and "(\<lambda>p. TrimSuffix (Base p) chunkSuffix) ` set (filter chunk_file (walk_files f (cs_dataDir cs))) = {i. node_view (cs, f) i \<noteq> None}"
proof -
  let ?w = "set (walk_files f (cs_dataDir cs))" and ?i = "\<lambda>p. TrimSuffix (Base p) chunkSuffix"
  have t: "p = chunk_path cs (?i p) \<and> valid_id (?i p)" if "p \<in> ?w" "chunk_file p" for p
    using assms that by (auto simp: tidy_def chunk_file_def)
  show "inj_on ?i (set (filter chunk_file (walk_files f (cs_dataDir cs))))"
    by (rule inj_onI) (metis (mono_tags, lifting) t mem_Collect_eq set_filter)
  show "?i ` set (filter chunk_file (walk_files f (cs_dataDir cs))) = {i. node_view (cs, f) i \<noteq> None}" (is "?L = ?R")
  proof (intro subset_antisym subsetI)
    fix i assume "i \<in> ?L"
    then obtain p where p: "p \<in> ?w" "chunk_file p" "i = ?i p" by auto
    then show "i \<in> ?R" using t [OF p(1,2)] chunk_path_walked(1) [of i cs f] by simp
  next
    fix i assume "i \<in> ?R"
    moreover from this have "valid_id i" by (simp add: node_view_def split: if_splits)
    ultimately show "i \<in> ?L" using chunk_path_walked(1) [of i cs f] chunk_path_walked(2,3) [of i cs] by (intro image_eqI [of _ _ "chunk_path cs i"]) simp_all
  qed
qed

text \<open>
  C23 (inventory). If no file fails to be examined, the batches handed to the callback, put together,
  list the chunk files in the data directory in order, each batch is non-empty and no longer than
  the batch size, and in a directory with the store's layout the reported IDs are, without
  repetition, exactly those of the chunks the node holds.
\<close>

theorem inventory_exact:
  assumes st: "\<forall>p. stat p = StatOk" and t: "tidy cs f"
  shows "\<exists>bs. WalkInventory stat mtime cs f batchSize collect [] = (None, bs)
    \<and> (\<forall>b \<in> set bs. b \<noteq> [] \<and> int (length b) \<le> (if batchSize \<le> 0 then 1000 else batchSize))
    \<and> distinct (map ie_ChunkID (concat bs)) \<and> set (map ie_ChunkID (concat bs)) = {i. node_view (cs, f) i \<noteq> None}
    \<and> (\<forall>e \<in> set (concat bs). \<exists>d. node_view (cs, f) (ie_ChunkID e) = Some d \<and> ie_Size e = int (length d))"
proof -
  let ?N = "if batchSize \<le> 0 then 1000 else batchSize" and ?ps = "walk_files f (cs_dataDir cs)"
  have N: "0 < ?N" by simp
  obtain bs batch where w: "walk_loop stat mtime ?N collect f ?ps [] [] = (Inr batch, bs)" "int (length batch) < ?N"
    "concat bs @ batch = map (inventory_entry mtime f) (filter chunk_file ?ps)" "\<forall>b \<in> set bs. int (length b) = ?N"
    using walk_loop_collect [OF N, of "[]" ?ps stat mtime f "[]"] st N by auto
  define all where "all = (if batch = [] then bs else bs @ [batch])"
  have a: "concat all = map (inventory_entry mtime f) (filter chunk_file ?ps)" using w(3) by (auto simp: all_def)
  have "WalkInventory stat mtime cs f batchSize collect [] = (None, all)"
    using w(1) by (simp add: WalkInventory_def all_def collect_def [of batch])
  moreover have "\<forall>b \<in> set all. b \<noteq> [] \<and> int (length b) \<le> ?N" using w(2,4) N by (auto simp: all_def)
  moreover have ids: "map ie_ChunkID (concat all) = map (\<lambda>p. TrimSuffix (Base p) chunkSuffix) (filter chunk_file ?ps)"
    by (simp add: a inventory_entry_def)
  moreover have "distinct (map ie_ChunkID (concat all))" "set (map ie_ChunkID (concat all)) = {i. node_view (cs, f) i \<noteq> None}"
    unfolding ids using tidy_files [OF t] distinct_walk_files by (simp_all add: distinct_map)
  moreover have "\<forall>e \<in> set (concat all). \<exists>d. node_view (cs, f) (ie_ChunkID e) = Some d \<and> ie_Size e = int (length d)"
    unfolding a
  proof
    fix e assume "e \<in> set (map (inventory_entry mtime f) (filter chunk_file ?ps))"
    then obtain p where p: "p \<in> set ?ps" "chunk_file p" "e = inventory_entry mtime f p" by auto
    then have "p = chunk_path cs (ie_ChunkID e)" "valid_id (ie_ChunkID e)" using t by (auto simp: tidy_def inventory_entry_def chunk_file_def)
    moreover obtain d where "file_at f p = Some d" using p(1) by (auto simp: set_walk_files)
    ultimately show "\<exists>d. node_view (cs, f) (ie_ChunkID e) = Some d \<and> ie_Size e = int (length d)"
      using p(3) by (intro exI [of _ d]) (simp add: node_view_def inventory_entry_def file_size_def)
  qed
  ultimately show ?thesis by blast
qed

section \<open>An example\<close>

definition ex_id :: string where
  "ex_id = ''0a1b2c3d-0000-4000-8000-00000000000f''"

definition ex_cs :: ChunkStore where
  "ex_cs = \<lparr>cs_root = ''n1'', cs_dataDir = ''n1/data'', cs_tempDir = ''n1/tmp'', cs_fsync = True, cs_capacity = 100,
     cs_usedBytes = 0, cs_chunkCount = 0, cs_activeRequests = 0, cs_tempSeq = 0\<rparr>"

definition ex_fs :: fs where
  "ex_fs = \<lparr>fs_names = [], fs_durable = [], fs_dirs = parent_dirs (chunk_path ex_cs ex_id),
     fs_durable_dirs = parent_dirs (chunk_path ex_cs ex_id), fs_data = (\<lambda>i. []), fs_synced = (\<lambda>i. []), fs_next = 0\<rparr>"

definition ex_src :: copy_source where
  "ex_src = ([[1, 2], [3]], False)"

lemma ex_valid: "valid_id ex_id"
  by code_simp

lemma ex_fs_ok: "fs_wf ex_fs" "settled ex_cs ex_fs" "node_ok (ex_cs, ex_fs)" "map_of (fs_names ex_fs) p = None"
  by (simp_all add: fs_wf_def ex_fs_def settled_def node_ok_def)

lemma ex_write: "\<exists>r cs' ops. ChunkStore_Write (\<lambda>_. False) ex_cs ex_fs ex_id ex_src 3 [] = (Inr r, cs', ops) \<and> \<not> wr_AlreadyExisted r"
  using ex_valid ex_fs_ok(4)
  by (simp add: ChunkStore_Write_def PathFor_eq file_at_def write_new_def ex_src_def Let_def)

lemma write_crash_safe_witness:
  "\<exists>r cs' ops. ChunkStore_Write (\<lambda>_. False) ex_cs ex_fs ex_id ex_src 3 [] = (Inr r, cs', ops)
     \<and> (file_at (fs_run (take 3 ops) ex_fs) (chunk_path ex_cs ex_id) = file_at ex_fs (chunk_path ex_cs ex_id)
        \<or> file_at (fs_run (take 3 ops) ex_fs) (chunk_path ex_cs ex_id) = Some [1, 2, 3])
     \<and> settled ex_cs (fs_run (take 3 ops) ex_fs)"
proof -
  obtain r cs' ops where w: "ChunkStore_Write (\<lambda>_. False) ex_cs ex_fs ex_id ex_src 3 [] = (Inr r, cs', ops)" using ex_write by blast
  from write_crash_safe [OF w ex_fs_ok(1) ex_valid refl, of 3] ex_fs_ok(2) w show ?thesis
    by (auto simp: ex_src_def ex_cs_def)
qed

lemma power_loss_refl: "power_loss f f"
  by (simp add: power_loss_def)

lemma write_durable_witness:
  "\<exists>r cs' ops. ChunkStore_Write (\<lambda>_. False) ex_cs ex_fs ex_id ex_src 3 [] = (Inr r, cs', ops)
     \<and> power_loss (fs_run ops ex_fs) (fs_run ops ex_fs) \<and> file_at (fs_run ops ex_fs) (chunk_path ex_cs ex_id) = Some [1, 2, 3]"
proof -
  obtain r cs' ops where w: "ChunkStore_Write (\<lambda>_. False) ex_cs ex_fs ex_id ex_src 3 [] = (Inr r, cs', ops)" "\<not> wr_AlreadyExisted r"
    using ex_write by blast
  have d: "cs_fsync ex_cs" "set (parent_dirs (chunk_path ex_cs ex_id)) \<subseteq> set (fs_durable_dirs ex_fs)"
    by (simp_all add: ex_cs_def ex_fs_def)
  from write_durable [OF w ex_fs_ok(1) d power_loss_refl] w power_loss_refl show ?thesis by (auto simp: ex_src_def)
qed

lemma chunk_store_refines_witness:
  "node_ok (ex_cs, ex_fs) \<and> (\<exists>r s'. node_write (\<lambda>_. False) ex_id ex_src 3 [] (ex_cs, ex_fs) = (Inr r, s')
     \<and> node_view s' = (node_view (ex_cs, ex_fs))(ex_id \<mapsto> [1, 2, 3]) \<and> wr_BytesWritten r = 3)"
proof -
  obtain r cs' ops where "ChunkStore_Write (\<lambda>_. False) ex_cs ex_fs ex_id ex_src 3 [] = (Inr r, cs', ops)" "\<not> wr_AlreadyExisted r"
    using ex_write by blast
  then have "node_write (\<lambda>_. False) ex_id ex_src 3 [] (ex_cs, ex_fs) = (Inr r, cs', fs_run ops ex_fs)" "\<not> wr_AlreadyExisted r"
    by (simp_all add: node_write_def)
  with chunk_store_refines [OF ex_fs_ok(3), where flt = "\<lambda>_. False" and i = ex_id and src = ex_src and n = 3 and ex = "[]"] ex_fs_ok(3) show ?thesis
    by (auto simp: ex_src_def)
qed

definition ex_held :: fs where
  "ex_held = ex_fs\<lparr>fs_names := [(chunk_path ex_cs ex_id, 0), (''n1/data/readme.txt'', 1)], fs_data := (\<lambda>i. [1, 2, 3])\<rparr>"

lemma inventory_exact_witness:
  "tidy ex_cs ex_held \<and> (\<exists>bs. WalkInventory (\<lambda>p. StatOk) (\<lambda>p. 0) ex_cs ex_held 10 collect [] = (None, bs)
     \<and> set (map ie_ChunkID (concat bs)) = {i. node_view (ex_cs, ex_held) i \<noteq> None})"
proof -
  have t: "tidy ex_cs ex_held" by code_simp
  show ?thesis using inventory_exact [OF _ t, of "\<lambda>p. StatOk" "\<lambda>p. 0" 10] t by auto
qed

section \<open>Startup after a crash\<close>

lemma run_removes:
  "map_of (fs_names (fs_run (map RemoveFile ps) f)) p = (if p \<in> set ps then None else map_of (fs_names f) p)
   \<and> fs_data (fs_run (map RemoveFile ps) f) = fs_data f"
  unfolding fs_run_def by (induction ps arbitrary: f) (auto simp: fun_upd_def map_of_filter_key [of "\<lambda>x. x \<noteq> a" for a])

lemma usage_sum:
  assumes "0 \<le> b" and "b + (\<Sum>p \<leftarrow> ps. file_size f p) < 2 ^ 63"
  shows "foldl (\<lambda>b p. wrap64 (b + file_size f p)) b ps = b + (\<Sum>p \<leftarrow> ps. file_size f p)"
  using assms
proof (induction ps arbitrary: b)
  case (Cons p ps)
  have z: "0 \<le> file_size f q" for q by (simp add: file_size_def split: option.split)
  then have "0 \<le> (\<Sum>p \<leftarrow> ps. file_size f p)" by (intro sum_list_nonneg) auto
  then have "wrap64 (b + file_size f p) = b + file_size f p"
    using Cons.prems z [of p] by (intro wrap64_id int64I) auto
  then show ?case using Cons.IH [of "b + file_size f p"] Cons.prems z [of p] by simp
qed simp

text \<open>A store that opens has no temporary file left, all chunk files as they were, and exact counters.\<close>

lemma startup_recovers:
  assumes new: "NewChunkStore flt rm stat f root sync capacity = (Inr cs, ops)"
    and small: "(\<Sum>p \<leftarrow> filter (\<lambda>p. HasSuffix (Base p) chunkSuffix) (walk_files f (root @ ''/data'')). file_size f p) < 2 ^ 63"
  shows "file_at (fs_run ops f) p = (if HasPrefix p (root @ ''/tmp/'') then None else file_at f p)"
    and "cs_usedBytes cs = (\<Sum>p \<leftarrow> filter (\<lambda>p. HasSuffix (Base p) chunkSuffix) (walk_files (fs_run ops f) (root @ ''/data'')). file_size (fs_run ops f) p)"
proof -
  let ?mk = "[MkdirAll (root @ ''/data''), MkdirAll (root @ ''/tmp'')]"
  define g where "g = fs_run ?mk f"
  have g: "fs_names g = fs_names f" "fs_data g = fs_data f" by (simp_all add: g_def fs_run_def)
  let ?e = "walk_files g (root @ ''/tmp'')"
  have rm: "takeWhile (\<lambda>p. \<not> rm p) ?e = ?e" if "\<forall>x \<in> set ?e. \<not> rm x" using that by (simp add: takeWhile_eq_all_conv)
  have ops: "ops = ?mk @ map RemoveFile ?e"
    using new by (auto simp: NewChunkStore_def Let_def clearTempDir_def g_def [symmetric] list_ex_iff split: if_splits prod.splits option.splits)
      (simp only: rm)
  have r: "fs_run ops f = fs_run (map RemoveFile ?e) g" by (simp add: ops g_def fs_run_def)
  have fa: "file_at (fs_run ops f) p = (if HasPrefix p (root @ ''/tmp/'') then None else file_at f p)" for p
    using run_removes [of ?e g p] by (auto simp: r file_at_def set_walk_files g)
  then show "file_at (fs_run ops f) p = (if HasPrefix p (root @ ''/tmp/'') then None else file_at f p)" .
  have dt: "\<not> HasPrefix p (root @ ''/tmp/'')" if "HasPrefix p (root @ ''/data/'')" for p
    using that by (auto simp: HasPrefix_iff)
  have w: "walk_files (fs_run ops f) (root @ ''/data'') = walk_files f (root @ ''/data'')"
  proof (rule sorted_distinct_set_unique)
    show "set (walk_files (fs_run ops f) (root @ ''/data'')) = set (walk_files f (root @ ''/data''))"
      using fa dt by (auto simp: set_walk_files)
  qed (simp_all add: walk_files_def)
  have s: "file_size (fs_run ops f) p = file_size f p" if "p \<in> set (walk_files f (root @ ''/data''))" for p
    using that fa [of p] dt [of p] by (simp add: file_size_def set_walk_files)
  have m: "map (file_size (fs_run ops f)) (filter (\<lambda>p. HasSuffix (Base p) chunkSuffix) (walk_files f (root @ ''/data'')))
      = map (file_size f) (filter (\<lambda>p. HasSuffix (Base p) chunkSuffix) (walk_files f (root @ ''/data'')))" using s by simp
  have "cs_usedBytes cs = foldl (\<lambda>b p. wrap64 (b + file_size (fs_run ops f) p)) 0
      (filter (\<lambda>p. HasSuffix (Base p) chunkSuffix) (walk_files (fs_run ops f) (root @ ''/data'')))"
    using new by (auto simp: NewChunkStore_def Let_def scan_def split: if_splits prod.splits option.splits)
  then show "cs_usedBytes cs = (\<Sum>p \<leftarrow> filter (\<lambda>p. HasSuffix (Base p) chunkSuffix) (walk_files (fs_run ops f) (root @ ''/data'')). file_size (fs_run ops f) p)"
    using usage_sum [of 0 "fs_run ops f"] small by (simp add: w m)
qed

text \<open>
  While the store runs, the counters can drift: overwriting a copy whose digest is wrong counts the
  new file without taking off the old one.
\<close>

lemma overwrite_counts_twice:
  assumes "valid_id i" and "file_at f (chunk_path cs i) = Some old" and "Sum old \<noteq> Sum d" and "Valid (Sum d)"
    and "file_at f (temp_path cs i (cs_tempSeq cs + 1)) = None"
  shows "\<exists>r ops. ChunkStore_Write (\<lambda>_. False) cs f i ([d], False) (-1) (Sum d)
    = (Inr r, addUsage (int (length d)) 1 (cs\<lparr>cs_tempSeq := cs_tempSeq cs + 1\<rparr>), ops)"
proof -
  have "Sum d \<noteq> []" using assms(4) by (auto simp: Valid_def)
  then show ?thesis
    using assms by (simp add: ChunkStore_Write_def PathFor_eq verifyFile_def Hex_digest Equal_iff write_new_def Let_def Verify_def)
qed

end
