(* ===== verification/Rpc.thy ===== *)
theory Rpc
  imports Flex_Prelude
begin

text \<open>
  What the services share of gRPC: the status codes the code uses (an RPC error is its code, the
  message is for humans), and a stream as the list of what \<^verbatim>\<open>Recv\<close> returns before its end.
\<close>

datatype code =
    InvalidArgument | NotFound | FailedPrecondition | ResourceExhausted | Internal | Unavailable
  | Aborted | Canceled | DeadlineExceeded

datatype 'm recv = Msg 'm | RecvErr code

end
