(* ===== verification/Storage_Service.thy ===== *)
theory Storage_Service
  imports Chunk_Durability Rpc
begin

text \<open>
  \<^verbatim>\<open>internal/storage/service.go\<close>: the gRPC service of a storage node over the chunk store. A stream is
  the list of what \<^verbatim>\<open>Recv\<close> returns before its end.
  Metrics and logging are left out. What may go wrong from outside (system calls, a cancelled
  context, a broken connection) is given by arguments.
\<close>

record ChunkHeader =
  hd_ChunkId :: string
  hd_SizeBytes :: int
  hd_ChecksumSha256 :: string

datatype StoreChunkRequest = Header ChunkHeader | Data bytes

section \<open>Streams as readers\<close>

text \<open>
  \<^verbatim>\<open>streamReader\<close> and \<^verbatim>\<open>readChunkReader\<close> differ in what they take from a message: \<open>payload\<close> is \<^const>\<open>None\<close>
  for a header that comes too late. The state of a reader is its buffer and the rest of the stream;
  after the end of the stream both report the end again.
\<close>

type_synonym 'm stream_reader = "bytes \<times> 'm recv list"

datatype read_result = ReadData bytes | ReadEOF | ReadErr

fun stream_read :: "('m \<Rightarrow> bytes option) \<Rightarrow> nat \<Rightarrow> 'm stream_reader \<Rightarrow> read_result \<times> 'm stream_reader" where
  "stream_read payload n (b # bs, es) = (ReadData (take n (b # bs)), drop n (b # bs), es)"
| "stream_read payload n ([], []) = (ReadEOF, [], [])"
| "stream_read payload n ([], RecvErr c # es) = (ReadErr, [], es)"
| "stream_read payload n ([], Msg m # es) =
     (case payload m of
        None \<Rightarrow> (ReadErr, [], es)
      | Some d \<Rightarrow> stream_read payload n (d, es))"

fun store_payload :: "StoreChunkRequest \<Rightarrow> bytes option" where
  "store_payload (Header h) = None"
| "store_payload (Data d) = Some d"

definition streamReader_Read :: "nat \<Rightarrow> StoreChunkRequest stream_reader \<Rightarrow> read_result \<times> StoreChunkRequest stream_reader" where
  "streamReader_Read = stream_read store_payload"

definition readChunkReader_Read :: "nat \<Rightarrow> bytes stream_reader \<Rightarrow> read_result \<times> bytes stream_reader" where
  "readChunkReader_Read = stream_read Some"

text \<open>\<^verbatim>\<open>io.Copy\<close> from a reader with a buffer of 32 KiB; the sum of all payloads bounds the number of reads.\<close>

definition copy_buffer :: nat where
  "copy_buffer = 32768"

fun payload_size :: "('m \<Rightarrow> bytes option) \<Rightarrow> 'm recv list \<Rightarrow> nat" where
  "payload_size payload [] = 0"
| "payload_size payload (RecvErr c # es) = payload_size payload es"
| "payload_size payload (Msg m # es) = (case payload m of None \<Rightarrow> 0 | Some d \<Rightarrow> length d) + payload_size payload es"

lemma stream_read_decreases:
  assumes "stream_read payload n r = (ReadData d, r')" and "0 < n"
  shows "length (fst r') + payload_size payload (snd r') < length (fst r) + payload_size payload (snd r)"
  using assms by (induction payload n r rule: stream_read.induct) (auto split: option.splits)

function io_copy :: "('m \<Rightarrow> bytes option) \<Rightarrow> 'm stream_reader \<Rightarrow> copy_source" where
  "io_copy payload r =
     (case stream_read payload copy_buffer r of
        (ReadEOF, r') \<Rightarrow> ([], False)
      | (ReadErr, r') \<Rightarrow> ([], True)
      | (ReadData d, r') \<Rightarrow> (case io_copy payload r' of (ps, failed) \<Rightarrow> (d # ps, failed)))"
  by pat_completeness auto
termination
  by (relation "measure (\<lambda>(payload, r). length (fst r) + payload_size payload (snd r))")
    (auto simp: copy_buffer_def dest!: stream_read_decreases [OF sym])

declare io_copy.simps [simp del]

text \<open>The copy also ends when the disk refuses a piece: \<open>full\<close> is the number of pieces it takes before that.\<close>

definition limit_source :: "nat option \<Rightarrow> copy_source \<Rightarrow> copy_source" where
  "limit_source full src =
     (case full of
        None \<Rightarrow> src
      | Some k \<Rightarrow> if k < length (fst src) then (take k (fst src), True) else src)"

section \<open>Handlers\<close>

record StoreChunkResponse =
  sc_ChunkId :: string
  sc_BytesWritten :: int
  sc_ChecksumSha256 :: string
  sc_AlreadyExisted :: bool

text \<open>The counter of requests in flight goes up for the duration of a handler.\<close>

definition with_request :: "(node_state \<Rightarrow> 'r \<times> node_state) \<Rightarrow> node_state \<Rightarrow> 'r \<times> node_state" where
  "with_request h s = (case h (BeginRequest (fst s), snd s) of (r, cs, f) \<Rightarrow> (r, EndRequest cs, f))"

fun write_code :: "store_error \<Rightarrow> code" where
  "write_code (ErrChecksum e) = FailedPrecondition"
| "write_code e = Internal"

definition StoreChunk ::
  "(syscall \<Rightarrow> bool) \<Rightarrow> nat option \<Rightarrow> StoreChunkRequest recv list \<Rightarrow> node_state \<Rightarrow> (code + StoreChunkResponse) \<times> node_state"
where
  "StoreChunk flt full stream = with_request (\<lambda>s.
     (case stream of
        [] \<Rightarrow> (Inl InvalidArgument, s)
      | RecvErr c # es \<Rightarrow> (Inl Internal, s)
      | Msg (Data d) # es \<Rightarrow> (Inl InvalidArgument, s)
      | Msg (Header h) # es \<Rightarrow>
          if ValidateChunkID (hd_ChunkId h) \<noteq> None then (Inl InvalidArgument, s)
          else if hd_ChecksumSha256 h \<noteq> [] \<and> \<not> Valid (hd_ChecksumSha256 h) then (Inl InvalidArgument, s)
          else (case node_write flt (hd_ChunkId h) (limit_source full (io_copy store_payload ([], es)))
                       (hd_SizeBytes h) (hd_ChecksumSha256 h) s of
                  (Inl e, s') \<Rightarrow> (Inl (write_code e), s')
                | (Inr res, s') \<Rightarrow>
                    (Inr \<lparr>sc_ChunkId = hd_ChunkId h, sc_BytesWritten = wr_BytesWritten res,
                          sc_ChecksumSha256 = wr_Checksum res, sc_AlreadyExisted = wr_AlreadyExisted res\<rparr>, s'))))"

definition streamFrameSize :: nat where
  "streamFrameSize = 256 * 1024"

record ReadChunkRequest =
  rc_ChunkId :: string
  rc_ExpectedChecksumSha256 :: string

text \<open>
  The read loop sends what it reads from the file frame by frame. Before frame \<open>k\<close> the context may be
  found cancelled, reading it may fail, and sending it may fail.
\<close>

record read_env =
  re_ctx :: "nat \<Rightarrow> code option"
  re_read_fails :: "nat \<Rightarrow> bool"
  re_send_fails :: "nat \<Rightarrow> bool"

function read_loop :: "read_env \<Rightarrow> nat \<Rightarrow> bytes \<Rightarrow> digest \<Rightarrow> int \<Rightarrow> bytes list \<Rightarrow> bytes list \<times> (code + digest \<times> int)" where
  "read_loop env k rest h sent out =
     (case re_ctx env k of
        Some c \<Rightarrow> (out, Inl c)
      | None \<Rightarrow>
          if re_read_fails env k then (out, Inl Internal)
          else if rest = [] then (out, Inr (h, sent))
          else if re_send_fails env k then (out, Inl Unavailable)
          else let fr = take streamFrameSize rest
               in read_loop env (k + 1) (drop streamFrameSize rest) (digest_write h fr) (sent + int (length fr)) (out @ [fr]))"
  by pat_completeness auto
termination
  by (relation "measure (\<lambda>(env, k, rest, h, sent, out). length rest)") (simp_all add: streamFrameSize_def)

declare read_loop.simps [simp del]

text \<open>\<^verbatim>\<open>ReadChunk\<close>: the frames sent, and the status the stream ends with (\<^const>\<open>None\<close> is OK).\<close>

definition ReadChunk ::
  "(syscall \<Rightarrow> bool) \<Rightarrow> read_env \<Rightarrow> ReadChunkRequest \<Rightarrow> node_state \<Rightarrow> (bytes list \<times> code option) \<times> node_state"
where
  "ReadChunk flt env req = with_request (\<lambda>s.
     (if ValidateChunkID (rc_ChunkId req) \<noteq> None then (([], Some InvalidArgument), s)
      else (case node_read flt (rc_ChunkId req) s of
          Inl ErrNotFound \<Rightarrow> (([], Some NotFound), s)
        | Inl e \<Rightarrow> (([], Some Internal), s)
        | Inr (d, n) \<Rightarrow>
            (case read_loop env 0 d New 0 [] of
               (frames, Inl c) \<Rightarrow> ((frames, Some c), s)
             | (frames, Inr (h, sent)) \<Rightarrow>
                 if rc_ExpectedChecksumSha256 req \<noteq> [] \<and> Verify (rc_ChunkId req) (rc_ExpectedChecksumSha256 req) (Hex h) \<noteq> None
                 then ((frames, Some FailedPrecondition), s)
                 else if sent \<noteq> n then ((frames, Some Internal), s)
                 else ((frames, None), s)))))"

definition DeleteChunk :: "(syscall \<Rightarrow> bool) \<Rightarrow> string \<Rightarrow> node_state \<Rightarrow> (code + bool) \<times> node_state" where
  "DeleteChunk flt chunkId s =
     (if ValidateChunkID chunkId \<noteq> None then (Inl InvalidArgument, s)
      else (case node_delete flt chunkId s of
          (Inl e, s') \<Rightarrow> (Inl Internal, s')
        | (Inr existed, s') \<Rightarrow> (Inr existed, s')))"

record ReplicateChunkRequest =
  rp_ChunkId :: string
  rp_SourceAddress :: string
  rp_SizeBytes :: int
  rp_ChecksumSha256 :: string

text \<open>
  \<^verbatim>\<open>ReplicateChunk\<close> pulls from a peer: \<open>source\<close> gives, for an address and a request, the stream of the
  peer's \<^verbatim>\<open>ReadChunk\<close>, or nothing if it cannot be opened.
\<close>

definition ReplicateChunk ::
  "(syscall \<Rightarrow> bool) \<Rightarrow> nat option \<Rightarrow> (string \<Rightarrow> ReadChunkRequest \<Rightarrow> bytes recv list option) \<Rightarrow> ReplicateChunkRequest
     \<Rightarrow> node_state \<Rightarrow> (code + int \<times> bool) \<times> node_state"
where
  "ReplicateChunk flt full source req s =
     (if ValidateChunkID (rp_ChunkId req) \<noteq> None then (Inl InvalidArgument, s)
      else if rp_SourceAddress req = [] then (Inl InvalidArgument, s)
      else with_request (\<lambda>s.
        (case source (rp_SourceAddress req) \<lparr>rc_ChunkId = rp_ChunkId req, rc_ExpectedChecksumSha256 = rp_ChecksumSha256 req\<rparr> of
           None \<Rightarrow> (Inl Unavailable, s)
         | Some stream \<Rightarrow>
             (case node_write flt (rp_ChunkId req) (limit_source full (io_copy Some ([], stream))) (rp_SizeBytes req) (rp_ChecksumSha256 req) s of
                (Inl e, s') \<Rightarrow> (Inl (write_code e), s')
              | (Inr res, s') \<Rightarrow> (Inr (wr_BytesWritten res, wr_AlreadyExisted res), s')))) s)"

definition CheckChunk :: "(syscall \<Rightarrow> bool) \<Rightarrow> string \<Rightarrow> bool \<Rightarrow> node_state \<Rightarrow> code + CheckResult" where
  "CheckChunk flt chunkId verify s =
     (if ValidateChunkID chunkId \<noteq> None then Inl InvalidArgument
      else (case ChunkStore_Check flt (fst s) (snd s) chunkId verify of
          (res, Some e) \<Rightarrow> Inl Internal
        | (res, None) \<Rightarrow> Inr res))"

record NodeStats =
  ns_TotalBytes :: int
  ns_UsedBytes :: int
  ns_AvailableBytes :: int
  ns_ChunkCount :: int
  ns_ActiveRequests :: int

definition Service_Stats :: "int option \<Rightarrow> (int \<times> int) option \<Rightarrow> node_state \<Rightarrow> NodeStats option" where
  "Service_Stats diskAvailable diskUsage s =
     (case Stats diskAvailable diskUsage (fst s) of
        ((capacity, used, available, chunks, active), True) \<Rightarrow>
          Some \<lparr>ns_TotalBytes = capacity, ns_UsedBytes = used, ns_AvailableBytes = available, ns_ChunkCount = chunks, ns_ActiveRequests = active\<rparr>
      | (_, False) \<Rightarrow> None)"

definition GetNodeStats :: "string \<Rightarrow> int option \<Rightarrow> (int \<times> int) option \<Rightarrow> node_state \<Rightarrow> code + string \<times> NodeStats" where
  "GetNodeStats nodeID diskAvailable diskUsage s =
     (case Service_Stats diskAvailable diskUsage s of None \<Rightarrow> Inl Internal | Some st \<Rightarrow> Inr (nodeID, st))"

text \<open>
  \<^verbatim>\<open>ListChunks\<close>. The callback's state is the list of the batches sent so far; the context is asked, and
  the connection may break, before each batch. Once cancelled, a context stays so.
\<close>

definition list_batch :: "(nat \<Rightarrow> code option) \<Rightarrow> (nat \<Rightarrow> bool) \<Rightarrow> InventoryEntry list \<Rightarrow> InventoryEntry list list \<Rightarrow> unit option \<times> InventoryEntry list list" where
  "list_batch ctx send_fails b out =
     (if ctx (length out) \<noteq> None \<or> send_fails (length out) then (Some (), out) else (None, out @ [b]))"

definition ListChunks ::
  "(path \<Rightarrow> stat_result) \<Rightarrow> (path \<Rightarrow> time) \<Rightarrow> (nat \<Rightarrow> code option) \<Rightarrow> (nat \<Rightarrow> bool) \<Rightarrow> int \<Rightarrow> node_state
     \<Rightarrow> (InventoryEntry list list \<times> code option) \<times> node_state"
where
  "ListChunks stat mtime ctx send_fails batchSize = with_request (\<lambda>s.
     (let n = (if batchSize \<le> 0 \<or> batchSize > 10000 then 1000 else batchSize)
      in case WalkInventory stat mtime (fst s) (snd s) n (list_batch ctx send_fails) [] of
           (None, out) \<Rightarrow> ((out, None), s)
         | (Some e, out) \<Rightarrow> ((out, Some (case ctx (length out) of Some c \<Rightarrow> c | None \<Rightarrow> Internal)), s)))"

section \<open>What the streams carry\<close>

fun stream_data :: "('m \<Rightarrow> bytes option) \<Rightarrow> 'm recv list \<Rightarrow> bytes \<times> bool" where
  "stream_data payload [] = ([], False)"
| "stream_data payload (RecvErr c # es) = ([], True)"
| "stream_data payload (Msg m # es) =
     (case payload m of None \<Rightarrow> ([], True) | Some d \<Rightarrow> (d @ fst (stream_data payload es), snd (stream_data payload es)))"

lemma stream_read_spec:
  "stream_read payload n r = (res, r') \<Longrightarrow>
   (case res of
      ReadData d \<Rightarrow> fst r @ fst (stream_data payload (snd r)) = d @ fst r' @ fst (stream_data payload (snd r'))
        \<and> snd (stream_data payload (snd r)) = snd (stream_data payload (snd r'))
    | ReadEOF \<Rightarrow> fst r = [] \<and> stream_data payload (snd r) = ([], False)
    | ReadErr \<Rightarrow> fst r @ fst (stream_data payload (snd r)) = [] \<and> snd (stream_data payload (snd r)))"
proof (induction payload n r arbitrary: res r' rule: stream_read.induct)
  case (4 payload n m es)
  show ?case
  proof (cases "payload m")
    case (Some d)
    then have "stream_read payload n (d, es) = (res, r')" using "4.prems" by simp
    from "4.IH" [OF Some this] show ?thesis using Some by (cases res) simp_all
  qed (use "4.prems" in auto)
qed (auto split: read_result.split)

lemma io_copy_spec:
  "concat (fst (io_copy payload r)) = fst r @ fst (stream_data payload (snd r)) \<and> snd (io_copy payload r) = snd (stream_data payload (snd r))"
proof (induction "length (fst r) + payload_size payload (snd r)" arbitrary: r rule: less_induct)
  case less
  obtain res r' where s: "stream_read payload copy_buffer r = (res, r')" by (cases "stream_read payload copy_buffer r")
  show ?case
  proof (cases res)
    case (ReadData d)
    have IH: "concat (fst (io_copy payload r')) = fst r' @ fst (stream_data payload (snd r'))"
      "snd (io_copy payload r') = snd (stream_data payload (snd r'))"
      using less.hyps [OF stream_read_decreases [OF s [unfolded ReadData]]] by (simp_all add: copy_buffer_def)
    have "io_copy payload r = (d # fst (io_copy payload r'), snd (io_copy payload r'))"
      using s ReadData by (subst io_copy.simps) (simp add: case_prod_beta)
    then show ?thesis using stream_read_spec [OF s] ReadData IH by simp
  next
    case ReadEOF
    then have "io_copy payload r = ([], False)" using s by (subst io_copy.simps) simp
    then show ?thesis using stream_read_spec [OF s] ReadEOF by simp
  next
    case ReadErr
    then have "io_copy payload r = ([], True)" using s by (subst io_copy.simps) simp
    then show ?thesis using stream_read_spec [OF s] ReadErr by simp
  qed
qed

lemma stream_data_msgs: "stream_data Some (map Msg ps) = (concat ps, False)"
  "stream_data store_payload (map (\<lambda>d. Msg (Data d)) ps) = (concat ps, False)"
  by (induction ps) simp_all

lemma limit_source_whole: "\<not> snd (limit_source full src) \<Longrightarrow> limit_source full src = src"
  by (auto simp: limit_source_def split: option.splits if_splits)

lemma read_loop_result:
  "read_loop env k rest (digest_write New pre) sent out = (frames, res) \<Longrightarrow>
   \<exists>fs tl. frames = out @ fs \<and> rest = concat fs @ tl
     \<and> (\<forall>h sent'. res = Inr (h, sent') \<longrightarrow> tl = [] \<and> h = digest_write New (pre @ rest) \<and> sent' = sent + int (length rest))"
proof (induction "length rest" arbitrary: k rest pre sent out rule: less_induct)
  case less
  show ?case
  proof (cases "re_ctx env k = None \<and> \<not> re_read_fails env k \<and> rest \<noteq> [] \<and> \<not> re_send_fails env k")
    case True
    let ?fr = "take streamFrameSize rest" and ?rest = "drop streamFrameSize rest"
    have "read_loop env (k + 1) ?rest (digest_write New (pre @ ?fr)) (sent + int (length ?fr)) (out @ [?fr]) = (frames, res)"
      using less.prems True by (subst (asm) read_loop.simps) (simp add: Let_def digest_write_append)
    moreover have "length ?rest < length rest" using True by (simp add: streamFrameSize_def)
    ultimately obtain fs tl where f: "frames = (out @ [?fr]) @ fs" "?rest = concat fs @ tl"
      and r: "\<forall>h sent'. res = Inr (h, sent') \<longrightarrow> tl = [] \<and> h = digest_write New ((pre @ ?fr) @ ?rest)
        \<and> sent' = sent + int (length ?fr) + int (length ?rest)" using less.hyps by blast
    have "rest = concat (?fr # fs) @ tl" using f(2) append_take_drop_id [of streamFrameSize rest] by simp
    moreover have e: "sent + int (length ?fr) + int (length ?rest) = sent + int (length rest)" by simp
    ultimately show ?thesis using f(1) r unfolding e by (intro exI [of _ "?fr # fs"] exI [of _ tl]) simp
  next
    case False
    then show ?thesis
      using less.prems by (subst (asm) read_loop.simps) (auto split: option.splits if_splits)
  qed
qed

lemma read_loop_calm:
  assumes "\<forall>k. re_ctx env k = None \<and> \<not> re_read_fails env k \<and> \<not> re_send_fails env k"
  shows "\<exists>frames h sent'. read_loop env k rest h0 sent out = (frames, Inr (h, sent'))"
proof (induction "length rest" arbitrary: k rest h0 sent out rule: less_induct)
  case less
  show ?case
  proof (cases "rest = []")
    case False
    then have "length (drop streamFrameSize rest) < length rest" by (simp add: streamFrameSize_def)
    from less [OF this] show ?thesis using assms False by (subst read_loop.simps) (simp add: Let_def)
  qed (use assms in \<open>subst read_loop.simps, simp\<close>)
qed

section \<open>The service on a node\<close>

lemma node_view_requests [simp]:
  "node_view (BeginRequest cs, f) = node_view (cs, f)" "node_view (EndRequest cs, f) = node_view (cs, f)"
  "node_ok (BeginRequest cs, f) = node_ok (cs, f)" "node_ok (EndRequest cs, f) = node_ok (cs, f)"
  by (simp_all add: fun_eq_iff node_view_def chunk_path_def BeginRequest_def EndRequest_def node_ok_def)

lemma with_requestE:
  assumes "with_request h s = (r, s')"
  obtains cs' f' where "h (BeginRequest (fst s), snd s) = (r, cs', f')" "node_view s' = node_view (cs', f')" "node_ok s' \<longleftrightarrow> node_ok (cs', f')"
  using assms by (auto simp: with_request_def split: prod.splits)

lemma begun: "node_view (BeginRequest (fst s), snd s) = node_view s" "node_ok (BeginRequest (fst s), snd s) = node_ok s"
  by simp_all

lemma StoreChunk_ok:
  assumes "StoreChunk flt full stream s = (Inr resp, s')" and "node_ok s"
  obtains h es where "stream = Msg (Header h) # es" "sc_ChunkId resp = hd_ChunkId h" "valid_id (hd_ChunkId h)" "node_ok s'"
    "\<exists>d. node_view s' = (node_view s)(hd_ChunkId h \<mapsto> d) \<and> sc_ChecksumSha256 resp = Sum d \<and> sc_BytesWritten resp = int (length d)
       \<and> (hd_ChecksumSha256 h \<noteq> [] \<longrightarrow> Sum d = hd_ChecksumSha256 h)
       \<and> (if sc_AlreadyExisted resp then node_view s (hd_ChunkId h) = Some d
          else stream_data store_payload es = (d, False) \<and> (0 \<le> hd_SizeBytes h \<longrightarrow> int (length d) = hd_SizeBytes h))"
proof -
  let ?s = "(BeginRequest (fst s), snd s)"
  from with_requestE [OF assms(1) [unfolded StoreChunk_def]] obtain cs' f' where
    w: "(case stream of [] \<Rightarrow> (Inl InvalidArgument, ?s) | RecvErr c # es \<Rightarrow> (Inl Internal, ?s) | Msg (Data d) # es \<Rightarrow> (Inl InvalidArgument, ?s)
      | Msg (Header h) # es \<Rightarrow>
          if ValidateChunkID (hd_ChunkId h) \<noteq> None then (Inl InvalidArgument, ?s)
          else if hd_ChecksumSha256 h \<noteq> [] \<and> \<not> Valid (hd_ChecksumSha256 h) then (Inl InvalidArgument, ?s)
          else (case node_write flt (hd_ChunkId h) (limit_source full (io_copy store_payload ([], es)))
                       (hd_SizeBytes h) (hd_ChecksumSha256 h) ?s of
                  (Inl e, s') \<Rightarrow> (Inl (write_code e), s')
                | (Inr res, s') \<Rightarrow>
                    (Inr \<lparr>sc_ChunkId = hd_ChunkId h, sc_BytesWritten = wr_BytesWritten res,
                          sc_ChecksumSha256 = wr_Checksum res, sc_AlreadyExisted = wr_AlreadyExisted res\<rparr>, s'))) = (Inr resp, cs', f')"
    and s': "node_view s' = node_view (cs', f')" "node_ok s' \<longleftrightarrow> node_ok (cs', f')" .
  then obtain h es where st: "stream = Msg (Header h) # es" and v: "ValidateChunkID (hd_ChunkId h) = None"
    by (auto split: list.splits recv.splits StoreChunkRequest.splits if_splits)
  let ?src = "limit_source full (io_copy store_payload ([], es))"
  obtain r where nw: "node_write flt (hd_ChunkId h) ?src (hd_SizeBytes h) (hd_ChecksumSha256 h) ?s = (Inr r, cs', f')"
    and resp: "resp = \<lparr>sc_ChunkId = hd_ChunkId h, sc_BytesWritten = wr_BytesWritten r,
      sc_ChecksumSha256 = wr_Checksum r, sc_AlreadyExisted = wr_AlreadyExisted r\<rparr>"
    using w v by (auto simp: st split: if_splits prod.splits sum.splits)
  have ok: "node_ok ?s" using assms(2) by simp
  from chunk_files.put_stored [OF ok nw] obtain d where d: "node_view (cs', f') = (node_view s)(hd_ChunkId h \<mapsto> d)" "wr_Checksum r = Sum d"
    "wr_BytesWritten r = int (length d)" "hd_ChecksumSha256 h \<noteq> [] \<longrightarrow> Sum d = hd_ChecksumSha256 h"
    "if wr_AlreadyExisted r then node_view s (hd_ChunkId h) = Some d else d = concat (fst ?src) \<and> accepted ?src (hd_SizeBytes h) (hd_ChecksumSha256 h)"
    unfolding begun by blast
  have src: "stream_data store_payload es = (d, False) \<and> (0 \<le> hd_SizeBytes h \<longrightarrow> int (length d) = hd_SizeBytes h)" if "\<not> wr_AlreadyExisted r"
    using d(5) that limit_source_whole [of full "io_copy store_payload ([], es)"] io_copy_spec [of store_payload "([], es)"]
    by (auto simp: accepted_def prod_eq_iff)
  have "node_ok s'" using chunk_files.put_inv [OF ok, of flt "hd_ChunkId h" ?src "hd_SizeBytes h" "hd_ChecksumSha256 h"] nw s'(2) by simp
  then show thesis
    by (intro that [OF st]) (use d src s'(1) resp v in \<open>auto simp: valid_id_def\<close>)
qed

lemma ReadChunk_ok:
  assumes "ReadChunk flt env req s = ((frames, None), s')" and "node_ok s"
  shows "node_view s (rc_ChunkId req) = Some (concat frames)"
    and "rc_ExpectedChecksumSha256 req \<noteq> [] \<longrightarrow> Sum (concat frames) = rc_ExpectedChecksumSha256 req"
    and "node_view s' = node_view s"
proof -
  let ?s = "(BeginRequest (fst s), snd s)"
  from with_requestE [OF assms(1) [unfolded ReadChunk_def]] obtain cs' f' where
    w: "(if ValidateChunkID (rc_ChunkId req) \<noteq> None then (([], Some InvalidArgument), ?s)
      else (case node_read flt (rc_ChunkId req) ?s of
          Inl ErrNotFound \<Rightarrow> (([], Some NotFound), ?s)
        | Inl e \<Rightarrow> (([], Some Internal), ?s)
        | Inr (d, n) \<Rightarrow>
            (case read_loop env 0 d New 0 [] of
               (frames, Inl c) \<Rightarrow> ((frames, Some c), ?s)
             | (frames, Inr (h, sent)) \<Rightarrow>
                 if rc_ExpectedChecksumSha256 req \<noteq> [] \<and> Verify (rc_ChunkId req) (rc_ExpectedChecksumSha256 req) (Hex h) \<noteq> None
                 then ((frames, Some FailedPrecondition), ?s)
                 else if sent \<noteq> n then ((frames, Some Internal), ?s)
                 else ((frames, None), ?s)))) = ((frames, None), cs', f')"
    and s': "node_view s' = node_view (cs', f')" .
  then obtain d n where r: "node_read flt (rc_ChunkId req) ?s = Inr (d, n)"
    by (auto split: if_splits sum.splits store_error.splits)
  obtain fr res where l: "read_loop env 0 d New 0 [] = (fr, res)" by (cases "read_loop env 0 d New 0 []")
  with w r obtain h sent where res: "res = Inr (h, sent)" "fr = frames" and c: "(cs', f') = ?s"
    and v: "rc_ExpectedChecksumSha256 req \<noteq> [] \<longrightarrow> Verify (rc_ChunkId req) (rc_ExpectedChecksumSha256 req) (Hex h) = None"
    by (auto split: if_splits sum.splits)
  from read_loop_result [of env 0 d "[]" 0 "[]" fr res] l res have h: "concat frames = d" "h = digest_write New d"
    by (auto simp: digest_write_New_Nil)
  show "node_view s (rc_ChunkId req) = Some (concat frames)" using chunk_files.read_found [of ?s flt _ d n] r assms(2) h(1) by simp
  show "rc_ExpectedChecksumSha256 req \<noteq> [] \<longrightarrow> Sum (concat frames) = rc_ExpectedChecksumSha256 req"
    using v by (auto simp: h Hex_digest Verify_def Equal_iff split: if_splits)
  show "node_view s' = node_view s" unfolding s' c by simp
qed

definition no_faults :: "syscall \<Rightarrow> bool" where
  "no_faults c = False"

definition calm_env :: read_env where
  "calm_env = \<lparr>re_ctx = (\<lambda>k. None), re_read_fails = (\<lambda>k. False), re_send_fails = (\<lambda>k. False)\<rparr>"

lemma chunk_path_begun [simp]: "chunk_path (BeginRequest cs) i = chunk_path cs i"
  by (simp add: chunk_path_def BeginRequest_def)

lemma ReadChunk_calm:
  assumes "node_view s i = Some d" and "ex = [] \<or> Sum d = ex"
  shows "\<exists>frames s'. ReadChunk no_faults calm_env \<lparr>rc_ChunkId = i, rc_ExpectedChecksumSha256 = ex\<rparr> s = ((frames, None), s') \<and> concat frames = d"
proof -
  let ?s = "(BeginRequest (fst s), snd s)"
  have v: "valid_id i" using assms(1) by (auto simp: node_view_def split: if_splits)
  have "node_view ?s i = Some d" using assms(1) by simp
  then have r: "node_read no_faults i ?s = Inr (d, int (length d))"
    using v by (simp add: node_view_def node_read_def ChunkStore_Open_def PathFor_eq no_faults_def)
  obtain frames h sent where l: "read_loop calm_env 0 d New 0 [] = (frames, Inr (h, sent))"
    using read_loop_calm [of calm_env 0 d New 0 "[]"] by (auto simp: calm_env_def)
  from read_loop_result [of calm_env 0 d "[]" 0 "[]" frames "Inr (h, sent)"] l
  have h: "concat frames = d" "h = digest_write New d" "sent = int (length d)" by (auto simp: digest_write_New_Nil)
  have ver: "\<not> (ex \<noteq> [] \<and> Verify i ex (Hex h) \<noteq> None)" using assms(2) by (auto simp: h Hex_digest Verify_def Equal_iff)
  have "\<exists>s'. ReadChunk no_faults calm_env \<lparr>rc_ChunkId = i, rc_ExpectedChecksumSha256 = ex\<rparr> s = ((frames, None), s')"
    using v r l ver h(3) by (auto simp: ReadChunk_def with_request_def valid_id_def)
  with h(1) show ?thesis by blast
qed

text \<open>
  C12 (store and read back). Once a node that did not hold the chunk has acknowledged it, the bytes of
  the messages have the declared size and digest, a read of it delivers exactly these bytes, and
  so does every later read that ends without an error; other chunks are not affected.
\<close>

theorem store_read_roundtrip:
  assumes ok: "node_ok s" and new: "node_view s (hd_ChunkId h) = None"
    and st: "StoreChunk flt full (Msg (Header h) # es) s = (Inr resp, s')"
    and req: "req = \<lparr>rc_ChunkId = hd_ChunkId h, rc_ExpectedChecksumSha256 = hd_ChecksumSha256 h\<rparr>"
  shows "\<exists>d. stream_data store_payload es = (d, False) \<and> (0 \<le> hd_SizeBytes h \<longrightarrow> int (length d) = hd_SizeBytes h)
    \<and> (hd_ChecksumSha256 h \<noteq> [] \<longrightarrow> Sum d = hd_ChecksumSha256 h) \<and> node_view s' = (node_view s)(hd_ChunkId h \<mapsto> d)
    \<and> (\<exists>frames s''. ReadChunk no_faults calm_env req s' = ((frames, None), s'') \<and> concat frames = d)
    \<and> (\<forall>flt' env frames s''. ReadChunk flt' env req s' = ((frames, None), s'') \<longrightarrow> concat frames = d \<and> node_view s'' = node_view s')"
  using st ok
proof (cases rule: StoreChunk_ok)
  case (1 h' es')
  then obtain d where d: "node_view s' = (node_view s)(hd_ChunkId h \<mapsto> d)" "hd_ChecksumSha256 h \<noteq> [] \<longrightarrow> Sum d = hd_ChecksumSha256 h"
    "stream_data store_payload es = (d, False) \<and> (0 \<le> hd_SizeBytes h \<longrightarrow> int (length d) = hd_SizeBytes h)"
    using new by (auto split: if_splits)
  have v: "node_view s' (hd_ChunkId h) = Some d" using d(1) by simp
  show ?thesis
  proof (intro exI [of _ d] conjI allI impI)
    show "\<exists>frames s''. ReadChunk no_faults calm_env req s' = ((frames, None), s'') \<and> concat frames = d"
      unfolding req by (rule ReadChunk_calm [OF v]) (use d(2) in blast)
    fix flt' env frames s''
    assume "ReadChunk flt' env req s' = ((frames, None), s'')"
    from ReadChunk_ok [OF this 1(4)] v show "concat frames = d" "node_view s'' = node_view s'" by (simp_all add: req)
  qed (use d in simp_all)
qed

text \<open>Without faults a new chunk is stored.\<close>

lemma Sum_Valid: "Valid (Sum d)" "Sum d \<noteq> []"
proof -
  have "length (digest_sum (digest_write New d)) = 32" by (rule digest_sum_length)
  then show "Valid (Sum d)" unfolding Sum_def Sum256_def by (intro hex_encode_Valid)
  then show "Sum d \<noteq> []" by (auto simp: Valid_def)
qed

lemma node_write_succeeds:
  assumes "valid_id i" and "node_view s i = None" and "file_at (snd s) (temp_path (fst s) i (cs_tempSeq (fst s) + 1)) = None"
    and "accepted src n ex"
  shows "\<exists>r s'. node_write no_faults i src n ex s = (Inr r, s') \<and> \<not> wr_AlreadyExisted r"
proof -
  have ex: "ex = [] \<or> (Valid ex \<and> Sum (concat (fst src)) = ex)" using assms(4) Sum_Valid(1) [of "concat (fst src)"] by (auto simp: accepted_def)
  have "file_at (snd s) (chunk_path (fst s) i) = None" using assms(1,2) by (simp add: node_view_def)
  with assms ex show ?thesis
    by (cases src) (auto simp: node_write_def ChunkStore_Write_def PathFor_eq write_new_def Let_def no_faults_def accepted_def
        Hex_digest Verify_def Equal_iff)
qed

lemma StoreChunk_succeeds:
  assumes "valid_id (hd_ChunkId h)" and "node_view s (hd_ChunkId h) = None"
    and "file_at (snd s) (temp_path (fst s) (hd_ChunkId h) (cs_tempSeq (fst s) + 1)) = None"
    and "stream_data store_payload es = (d, False)" and "hd_SizeBytes h = int (length d)" and "hd_ChecksumSha256 h = Sum d"
  shows "\<exists>resp s'. StoreChunk no_faults None (Msg (Header h) # es) s = (Inr resp, s')"
proof -
  let ?s = "(BeginRequest (fst s), snd s)" and ?src = "io_copy store_payload ([], es)"
  have acc: "accepted ?src (hd_SizeBytes h) (hd_ChecksumSha256 h)"
    using io_copy_spec [of store_payload "([], es)"] assms(4-6) by (simp add: accepted_def)
  have t: "temp_path (BeginRequest cs) i n = temp_path cs i n" "cs_tempSeq (BeginRequest cs) = cs_tempSeq cs" for cs i n
    by (simp_all add: temp_path_def BeginRequest_def)
  obtain r s' where "node_write no_faults (hd_ChunkId h) ?src (hd_SizeBytes h) (hd_ChecksumSha256 h) ?s = (Inr r, s')"
    using node_write_succeeds [OF assms(1) _ _ acc, of ?s] assms(2,3) by (auto simp: t)
  with assms(1,6) Sum_Valid show ?thesis
    by (cases s') (auto simp: StoreChunk_def with_request_def valid_id_def limit_source_def)
qed

definition ex_header :: ChunkHeader where
  "ex_header = \<lparr>hd_ChunkId = ex_id, hd_SizeBytes = 3, hd_ChecksumSha256 = Sum [1, 2, 3]\<rparr>"

lemma ex_node: "node_view (ex_cs, ex_fs) i = None" "file_at ex_fs p = None"
  by (simp_all add: node_view_def file_at_def ex_fs_ok(4))

lemma store_read_roundtrip_witness:
  "\<exists>resp s'. StoreChunk no_faults None [Msg (Header ex_header), Msg (Data [1, 2]), Msg (Data [3])] (ex_cs, ex_fs) = (Inr resp, s')
     \<and> (\<exists>frames s''. ReadChunk no_faults calm_env \<lparr>rc_ChunkId = ex_id, rc_ExpectedChecksumSha256 = Sum [1, 2, 3]\<rparr> s' = ((frames, None), s'')
          \<and> concat frames = [1, 2, 3])"
proof -
  have "\<exists>resp s'. StoreChunk no_faults None (Msg (Header ex_header) # [Msg (Data [1, 2]), Msg (Data [3])]) (ex_cs, ex_fs) = (Inr resp, s')"
    by (rule StoreChunk_succeeds [where d = "[1, 2, 3]"]) (simp_all add: ex_node ex_header_def ex_valid)
  then obtain resp s' where st: "StoreChunk no_faults None (Msg (Header ex_header) # [Msg (Data [1, 2]), Msg (Data [3])]) (ex_cs, ex_fs) = (Inr resp, s')"
    by blast
  from store_read_roundtrip [OF ex_fs_ok(3) ex_node(1) st refl] st show ?thesis by (auto simp: ex_header_def)
qed

end
