(* ===== verification/Coordinator.thy ===== *)
theory Coordinator
  imports Metadata_Current Cache Placement Storage_Service
begin

text \<open>
  \<^verbatim>\<open>internal/coordinator\<close>: the handlers of the control plane (\<^verbatim>\<open>service.go\<close>, \<^verbatim>\<open>multipart.go\<close>,
  \<^verbatim>\<open>durability_rpc.go\<close>) and the cached view of objects (\<^verbatim>\<open>cacheview.go\<close>). A handler maps a request and the state of
  the coordinator to a status code or a response and the new state. The state is the database, the
  health monitor and the cache. The implementation of the cache, the placement strategy and the
  textual form of UUIDs (a library) are arguments, as are the readings of the clocks (\<open>clock i\<close>)
  and the identifier a handler may generate. Metrics and logs are left out.
\<close>

section \<open>Messages\<close>

datatype proto_health = NODE_HEALTH_UNSPECIFIED | NODE_HEALTH_HEALTHY | NODE_HEALTH_SUSPECT | NODE_HEALTH_DEAD

datatype proto_object_state =
    OBJECT_STATE_UNSPECIFIED | OBJECT_STATE_UPLOADING | OBJECT_STATE_COMPLETE | OBJECT_STATE_DELETING | OBJECT_STATE_FAILED

datatype proto_replica_state =
    REPLICA_STATE_UNSPECIFIED | REPLICA_STATE_WRITING | REPLICA_STATE_AVAILABLE | REPLICA_STATE_UNAVAILABLE | REPLICA_STATE_DELETING

datatype proto_repair_state =
    REPAIR_JOB_STATE_UNSPECIFIED | REPAIR_JOB_STATE_PENDING | REPAIR_JOB_STATE_RUNNING | REPAIR_JOB_STATE_SUCCEEDED | REPAIR_JOB_STATE_FAILED

record ProtoNode =
  pn_NodeId :: string
  pn_GrpcAddress :: string
  pn_Health :: proto_health
  pn_Stats :: "Storage_Service.NodeStats option"
  pn_RegisteredAt :: "time option"
  pn_LastHeartbeatAt :: "time option"

record ObjectInfo =
  oi_ObjectId :: string
  oi_Bucket :: string
  oi_Key :: string
  oi_Version :: int
  oi_State :: proto_object_state
  oi_SizeBytes :: int
  oi_ChunkSize :: int
  oi_ChunkCount :: int
  oi_Etag :: string
  oi_ContentType :: string
  oi_CreatedAt :: "time option"
  oi_CompletedAt :: "time option"

record PlacementMsg =
  pm_ChunkId :: string
  pm_ChunkIndex :: int
  pm_SizeBytes :: int
  pm_ChecksumSha256 :: string
  pm_Nodes :: "ProtoNode list"

record GetObjectResponse =
  gr_Object :: ObjectInfo
  gr_Chunks :: "PlacementMsg list"

fun toProtoHealth :: "state \<Rightarrow> proto_health" where
  "toProtoHealth StateHealthy = NODE_HEALTH_HEALTHY"
| "toProtoHealth StateSuspect = NODE_HEALTH_SUSPECT"
| "toProtoHealth StateDead = NODE_HEALTH_DEAD"
| "toProtoHealth StateUnknown = NODE_HEALTH_UNSPECIFIED"

fun toProtoObjectState :: "object_state \<Rightarrow> proto_object_state" where
  "toProtoObjectState ObjectUploading = OBJECT_STATE_UPLOADING"
| "toProtoObjectState ObjectComplete = OBJECT_STATE_COMPLETE"
| "toProtoObjectState ObjectDeleting = OBJECT_STATE_DELETING"
| "toProtoObjectState ObjectFailed = OBJECT_STATE_FAILED"

fun toProtoReplicaState :: "replica_state \<Rightarrow> proto_replica_state" where
  "toProtoReplicaState ReplicaWriting = REPLICA_STATE_WRITING"
| "toProtoReplicaState ReplicaAvailable = REPLICA_STATE_AVAILABLE"
| "toProtoReplicaState ReplicaUnavailable = REPLICA_STATE_UNAVAILABLE"
| "toProtoReplicaState ReplicaDeleting = REPLICA_STATE_DELETING"
| "toProtoReplicaState _ = REPLICA_STATE_UNSPECIFIED"

fun toProtoRepairState :: "job_state \<Rightarrow> proto_repair_state" where
  "toProtoRepairState JobPending = REPAIR_JOB_STATE_PENDING"
| "toProtoRepairState JobRunning = REPAIR_JOB_STATE_RUNNING"
| "toProtoRepairState JobSucceeded = REPAIR_JOB_STATE_SUCCEEDED"
| "toProtoRepairState JobFailed = REPAIR_JOB_STATE_FAILED"

fun toPlacementHealth :: "state \<Rightarrow> node_health" where
  "toPlacementHealth StateHealthy = HealthHealthy"
| "toPlacementHealth StateSuspect = HealthSuspect"
| "toPlacementHealth StateDead = HealthDead"
| "toPlacementHealth StateUnknown = HealthUnknown"

fun toStatus :: "db_error \<Rightarrow> code" where
  "toStatus db_error.ErrNotFound = NotFound"
| "toStatus ErrConflict = FailedPrecondition"
| "toStatus ErrDurabilityNotMet = ResourceExhausted"
| "toStatus _ = Internal"

text \<open>\<^verbatim>\<open>timestamppb.New\<close> under the guard \<^verbatim>\<open>IsZero\<close>.\<close>

definition nonzero_time :: "time \<Rightarrow> time option" where
  "nonzero_time t = (if t = 0 then None else Some t)"

definition toStoreStats :: "Storage_Service.NodeStats option \<Rightarrow> Metadata_Nodes.NodeStats" where
  "toStoreStats s = (case s of
       None \<Rightarrow> \<lparr>st_TotalBytes = 0, st_UsedBytes = 0, st_AvailableBytes = 0, st_ChunkCount = 0, st_ActiveRequests = 0\<rparr>
     | Some s \<Rightarrow> \<lparr>st_TotalBytes = ns_TotalBytes s, st_UsedBytes = ns_UsedBytes s, st_AvailableBytes = ns_AvailableBytes s,
         st_ChunkCount = ns_ChunkCount s, st_ActiveRequests = ns_ActiveRequests s\<rparr>)"

definition toProtoNode :: "Node \<Rightarrow> ProtoNode" where
  "toProtoNode n = \<lparr>pn_NodeId = Node_ID n, pn_GrpcAddress = Node_Address n, pn_Health = toProtoHealth (Node_Health n),
     pn_Stats = Some \<lparr>ns_TotalBytes = Node_TotalBytes n, ns_UsedBytes = Node_UsedBytes n, ns_AvailableBytes = Node_AvailableBytes n,
        ns_ChunkCount = Node_ChunkCount n, ns_ActiveRequests = Node_ActiveRequests n\<rparr>,
     pn_RegisteredAt = Some (Node_RegisteredAt n), pn_LastHeartbeatAt = nonzero_time (Node_LastHeartbeatAt n)\<rparr>"

definition toProtoObject :: "(uuid \<Rightarrow> string) \<Rightarrow> Object \<Rightarrow> ObjectInfo" where
  "toProtoObject str ob = \<lparr>oi_ObjectId = str (Obj_ID ob), oi_Bucket = Obj_Bucket ob, oi_Key = Obj_Key ob, oi_Version = Obj_Version ob,
     oi_State = toProtoObjectState (Obj_State ob), oi_SizeBytes = Obj_SizeBytes ob, oi_ChunkSize = Obj_ChunkSize ob,
     oi_ChunkCount = Obj_ChunkCount ob, oi_Etag = Obj_ETag ob, oi_ContentType = Obj_ContentType ob,
     oi_CreatedAt = Some (Obj_CreatedAt ob), oi_CompletedAt = nonzero_time (Obj_CompletedAt ob)\<rparr>"

section \<open>The cached view of objects\<close>

record cachedTarget =
  ct_NodeID :: string
  ct_Address :: string

record cachedChunk =
  cc_ID :: string
  cc_Index :: int
  cc_Size :: int
  cc_Checksum :: string
  cc_Nodes :: "cachedTarget list"

record cachedObject =
  co_ObjectID :: string
  co_Bucket :: string
  co_Key :: string
  co_Version :: int
  co_SizeBytes :: int
  co_ChunkSize :: int
  co_ChunkCount :: int
  co_ETag :: string
  co_ContentType :: string
  co_CreatedAt :: int
  co_CompletedAt :: int
  co_Chunks :: "cachedChunk list"

text \<open>
  Times are nanoseconds since the zero time of Go, the first of January of year 1; \<^verbatim>\<open>UnixNano\<close>
  counts in 64 bits from 1970.
\<close>

definition unix_epoch :: time where
  "unix_epoch = 62135596800 * 10 ^ 9"

definition UnixNano :: "time \<Rightarrow> int" where
  "UnixNano t = wrap64 (t - unix_epoch)"

definition newCachedObject :: "GetObjectResponse \<Rightarrow> cachedObject" where
  "newCachedObject resp = (let ob = gr_Object resp in
     \<lparr>co_ObjectID = oi_ObjectId ob, co_Bucket = oi_Bucket ob, co_Key = oi_Key ob, co_Version = oi_Version ob,
      co_SizeBytes = oi_SizeBytes ob, co_ChunkSize = oi_ChunkSize ob, co_ChunkCount = oi_ChunkCount ob, co_ETag = oi_Etag ob,
      co_ContentType = oi_ContentType ob,
      co_CreatedAt = (case oi_CreatedAt ob of None \<Rightarrow> 0 | Some t \<Rightarrow> UnixNano t),
      co_CompletedAt = (case oi_CompletedAt ob of None \<Rightarrow> 0 | Some t \<Rightarrow> UnixNano t),
      co_Chunks = map (\<lambda>ch. \<lparr>cc_ID = pm_ChunkId ch, cc_Index = pm_ChunkIndex ch, cc_Size = pm_SizeBytes ch, cc_Checksum = pm_ChecksumSha256 ch,
        cc_Nodes = map (\<lambda>n. \<lparr>ct_NodeID = pn_NodeId n, ct_Address = pn_GrpcAddress n\<rparr>) (pm_Nodes ch)\<rparr>) (gr_Chunks resp)\<rparr>)"

definition node_candidate :: "string \<Rightarrow> string \<Rightarrow> proto_health \<Rightarrow> ProtoNode" where
  "node_candidate i addr h = \<lparr>pn_NodeId = i, pn_GrpcAddress = addr, pn_Health = h, pn_Stats = None, pn_RegisteredAt = None, pn_LastHeartbeatAt = None\<rparr>"

definition cached_toProto :: "cachedObject \<Rightarrow> GetObjectResponse" where
  "cached_toProto c = \<lparr>
     gr_Object = \<lparr>oi_ObjectId = co_ObjectID c, oi_Bucket = co_Bucket c, oi_Key = co_Key c, oi_Version = co_Version c,
       oi_State = OBJECT_STATE_COMPLETE, oi_SizeBytes = co_SizeBytes c, oi_ChunkSize = co_ChunkSize c, oi_ChunkCount = co_ChunkCount c,
       oi_Etag = co_ETag c, oi_ContentType = co_ContentType c,
       oi_CreatedAt = (if co_CreatedAt c \<noteq> 0 then Some (unix_epoch + co_CreatedAt c) else None),
       oi_CompletedAt = (if co_CompletedAt c \<noteq> 0 then Some (unix_epoch + co_CompletedAt c) else None)\<rparr>,
     gr_Chunks = map (\<lambda>ch. \<lparr>pm_ChunkId = cc_ID ch, pm_ChunkIndex = cc_Index ch, pm_SizeBytes = cc_Size ch, pm_ChecksumSha256 = cc_Checksum ch,
       pm_Nodes = map (\<lambda>n. node_candidate (ct_NodeID n) (ct_Address n) NODE_HEALTH_UNSPECIFIED) (cc_Nodes ch)\<rparr>) (co_Chunks c)\<rparr>"

record cachedUpload =
  cu_Bucket :: string
  cu_Key :: string
  cu_ChunkSize :: int
  cu_ContentType :: string

datatype cache_value = CObject cachedObject | CNodes "NodeInfo list" | CUpload cachedUpload

definition is_CObject :: "cache_value \<Rightarrow> bool" where
  "is_CObject v = (case v of CObject _ \<Rightarrow> True | _ \<Rightarrow> False)"

definition is_CNodes :: "cache_value \<Rightarrow> bool" where
  "is_CNodes v = (case v of CNodes _ \<Rightarrow> True | _ \<Rightarrow> False)"

definition is_CUpload :: "cache_value \<Rightarrow> bool" where
  "is_CUpload v = (case v of CUpload _ \<Rightarrow> True | _ \<Rightarrow> False)"

section \<open>The service\<close>

record coordinator_config =
  cf_ReplicationFactor :: int
  cf_MinWriteReplicas :: int
  cf_ChunkSize :: int
  cf_HeartbeatInterval :: duration
  cf_UploadStaleAfter :: duration
  cf_NodeCallTimeout :: duration
  cf_NodeCacheTTL :: duration
  cf_ObjectCacheTTL :: duration

record RepairConfig =
  rcf_Enabled :: bool
  rcf_Workers :: int
  rcf_ScanInterval :: duration
  rcf_ScanBatch :: int
  rcf_MaxPerNode :: int
  rcf_JobTimeout :: duration
  rcf_LeaseDuration :: duration
  rcf_MaxAttempts :: int
  rcf_BaseBackoff :: duration
  rcf_MaxBackoff :: duration
  rcf_ReplicationFactor :: int
  rcf_HistoryRetention :: duration

text \<open>What does not change during a call; \<open>sv_repair\<close> is the configuration of the repair manager, if one is set.\<close>

record 'c service =
  sv_cfg :: coordinator_config
  sv_cache :: "(cache_value, 'c) cache"
  sv_SelectNodes :: "NodeInfo list \<Rightarrow> Request \<Rightarrow> placement_error + NodeInfo list"
  sv_String :: "uuid \<Rightarrow> string"
  sv_Parse :: "string \<Rightarrow> uuid option"
  sv_repair :: "RepairConfig option"

record 'c coord =
  cn_db :: db
  cn_monitor :: monitor
  cn_cache :: 'c

definition Milliseconds :: "duration \<Rightarrow> int" where
  "Milliseconds d = sgn d * (\<bar>d\<bar> div 1000000)"

definition invalidateNodeCache :: "'c service \<Rightarrow> 'c coord \<Rightarrow> 'c coord" where
  "invalidateNodeCache s st = st\<lparr>cn_cache := snd (ca_Delete (sv_cache s) [NodesKey] (cn_cache st))\<rparr>"

definition invalidateObject :: "'c service \<Rightarrow> string \<Rightarrow> string \<Rightarrow> 'c coord \<Rightarrow> 'c coord" where
  "invalidateObject s bucket key st = st\<lparr>cn_cache := snd (ca_Delete (sv_cache s) [ObjectKey bucket key] (cn_cache st))\<rparr>"

definition invalidateUpload :: "'c service \<Rightarrow> string \<Rightarrow> 'c coord \<Rightarrow> 'c coord" where
  "invalidateUpload s uploadID st = st\<lparr>cn_cache := snd (ca_Delete (sv_cache s) [MultipartKey uploadID] (cn_cache st))\<rparr>"

definition invalidateChunkOwnerCache :: "'c service \<Rightarrow> uuid \<Rightarrow> 'c coord \<Rightarrow> 'c coord" where
  "invalidateChunkOwnerCache s chunkID st =
     (case ObjectKeyForChunk chunkID (cn_db st) of
        Inl e \<Rightarrow> st
      | Inr (bucket, key) \<Rightarrow> invalidateObject s bucket key st)"

definition placement_node :: "Node \<Rightarrow> NodeInfo" where
  "placement_node n = \<lparr>ni_ID = Node_ID n, ni_Address = Node_Address n, ni_Health = toPlacementHealth (Node_Health n),
     ni_TotalBytes = Node_TotalBytes n, ni_UsedBytes = Node_UsedBytes n, ni_AvailableBytes = Node_AvailableBytes n,
     ni_ActiveRequests = Node_ActiveRequests n, ni_ChunkCount = Node_ChunkCount n\<rparr>"

definition healthyNodes :: "'c service \<Rightarrow> 'c coord \<Rightarrow> NodeInfo list \<times> 'c coord" where
  "healthyNodes s st =
     (case ca_Get (sv_cache s) is_CNodes NodesKey (cn_cache st) of
        (Hit (CNodes cached), c) \<Rightarrow> (cached, st\<lparr>cn_cache := c\<rparr>)
      | (_, c) \<Rightarrow>
          let out = map placement_node (ListNodes True (cn_db st))
          in (out, st\<lparr>cn_cache := snd (ca_Set (sv_cache s) NodesKey (CNodes out) (cf_NodeCacheTTL (sv_cfg s)) c)\<rparr>))"

text \<open>The handler of the repair manager for a node that is back; its errors are only logged.\<close>

definition OnNodeRecovered :: "RepairConfig \<Rightarrow> time \<Rightarrow> db \<Rightarrow> db" where
  "OnNodeRecovered cfg now db = (if \<not> rcf_Enabled cfg then db else snd (RequeueFailedRepairs (rcf_ScanBatch cfg) now db))"

definition onNodeRejoined :: "'c service \<Rightarrow> node_id \<Rightarrow> (nat \<Rightarrow> time) \<Rightarrow> 'c coord \<Rightarrow> 'c coord" where
  "onNodeRejoined s nodeID clock st =
     (let (n, db1) = MarkReplicasStaleOnNode nodeID (clock 0) (cn_db st)
      in (case EnqueueReconcile nodeID (clock 1) db1 of
            (Inl e, db2) \<Rightarrow> st\<lparr>cn_db := db2\<rparr>
          | (Inr enq, db2) \<Rightarrow>
              (case sv_repair s of
                 None \<Rightarrow> st\<lparr>cn_db := db2\<rparr>
               | Some cfg \<Rightarrow> st\<lparr>cn_db := OnNodeRecovered cfg (clock 2) db2\<rparr>)))"

definition onTransition :: "'c service \<Rightarrow> transition \<Rightarrow> (nat \<Rightarrow> time) \<Rightarrow> 'c coord \<Rightarrow> 'c coord" where
  "onTransition s t clock st =
     (let st1 = st\<lparr>cn_db := snd (SetNodeHealth (tr_NodeID t) (tr_To t) (clock 0) (cn_db st))\<rparr>;
          st2 = invalidateNodeCache s st1
      in if tr_To t = StateHealthy \<and> tr_From t \<in> {StateDead, StateSuspect}
         then onNodeRejoined s (tr_NodeID t) (\<lambda>i. clock (i + 1)) st2 else st2)"

definition validateBucketKey :: "string \<Rightarrow> string \<Rightarrow> code option" where
  "validateBucketKey bucket key =
     (if ValidateBucket bucket \<noteq> None then Some InvalidArgument
      else if ValidateKey key \<noteq> None then Some InvalidArgument
      else None)"

definition parseOwner :: "'c service \<Rightarrow> string \<Rightarrow> string \<Rightarrow> code + ChunkOwner" where
  "parseOwner s objectID partID =
     (if objectID \<noteq> [] \<and> partID \<noteq> [] then Inl InvalidArgument
      else if objectID \<noteq> [] then
        (case sv_Parse s objectID of None \<Rightarrow> Inl InvalidArgument | Some i \<Rightarrow> Inr \<lparr>ow_ObjectID = Some i, ow_PartID = None\<rparr>)
      else if partID \<noteq> [] then
        (case sv_Parse s partID of None \<Rightarrow> Inl InvalidArgument | Some i \<Rightarrow> Inr \<lparr>ow_ObjectID = None, ow_PartID = Some i\<rparr>)
      else Inl InvalidArgument)"

section \<open>Nodes\<close>

record RegisterNodeRequest =
  rn_NodeId :: string
  rn_GrpcAddress :: string
  rn_Stats :: "Storage_Service.NodeStats option"

definition Service_RegisterNode :: "'c service \<Rightarrow> RegisterNodeRequest \<Rightarrow> (nat \<Rightarrow> time) \<Rightarrow> 'c coord \<Rightarrow> (code + int) \<times> 'c coord" where
  "Service_RegisterNode s req clock st =
     (if rn_NodeId req = [] \<or> rn_GrpcAddress req = [] then (Inl InvalidArgument, st)
      else let now = clock 0 in
        (case UpsertNode (rn_NodeId req) (rn_GrpcAddress req) StateHealthy (toStoreStats (rn_Stats req)) now (clock 1) (cn_db st) of
           (Inl e, db1) \<Rightarrow> (Inl Internal, st\<lparr>cn_db := db1\<rparr>)
         | (Inr _, db1) \<Rightarrow>
             let prev = State (cn_monitor st) (rn_NodeId req);
                 mon = snd (Observe (cn_monitor st) (rn_NodeId req) (rn_GrpcAddress req) now (clock 2) (clock 3) (clock 4));
                 st1 = invalidateNodeCache s (st\<lparr>cn_db := db1, cn_monitor := mon\<rparr>);
                 st2 = (if prev \<in> {StateDead, StateSuspect, StateUnknown}
                        then onNodeRejoined s (rn_NodeId req) (\<lambda>i. clock (i + 5)) st1 else st1)
             in (Inr (Milliseconds (cf_HeartbeatInterval (sv_cfg s))), st2)))"

text \<open>A heartbeat carries the same fields as a registration. Its answer: the interval and whether the node must register again.\<close>

definition Service_Heartbeat :: "'c service \<Rightarrow> RegisterNodeRequest \<Rightarrow> (nat \<Rightarrow> time) \<Rightarrow> 'c coord \<Rightarrow> (code + int \<times> bool) \<times> 'c coord" where
  "Service_Heartbeat s req clock st =
     (if rn_NodeId req = [] then (Inl InvalidArgument, st)
      else let now = clock 0; prev = State (cn_monitor st) (rn_NodeId req) in
        (case RecordHeartbeat (rn_NodeId req) (rn_GrpcAddress req) (toStoreStats (rn_Stats req)) StateHealthy now (clock 1) (cn_db st) of
           (Inl e, db1) \<Rightarrow>
             (if e = db_error.ErrNotFound then Inr (Milliseconds (cf_HeartbeatInterval (sv_cfg s)), True) else Inl Internal,
              st\<lparr>cn_db := db1\<rparr>)
         | (Inr _, db1) \<Rightarrow>
             let (t, mon) = Observe (cn_monitor st) (rn_NodeId req) (rn_GrpcAddress req) now (clock 2) (clock 3) (clock 4);
                 st1 = st\<lparr>cn_db := db1, cn_monitor := mon\<rparr>;
                 st2 = (case t of None \<Rightarrow> st1 | Some t \<Rightarrow> onTransition s t (\<lambda>i. clock (i + 5)) st1);
                 st3 = (if prev \<noteq> StateHealthy then invalidateNodeCache s st2 else st2)
             in (Inr (Milliseconds (cf_HeartbeatInterval (sv_cfg s)), False), st3)))"

definition Service_ListNodes :: "bool \<Rightarrow> 'c coord \<Rightarrow> code + ProtoNode list" where
  "Service_ListNodes healthyOnly st = Inr (map toProtoNode (ListNodes healthyOnly (cn_db st)))"

section \<open>Uploads\<close>

record BeginUploadRequest =
  bu_Bucket :: string
  bu_Key :: string
  bu_ContentType :: string
  bu_ChunkSize :: int

record BeginUploadResponse =
  br_ObjectId :: string
  br_ChunkSize :: int
  br_ReplicationFactor :: int
  br_MinWriteReplicas :: int

definition chunk_size_or_default :: "'c service \<Rightarrow> int \<Rightarrow> int" where
  "chunk_size_or_default s n = (if n \<le> 0 then cf_ChunkSize (sv_cfg s) else n)"

definition content_type_or_default :: "string \<Rightarrow> string" where
  "content_type_or_default ct = (if ct = [] then ''application/octet-stream'' else ct)"

definition Service_BeginUpload :: "'c service \<Rightarrow> BeginUploadRequest \<Rightarrow> uuid \<Rightarrow> (nat \<Rightarrow> time) \<Rightarrow> 'c coord \<Rightarrow> (code + BeginUploadResponse) \<times> 'c coord" where
  "Service_BeginUpload s req newID clock st =
     (case validateBucketKey (bu_Bucket req) (bu_Key req) of
        Some c \<Rightarrow> (Inl c, st)
      | None \<Rightarrow>
          (case BeginUpload (bu_Bucket req) (bu_Key req) (content_type_or_default (bu_ContentType req))
                  (chunk_size_or_default s (bu_ChunkSize req)) newID (clock 0) (cn_db st) of
             (Inl e, db1) \<Rightarrow> (Inl (toStatus e), st\<lparr>cn_db := db1\<rparr>)
           | (Inr obj, db1) \<Rightarrow>
               (Inr \<lparr>br_ObjectId = sv_String s (Obj_ID obj), br_ChunkSize = Obj_ChunkSize obj,
                     br_ReplicationFactor = wrap32 (cf_ReplicationFactor (sv_cfg s)), br_MinWriteReplicas = wrap32 (cf_MinWriteReplicas (sv_cfg s))\<rparr>,
                st\<lparr>cn_db := db1\<rparr>)))"

record AllocateChunkRequest =
  ac_ObjectId :: string
  ac_PartId :: string
  ac_ChunkIndex :: int
  ac_SizeBytes :: int

record AllocateChunkResponse =
  al_ChunkId :: string
  al_Targets :: "ProtoNode list"
  al_MinWriteReplicas :: int

definition proto_target :: "NodeInfo \<Rightarrow> ProtoNode" where
  "proto_target t = \<lparr>pn_NodeId = ni_ID t, pn_GrpcAddress = ni_Address t, pn_Health = NODE_HEALTH_HEALTHY,
     pn_Stats = Some \<lparr>ns_TotalBytes = ni_TotalBytes t, ns_UsedBytes = ni_UsedBytes t, ns_AvailableBytes = ni_AvailableBytes t,
       ns_ChunkCount = ni_ChunkCount t, ns_ActiveRequests = ni_ActiveRequests t\<rparr>,
     pn_RegisteredAt = None, pn_LastHeartbeatAt = None\<rparr>"

definition placement_code :: "placement_error \<Rightarrow> code" where
  "placement_code e = (case e of ErrInsufficientNodes \<Rightarrow> ResourceExhausted | _ \<Rightarrow> InvalidArgument)"

definition Service_AllocateChunk :: "'c service \<Rightarrow> AllocateChunkRequest \<Rightarrow> uuid \<Rightarrow> (nat \<Rightarrow> time) \<Rightarrow> 'c coord \<Rightarrow> (code + AllocateChunkResponse) \<times> 'c coord" where
  "Service_AllocateChunk s req newID clock st =
     (case parseOwner s (ac_ObjectId req) (ac_PartId req) of
        Inl c \<Rightarrow> (Inl c, st)
      | Inr owner \<Rightarrow>
          if ac_ChunkIndex req < 0 then (Inl InvalidArgument, st)
          else let (nodes, st1) = healthyNodes s st in
            (case ReserveChunk owner (ac_ChunkIndex req) (ac_SizeBytes req) newID (clock 0) (cn_db st1) of
               (Inl e, db1) \<Rightarrow> (Inl (toStatus e), st1\<lparr>cn_db := db1\<rparr>)
             | (Inr chunkID, db1) \<Rightarrow>
                 (case sv_SelectNodes s nodes \<lparr>rq_Key = sv_String s chunkID, rq_Replicas = cf_ReplicationFactor (sv_cfg s),
                         rq_ChunkSize = ac_SizeBytes req, rq_Exclude = []\<rparr> of
                    Inl e \<Rightarrow> (Inl (placement_code e), st1\<lparr>cn_db := db1\<rparr>)
                  | Inr targets \<Rightarrow>
                      (case RecordChunkTargets chunkID (map ni_ID targets) (clock 1) db1 of
                         (Inl e, db2) \<Rightarrow> (Inl (toStatus e), st1\<lparr>cn_db := db2\<rparr>)
                       | (Inr _, db2) \<Rightarrow>
                           (Inr \<lparr>al_ChunkId = sv_String s chunkID, al_Targets = map proto_target targets,
                                 al_MinWriteReplicas = wrap32 (cf_MinWriteReplicas (sv_cfg s))\<rparr>,
                            st1\<lparr>cn_db := db2\<rparr>)))))"

record CommitChunkRequest =
  cm_ChunkId :: string
  cm_ChecksumSha256 :: string
  cm_SizeBytes :: int
  cm_SucceededNodeIds :: "string list"
  cm_FailedNodeIds :: "string list"

definition Service_CommitChunk :: "'c service \<Rightarrow> CommitChunkRequest \<Rightarrow> (nat \<Rightarrow> time) \<Rightarrow> 'c coord \<Rightarrow> (code + int) \<times> 'c coord" where
  "Service_CommitChunk s req clock st =
     (case sv_Parse s (cm_ChunkId req) of
        None \<Rightarrow> (Inl InvalidArgument, st)
      | Some chunkID \<Rightarrow>
          if \<not> Valid (cm_ChecksumSha256 req) then (Inl InvalidArgument, st)
          else
            (case CommitChunk chunkID (cm_ChecksumSha256 req) (cm_SizeBytes req) (cm_SucceededNodeIds req) (cm_FailedNodeIds req)
                    (cf_MinWriteReplicas (sv_cfg s)) (clock 0) (cn_db st) of
               ((available, Some e), db1) \<Rightarrow> (Inl (toStatus e), st\<lparr>cn_db := db1\<rparr>)
             | ((available, None), db1) \<Rightarrow> (Inr (wrap32 available), st\<lparr>cn_db := db1\<rparr>)))"

record CompleteUploadRequest =
  cq_ObjectId :: string
  cq_SizeBytes :: int
  cq_ChunkCount :: int
  cq_Etag :: string

text \<open>Missing chunks are a failed precondition here, not exhausted resources.\<close>

definition complete_code :: "db_error \<Rightarrow> code" where
  "complete_code e = (if e = ErrDurabilityNotMet then FailedPrecondition else toStatus e)"

definition Service_CompleteUpload :: "'c service \<Rightarrow> CompleteUploadRequest \<Rightarrow> (nat \<Rightarrow> time) \<Rightarrow> 'c coord \<Rightarrow> (code + string \<times> string \<times> time) \<times> 'c coord" where
  "Service_CompleteUpload s req clock st =
     (case sv_Parse s (cq_ObjectId req) of
        None \<Rightarrow> (Inl InvalidArgument, st)
      | Some objectID \<Rightarrow>
          (case CompleteUpload objectID (cq_SizeBytes req) (cq_ChunkCount req) (cq_Etag req) (clock 0) (cn_db st) of
             (Inl e, db1) \<Rightarrow> (Inl (complete_code e), st\<lparr>cn_db := db1\<rparr>)
           | (Inr obj, db1) \<Rightarrow>
               (Inr (sv_String s (Obj_ID obj), Obj_ETag obj, Obj_CompletedAt obj),
                invalidateObject s (Obj_Bucket obj) (Obj_Key obj) (st\<lparr>cn_db := db1\<rparr>))))"

definition Service_AbortUpload :: "'c service \<Rightarrow> string \<Rightarrow> string \<Rightarrow> (nat \<Rightarrow> time) \<Rightarrow> 'c coord \<Rightarrow> (code + unit) \<times> 'c coord" where
  "Service_AbortUpload s objectId reason clock st =
     (case sv_Parse s objectId of
        None \<Rightarrow> (Inl InvalidArgument, st)
      | Some objectID \<Rightarrow>
          (case AbortUpload objectID reason (clock 0) (cn_db st) of
             (Inl e, db1) \<Rightarrow> (Inl (toStatus e), st\<lparr>cn_db := db1\<rparr>)
           | (Inr _, db1) \<Rightarrow> (Inr (), st\<lparr>cn_db := db1\<rparr>)))"

section \<open>Reading\<close>

definition health_of :: "state option \<Rightarrow> proto_health" where
  "health_of h = toProtoHealth (case h of None \<Rightarrow> StateUnknown | Some s \<Rightarrow> s)"

definition placement_msg :: "(uuid \<Rightarrow> string) \<Rightarrow> ChunkWithReplicas \<Rightarrow> PlacementMsg" where
  "placement_msg str c = \<lparr>pm_ChunkId = str (Chunk_ID (cw_Chunk c)), pm_ChunkIndex = Chunk_Index (cw_Chunk c),
     pm_SizeBytes = Chunk_SizeBytes (cw_Chunk c), pm_ChecksumSha256 = Chunk_Checksum (cw_Chunk c),
     pm_Nodes = map (\<lambda>r. node_candidate (Rep_NodeID r) (Rep_Address r) (health_of (Rep_NodeHealth r))) (cw_Replicas c)\<rparr>"

definition fresh_response :: "(uuid \<Rightarrow> string) \<Rightarrow> Object \<Rightarrow> ChunkWithReplicas list \<Rightarrow> GetObjectResponse" where
  "fresh_response str obj cs = \<lparr>gr_Object = toProtoObject str obj, gr_Chunks = map (placement_msg str) cs\<rparr>"

definition Service_GetObject :: "'c service \<Rightarrow> string \<Rightarrow> string \<Rightarrow> 'c coord \<Rightarrow> (code + GetObjectResponse) \<times> 'c coord" where
  "Service_GetObject s bucket k st =
     (case validateBucketKey bucket k of
        Some c \<Rightarrow> (Inl c, st)
      | None \<Rightarrow>
          let key = ObjectKey bucket k in
          (case ca_Get (sv_cache s) is_CObject key (cn_cache st) of
             (Hit (CObject cached), c) \<Rightarrow> (Inr (cached_toProto cached), st\<lparr>cn_cache := c\<rparr>)
           | (_, c) \<Rightarrow>
               (case GetObject bucket k (cn_db st) of
                  Inl e \<Rightarrow> (Inl (toStatus e), st\<lparr>cn_cache := c\<rparr>)
                | Inr (obj, cs) \<Rightarrow>
                    let resp = fresh_response (sv_String s) obj cs
                    in (Inr resp, st\<lparr>cn_cache := snd (ca_Set (sv_cache s) key (CObject (newCachedObject resp)) (cf_ObjectCacheTTL (sv_cfg s)) c)\<rparr>))))"

definition Service_HeadObject :: "'c service \<Rightarrow> string \<Rightarrow> string \<Rightarrow> 'c coord \<Rightarrow> code + ObjectInfo" where
  "Service_HeadObject s bucket key st =
     (case validateBucketKey bucket key of
        Some c \<Rightarrow> Inl c
      | None \<Rightarrow> (case HeadObject bucket key (cn_db st) of Inl e \<Rightarrow> Inl (toStatus e) | Inr obj \<Rightarrow> Inr (toProtoObject (sv_String s) obj)))"

definition Service_DeleteObject :: "'c service \<Rightarrow> string \<Rightarrow> string \<Rightarrow> (nat \<Rightarrow> time) \<Rightarrow> 'c coord \<Rightarrow> (code + bool \<times> string) \<times> 'c coord" where
  "Service_DeleteObject s bucket key clock st =
     (case validateBucketKey bucket key of
        Some c \<Rightarrow> (Inl c, st)
      | None \<Rightarrow>
          (case DeleteObject bucket key (clock 0) (cn_db st) of
             (Inl e, db1) \<Rightarrow> (Inl (toStatus e), st\<lparr>cn_db := db1\<rparr>)
           | (Inr (i, existed), db1) \<Rightarrow>
               (Inr (existed, if existed then sv_String s i else []), invalidateObject s bucket key (st\<lparr>cn_db := db1\<rparr>))))"

record ListObjectsRequest =
  lo_Bucket :: string
  lo_Prefix :: string
  lo_StartAfter :: string
  lo_Limit :: int

definition Service_ListObjects :: "'c service \<Rightarrow> ListObjectsRequest \<Rightarrow> 'c coord \<Rightarrow> code + ObjectInfo list \<times> bool" where
  "Service_ListObjects s req st =
     (if lo_Bucket req = [] then Inl InvalidArgument
      else let (objs, truncated) = ListObjects (lo_Bucket req) (lo_Prefix req) (lo_StartAfter req) (lo_Limit req) (cn_db st)
           in Inr (map (toProtoObject (sv_String s)) objs, truncated))"

section \<open>The cluster\<close>

record ClusterStatus =
  gs_Nodes :: "ProtoNode list"
  gs_TotalObjects :: int
  gs_TotalChunks :: int
  gs_UnderReplicatedChunks :: int
  gs_UnavailableChunks :: int
  gs_ReplicationFactor :: int
  gs_RepairJobsPending :: int
  gs_RepairJobsRunning :: int

text \<open>Reading a missing key of a map of counts gives zero.\<close>

definition count_of :: "int option \<Rightarrow> int" where
  "count_of n = (case n of None \<Rightarrow> 0 | Some k \<Rightarrow> k)"

definition Service_GetClusterStatus :: "'c service \<Rightarrow> 'c coord \<Rightarrow> code + ClusterStatus" where
  "Service_GetClusterStatus s st =
     (let stats = cluster_stats (cf_ReplicationFactor (sv_cfg s)) (cn_db st)
      in Inr \<lparr>gs_Nodes = map toProtoNode (ListNodes False (cn_db st)),
           gs_TotalObjects = wrap64 (sum_list (map (\<lambda>o_st. count_of (cs_ObjectsByState stats o_st)) [ObjectUploading, ObjectComplete, ObjectDeleting, ObjectFailed])),
           gs_TotalChunks = cs_TotalChunks stats, gs_UnderReplicatedChunks = cs_UnderReplicatedChunks stats,
           gs_UnavailableChunks = cs_UnavailableChunks stats, gs_ReplicationFactor = wrap32 (cf_ReplicationFactor (sv_cfg s)),
           gs_RepairJobsPending = count_of (cs_RepairJobsByState stats JobPending),
           gs_RepairJobsRunning = count_of (cs_RepairJobsByState stats JobRunning)\<rparr>)"

record ReplicaLocation =
  rl_NodeId :: string
  rl_GrpcAddress :: string
  rl_State :: proto_replica_state
  rl_NodeHealth :: proto_health

record ChunkLayout =
  cl_ChunkId :: string
  cl_ChunkIndex :: int
  cl_SizeBytes :: int
  cl_ChecksumSha256 :: string
  cl_Replicas :: "ReplicaLocation list"

definition chunk_layout :: "(uuid \<Rightarrow> string) \<Rightarrow> ChunkWithReplicas \<Rightarrow> ChunkLayout" where
  "chunk_layout str c = \<lparr>cl_ChunkId = str (Chunk_ID (cw_Chunk c)), cl_ChunkIndex = Chunk_Index (cw_Chunk c),
     cl_SizeBytes = Chunk_SizeBytes (cw_Chunk c), cl_ChecksumSha256 = Chunk_Checksum (cw_Chunk c),
     cl_Replicas = map (\<lambda>r. \<lparr>rl_NodeId = Rep_NodeID r, rl_GrpcAddress = Rep_Address r, rl_State = toProtoReplicaState (Rep_State r),
        rl_NodeHealth = health_of (Rep_NodeHealth r)\<rparr>) (cw_Replicas c)\<rparr>"

definition Service_GetObjectLayout :: "'c service \<Rightarrow> string \<Rightarrow> string \<Rightarrow> 'c coord \<Rightarrow> code + ObjectInfo \<times> ChunkLayout list" where
  "Service_GetObjectLayout s bucket key st =
     (case validateBucketKey bucket key of
        Some c \<Rightarrow> Inl c
      | None \<Rightarrow>
          (case HeadObject bucket key (cn_db st) of
             Inl e \<Rightarrow> Inl (toStatus e)
           | Inr obj \<Rightarrow> Inr (toProtoObject (sv_String s) obj, map (chunk_layout (sv_String s)) (ChunksForObject (Obj_ID obj) False (cn_db st)))))"

section \<open>Durability\<close>

text \<open>The answer to a corruption report: the replicas left and whether a repair was scheduled.\<close>

definition Service_ReportCorruptReplica :: "'c service \<Rightarrow> string \<Rightarrow> string \<Rightarrow> string \<Rightarrow> (nat \<Rightarrow> time) \<Rightarrow> 'c coord \<Rightarrow> (code + int \<times> bool) \<times> 'c coord" where
  "Service_ReportCorruptReplica s chunkId nodeId detail clock st =
     (case sv_Parse s chunkId of
        None \<Rightarrow> (Inl InvalidArgument, st)
      | Some chunkID \<Rightarrow>
          if nodeId = [] then (Inl InvalidArgument, st)
          else
            (case MarkReplicaCorrupt chunkID nodeId detail (clock 0) (cn_db st) of
               (Inl e, db1) \<Rightarrow> (Inl (toStatus e), st\<lparr>cn_db := db1\<rparr>)
             | (Inr remaining, db1) \<Rightarrow>
                 let (scheduled, db2) =
                       (case sv_repair s of
                          None \<Rightarrow> (False, db1)
                        | Some rm \<Rightarrow>
                            if rcf_Enabled rm \<and> remaining > 0
                            then (let (n, db2) = EnqueueRepairs (cf_ReplicationFactor (sv_cfg s)) 1 (clock 1) db1 in (n > 0, db2))
                            else (False, db1))
                 in (Inr (wrap32 remaining, scheduled), invalidateChunkOwnerCache s chunkID (st\<lparr>cn_db := db2\<rparr>))))"

record RepairJobInfo =
  ri_Id :: int
  ri_ChunkId :: string
  ri_State :: proto_repair_state
  ri_SourceNodeId :: string
  ri_TargetNodeId :: string
  ri_Attempts :: int
  ri_LastError :: string
  ri_CreatedAt :: time
  ri_UpdatedAt :: time

record ReplicationStatus =
  rs_ReplicationFactor :: int
  rs_TotalChunks :: int
  rs_UnderReplicatedChunks :: int
  rs_UnavailableChunks :: int
  rs_JobsPending :: int
  rs_JobsRunning :: int
  rs_JobsFailed :: int
  rs_JobsSucceededTotal :: int
  rs_RecentJobs :: "RepairJobInfo list"
  rs_RepairEnabled :: bool

definition Service_GetReplicationStatus :: "'c service \<Rightarrow> int \<Rightarrow> 'c coord \<Rightarrow> code + ReplicationStatus" where
  "Service_GetReplicationStatus s recentJobLimit st =
     (let (under, unavailable) = DurabilityCounts (cf_ReplicationFactor (sv_cfg s)) (cn_db st);
          counts = RepairCounts (cn_db st)
      in Inr \<lparr>rs_ReplicationFactor = wrap32 (cf_ReplicationFactor (sv_cfg s)), rs_TotalChunks = CommittedChunkCount (cn_db st),
           rs_UnderReplicatedChunks = under, rs_UnavailableChunks = unavailable,
           rs_JobsPending = count_of (counts JobPending), rs_JobsRunning = count_of (counts JobRunning),
           rs_JobsFailed = count_of (counts JobFailed), rs_JobsSucceededTotal = count_of (counts JobSucceeded),
           rs_RecentJobs = map (\<lambda>j. \<lparr>ri_Id = Job_ID j, ri_ChunkId = sv_String s (Job_ChunkID j), ri_State = toProtoRepairState (Job_State j),
              ri_SourceNodeId = Job_SourceNodeID j, ri_TargetNodeId = Job_TargetNodeID j, ri_Attempts = Job_Attempts j,
              ri_LastError = Job_LastError j, ri_CreatedAt = Job_CreatedAt j, ri_UpdatedAt = Job_UpdatedAt j\<rparr>)
              (RecentRepairJobs recentJobLimit (cn_db st)),
           rs_RepairEnabled = (case sv_repair s of None \<Rightarrow> False | Some rm \<Rightarrow> rcf_Enabled rm)\<rparr>)"

fun schedule_reconciles :: "node_id list \<Rightarrow> (nat \<Rightarrow> time) \<Rightarrow> db \<Rightarrow> (code + node_id list) \<times> db" where
  "schedule_reconciles [] clock db = (Inr [], db)"
| "schedule_reconciles (i # ids) clock db =
     (case EnqueueReconcile i (clock 0) db of
        (Inl e, db1) \<Rightarrow> (Inl Internal, db1)
      | (Inr enq, db1) \<Rightarrow>
          (case schedule_reconciles ids (\<lambda>k. clock (k + 1)) db1 of
             (Inl c, db2) \<Rightarrow> (Inl c, db2)
           | (Inr scheduled, db2) \<Rightarrow> (Inr (if enq then i # scheduled else scheduled), db2)))"

definition Service_TriggerReconcile :: "'c service \<Rightarrow> string \<Rightarrow> (nat \<Rightarrow> time) \<Rightarrow> 'c coord \<Rightarrow> (code + node_id list) \<times> 'c coord" where
  "Service_TriggerReconcile s nodeId clock st =
     (case (if nodeId \<noteq> [] then (case GetNode nodeId (cn_db st) of Inl e \<Rightarrow> Inl (toStatus e) | Inr n \<Rightarrow> Inr [nodeId])
            else Inr (map Node_ID (ListNodes True (cn_db st)))) of
        Inl c \<Rightarrow> (Inl c, st)
      | Inr targets \<Rightarrow>
          (case schedule_reconciles targets clock (cn_db st) of (r, db1) \<Rightarrow> (r, st\<lparr>cn_db := db1\<rparr>)))"

section \<open>Multipart uploads\<close>

definition cacheUpload :: "'c service \<Rightarrow> MultipartUpload \<Rightarrow> 'c coord \<Rightarrow> 'c coord" where
  "cacheUpload s mu st = st\<lparr>cn_cache := snd (ca_Set (sv_cache s) (MultipartKey (sv_String s (mu_ID mu)))
     (CUpload \<lparr>cu_Bucket = mu_Bucket mu, cu_Key = mu_Key mu, cu_ChunkSize = mu_ChunkSize mu, cu_ContentType = mu_ContentType mu\<rparr>)
     (3600 * 10 ^ 9) (cn_cache st))\<rparr>"

text \<open>Of the session header the callers use bucket, key and chunk size.\<close>

definition loadUpload :: "'c service \<Rightarrow> uuid \<Rightarrow> 'c coord \<Rightarrow> (db_error + cachedUpload) \<times> 'c coord" where
  "loadUpload s i st =
     (case ca_Get (sv_cache s) is_CUpload (MultipartKey (sv_String s i)) (cn_cache st) of
        (Hit (CUpload cu), c) \<Rightarrow> (Inr cu, st\<lparr>cn_cache := c\<rparr>)
      | (_, c) \<Rightarrow>
          let st1 = st\<lparr>cn_cache := c\<rparr> in
          (case GetMultipartUpload i (cn_db st1) of
             Inl e \<Rightarrow> (Inl e, st1)
           | Inr mu \<Rightarrow> (Inr \<lparr>cu_Bucket = mu_Bucket mu, cu_Key = mu_Key mu, cu_ChunkSize = mu_ChunkSize mu, cu_ContentType = mu_ContentType mu\<rparr>,
                        cacheUpload s mu st1)))"

text \<open>The request carries the same fields as that of a simple upload.\<close>

definition Service_CreateMultipartUpload :: "'c service \<Rightarrow> BeginUploadRequest \<Rightarrow> uuid \<Rightarrow> (nat \<Rightarrow> time) \<Rightarrow> 'c coord \<Rightarrow> (code + string \<times> int) \<times> 'c coord" where
  "Service_CreateMultipartUpload s req newID clock st =
     (case validateBucketKey (bu_Bucket req) (bu_Key req) of
        Some c \<Rightarrow> (Inl c, st)
      | None \<Rightarrow>
          (case CreateMultipartUpload (bu_Bucket req) (bu_Key req) (content_type_or_default (bu_ContentType req))
                  (chunk_size_or_default s (bu_ChunkSize req)) newID (clock 0) (cn_db st) of
             (Inl e, db1) \<Rightarrow> (Inl (toStatus e), st\<lparr>cn_db := db1\<rparr>)
           | (Inr mu, db1) \<Rightarrow> (Inr (sv_String s (mu_ID mu), mu_ChunkSize mu), cacheUpload s mu (st\<lparr>cn_db := db1\<rparr>))))"

definition Service_BeginPart :: "'c service \<Rightarrow> string \<Rightarrow> int \<Rightarrow> uuid \<Rightarrow> (nat \<Rightarrow> time) \<Rightarrow> 'c coord \<Rightarrow> (code + string \<times> int) \<times> 'c coord" where
  "Service_BeginPart s uploadId partNumber newID clock st =
     (case sv_Parse s uploadId of
        None \<Rightarrow> (Inl InvalidArgument, st)
      | Some uploadID \<Rightarrow>
          (case loadUpload s uploadID st of
             (Inl e, st1) \<Rightarrow> (Inl (toStatus e), st1)
           | (Inr mu, st1) \<Rightarrow>
               (case BeginPart uploadID partNumber newID (clock 0) (cn_db st1) of
                  (Inl e, db1) \<Rightarrow> (Inl (toStatus e), st1\<lparr>cn_db := db1\<rparr>)
                | (Inr part, db1) \<Rightarrow> (Inr (sv_String s (Part_ID part), cu_ChunkSize mu), st1\<lparr>cn_db := db1\<rparr>))))"

record CompletePartRequest =
  pt_PartId :: string
  pt_SizeBytes :: int
  pt_ChunkCount :: int
  pt_Etag :: string

definition Service_CompletePart :: "'c service \<Rightarrow> CompletePartRequest \<Rightarrow> (nat \<Rightarrow> time) \<Rightarrow> 'c coord \<Rightarrow> (code + string) \<times> 'c coord" where
  "Service_CompletePart s req clock st =
     (case sv_Parse s (pt_PartId req) of
        None \<Rightarrow> (Inl InvalidArgument, st)
      | Some partID \<Rightarrow>
          (case CompletePart partID (pt_SizeBytes req) (pt_ChunkCount req) (pt_Etag req) (clock 0) (cn_db st) of
             (Inl e, db1) \<Rightarrow> (Inl (complete_code e), st\<lparr>cn_db := db1\<rparr>)
           | (Inr _, db1) \<Rightarrow> (Inr (pt_Etag req), st\<lparr>cn_db := db1\<rparr>)))"

text \<open>The deferred release of the lock runs on every return after it was taken.\<close>

definition Service_CompleteMultipartUpload ::
  "'c service \<Rightarrow> string \<Rightarrow> CompletedPartRef list \<Rightarrow> uuid \<Rightarrow> string \<Rightarrow> (nat \<Rightarrow> time) \<Rightarrow> 'c coord \<Rightarrow> (code + string \<times> string \<times> int) \<times> 'c coord"
where
  "Service_CompleteMultipartUpload s uploadId expected newID token clock st =
     (case sv_Parse s uploadId of
        None \<Rightarrow> (Inl InvalidArgument, st)
      | Some uploadID \<Rightarrow>
          (case loadUpload s uploadID st of
             (Inl e, st1) \<Rightarrow> (Inl (toStatus e), st1)
           | (Inr mu, st1) \<Rightarrow>
               let lockKey = ''object:'' @ cu_Bucket mu @ ''/'' @ cu_Key mu;
                   (lock, c2) = ca_AcquireLock (sv_cache s) lockKey (cf_NodeCallTimeout (sv_cfg s)) token (cn_cache st1);
                   st2 = st1\<lparr>cn_cache := c2\<rparr>;
                   release = (\<lambda>st. case lock of LockHeld t \<Rightarrow> st\<lparr>cn_cache := ca_release (sv_cache s) lockKey t (cn_cache st)\<rparr> | _ \<Rightarrow> st)
               in if lock = LockBusy then (Inl Aborted, st2)
                  else
                    (case CompleteMultipartUpload uploadID expected newID (clock 0) (cn_db st2) of
                       (Inl e, db1) \<Rightarrow> (Inl (toStatus e), release (st2\<lparr>cn_db := db1\<rparr>))
                     | (Inr obj, db1) \<Rightarrow>
                         (Inr (sv_String s (Obj_ID obj), Obj_ETag obj, Obj_SizeBytes obj),
                          release (invalidateUpload s (sv_String s uploadID)
                            (invalidateObject s (Obj_Bucket obj) (Obj_Key obj) (st2\<lparr>cn_db := db1\<rparr>)))))))"

definition Service_AbortMultipartUpload :: "'c service \<Rightarrow> string \<Rightarrow> (nat \<Rightarrow> time) \<Rightarrow> 'c coord \<Rightarrow> (code + unit) \<times> 'c coord" where
  "Service_AbortMultipartUpload s uploadId clock st =
     (case sv_Parse s uploadId of
        None \<Rightarrow> (Inl InvalidArgument, st)
      | Some uploadID \<Rightarrow>
          (case AbortMultipartUpload uploadID (clock 0) (cn_db st) of
             (Inl e, db1) \<Rightarrow> (Inl (toStatus e), st\<lparr>cn_db := db1\<rparr>)
           | (Inr _, db1) \<Rightarrow> (Inr (), invalidateUpload s (sv_String s uploadID) (st\<lparr>cn_db := db1\<rparr>))))"

end
