(* ===== verification/Chunking.thy ===== *)
theory Chunking
  imports Flex_Prelude
begin

text \<open>
  \<^verbatim>\<open>internal/chunking/chunking.go\<close>: the Splitter that cuts an upload stream into chunks of
  a fixed size. The reader it wraps is the interface \<^verbatim>\<open>io.Reader\<close>, modelled by what
  \<^verbatim>\<open>io.ReadFull\<close> can observe of it: the bytes it still delivers and the error with which it
  ends. The state of a Splitter is the record \<open>splitter\<close>; \<open>Next\<close> is one call, and \<open>drain\<close> is
  the loop every caller runs, calling Next until it reports an error.
\<close>

section \<open>The reader\<close>

text \<open>
  The error a stream ends with: \<^verbatim>\<open>io.EOF\<close>, \<^verbatim>\<open>io.ErrUnexpectedEOF\<close> (what a reader reports
  for a body that was cut short) or any other error.
\<close>

datatype read_err = EOF | ErrUnexpectedEOF | OtherErr string

record reader =
  r_data :: bytes
  r_end :: read_err

text \<open>
  \<^verbatim>\<open>io.ReadFull(r, buf)\<close> with \<^verbatim>\<open>len(buf) = n\<close>: the bytes read, the error (if fewer than
  \<open>n\<close> bytes came: \<^verbatim>\<open>EOF\<close> after some bytes turns into \<^verbatim>\<open>ErrUnexpectedEOF\<close>, any other
  error is passed on), and the reader after the call.
\<close>

definition ReadFull :: "reader \<Rightarrow> nat \<Rightarrow> bytes \<times> read_err option \<times> reader" where
  "ReadFull r n =
     (if n \<le> length (r_data r)
      then (take n (r_data r), None, r\<lparr>r_data := drop n (r_data r)\<rparr>)
      else (r_data r,
            Some (if r_data r \<noteq> [] \<and> r_end r = EOF then ErrUnexpectedEOF else r_end r),
            r\<lparr>r_data := []\<rparr>))"

section \<open>The Splitter\<close>

record splitter =
  sp_r :: reader
  sp_chunkSize :: nat
  sp_maxTotal :: int
  sp_index :: int
  sp_totalRead :: int
  sp_done :: bool

record chunk =
  ch_index :: int
  ch_data :: bytes

datatype split_err =
    Split_EOF
  | ReadingChunk int read_err
  | ErrChunkTooLarge int int
  | BadChunkSize int

text \<open>\<^verbatim>\<open>NewSplitterBuffer\<close>: the chunk size is the length of the buffer it is given.\<close>

definition NewSplitterBuffer :: "reader \<Rightarrow> nat \<Rightarrow> int \<Rightarrow> split_err + splitter" where
  "NewSplitterBuffer r bufLen maxTotal =
     (if bufLen = 0 then Inl (BadChunkSize (int bufLen))
      else Inr \<lparr>sp_r = r, sp_chunkSize = bufLen, sp_maxTotal = maxTotal,
                sp_index = 0, sp_totalRead = 0, sp_done = False\<rparr>)"

definition NewSplitter :: "reader \<Rightarrow> int \<Rightarrow> int \<Rightarrow> split_err + splitter" where
  "NewSplitter r chunkSize maxTotal =
     (if chunkSize \<le> 0 then Inl (BadChunkSize chunkSize)
      else NewSplitterBuffer r (nat chunkSize) maxTotal)"

text \<open>
  The second half of \<^verbatim>\<open>Next\<close>, after the \<^verbatim>\<open>switch\<close> on the error of \<^verbatim>\<open>ReadFull\<close>: the size
  limit, the empty read, and the chunk.
\<close>

definition next_emit :: "splitter \<Rightarrow> bytes \<Rightarrow> (split_err + chunk) \<times> splitter" where
  "next_emit s dat =
     (let s1 = s\<lparr>sp_totalRead := wrap64 (sp_totalRead s + int (length dat))\<rparr> in
      if sp_maxTotal s1 > 0 \<and> sp_totalRead s1 > sp_maxTotal s1
      then (Inl (ErrChunkTooLarge (sp_totalRead s1) (sp_maxTotal s1)), s1\<lparr>sp_done := True\<rparr>)
      else if dat = [] then (Inl Split_EOF, s1)
      else (Inr \<lparr>ch_index = sp_index s1, ch_data = dat\<rparr>,
            s1\<lparr>sp_index := wrap64 (sp_index s1 + 1)\<rparr>))"

definition Next :: "splitter \<Rightarrow> (split_err + chunk) \<times> splitter" where
  "Next s =
     (if sp_done s then (Inl Split_EOF, s)
      else
        (case ReadFull (sp_r s) (sp_chunkSize s) of
           (dat, err, r') \<Rightarrow>
             (case err of
                None \<Rightarrow> next_emit (s\<lparr>sp_r := r'\<rparr>) dat
              | Some EOF \<Rightarrow> (Inl Split_EOF, s\<lparr>sp_r := r', sp_done := True\<rparr>)
              | Some ErrUnexpectedEOF \<Rightarrow> next_emit (s\<lparr>sp_r := r', sp_done := True\<rparr>) dat
              | Some (OtherErr e) \<Rightarrow>
                  (Inl (ReadingChunk (sp_index s) (OtherErr e)),
                   s\<lparr>sp_r := r', sp_done := True\<rparr>))))"

definition TotalRead :: "splitter \<Rightarrow> int" where
  "TotalRead s = sp_totalRead s"

definition Count :: "splitter \<Rightarrow> int" where
  "Count s = sp_index s"

text \<open>\<^verbatim>\<open>PlanChunks\<close>: both operands are positive, so Go's truncating division is \<open>div\<close>,
  unless the sum wraps to a negative value; there the quotient truncates towards zero.\<close>

definition PlanChunks :: "int \<Rightarrow> int \<Rightarrow> int" where
  "PlanChunks objectSize chunkSize =
     (if chunkSize \<le> 0 \<or> objectSize \<le> 0 then 0
      else let n = wrap64 (wrap64 (objectSize + chunkSize) - 1)
           in (if n \<ge> 0 then n div chunkSize else - ((- n) div chunkSize)))"

section \<open>Draining a Splitter\<close>

lemma Next_consumes:
  assumes "Next s = (Inr c, s')"
  shows "length (r_data (sp_r s')) < length (r_data (sp_r s))"
  using assms
  by (auto simp: Next_def ReadFull_def next_emit_def Let_def
        split: if_splits read_err.splits option.splits prod.splits)

text \<open>
  The loop of the callers: call Next until it fails, collecting the chunks. Every chunk
  consumes at least one byte of the stream, so the loop ends.
\<close>

function drain :: "splitter \<Rightarrow> chunk list \<times> split_err \<times> splitter" where
  "drain s =
     (case Next s of
        (Inl e, s') \<Rightarrow> ([], e, s')
      | (Inr c, s') \<Rightarrow> (case drain s' of (cs, e, s'') \<Rightarrow> (c # cs, e, s'')))"
  by pat_completeness auto
termination
  by (relation "measure (\<lambda>s. length (r_data (sp_r s)))") (auto dest: Next_consumes [OF sym])

declare drain.simps [simp del]

text \<open>What a splitter in mid-stream does, in terms of the bytes that are left.\<close>

definition splitting :: "splitter \<Rightarrow> bool" where
  "splitting s \<longleftrightarrow> \<not> sp_done s \<and> 0 < sp_chunkSize s \<and> 0 \<le> sp_index s \<and> 0 \<le> sp_totalRead s
     \<and> sp_totalRead s + int (length (r_data (sp_r s))) < 2 ^ 63
     \<and> sp_index s + int (length (r_data (sp_r s))) < 2 ^ 63"

definition within_limit :: "splitter \<Rightarrow> bool" where
  "within_limit s \<longleftrightarrow> sp_maxTotal s \<le> 0
     \<or> sp_totalRead s + int (length (r_data (sp_r s))) \<le> sp_maxTotal s"

lemma drain_done: "sp_done s \<Longrightarrow> drain s = ([], Split_EOF, s)"
  by (simp add: drain.simps [of s] Next_def)

lemma Next_fits:
  assumes "splitting s" "sp_chunkSize s \<le> length (r_data (sp_r s))"
    and "sp_maxTotal s \<le> 0 \<or> sp_totalRead s + int (sp_chunkSize s) \<le> sp_maxTotal s"
  defines "n \<equiv> sp_chunkSize s"
  defines "d \<equiv> r_data (sp_r s)"
  shows "Next s = (Inr \<lparr>ch_index = sp_index s, ch_data = take n d\<rparr>,
           s\<lparr>sp_r := (sp_r s)\<lparr>r_data := drop n d\<rparr>, sp_totalRead := sp_totalRead s + int n,
             sp_index := sp_index s + 1\<rparr>)"
proof -
  have "d \<noteq> []" "n \<le> length d" "0 < n"
    using assms by (auto simp: splitting_def)
  moreover have "int64 (sp_totalRead s + int n)" "int64 (sp_index s + 1)"
    using assms calculation by (auto simp: splitting_def int64_def)
  ultimately show ?thesis
    using assms by (auto simp: Next_def ReadFull_def next_emit_def splitting_def within_limit_def
          Let_def min_def)
qed

lemma Next_full:
  assumes "splitting s" "within_limit s" "sp_chunkSize s \<le> length (r_data (sp_r s))"
  defines "n \<equiv> sp_chunkSize s"
  defines "d \<equiv> r_data (sp_r s)"
  shows "Next s = (Inr \<lparr>ch_index = sp_index s, ch_data = take n d\<rparr>,
           s\<lparr>sp_r := (sp_r s)\<lparr>r_data := drop n d\<rparr>, sp_totalRead := sp_totalRead s + int n,
             sp_index := sp_index s + 1\<rparr>)"
  unfolding n_def d_def using assms by (intro Next_fits) (auto simp: within_limit_def)

lemma Next_short:
  assumes "splitting s" "within_limit s" "r_end (sp_r s) \<in> {EOF, ErrUnexpectedEOF}"
    and "length (r_data (sp_r s)) < sp_chunkSize s" "r_data (sp_r s) \<noteq> []"
  defines "d \<equiv> r_data (sp_r s)"
  shows "Next s = (Inr \<lparr>ch_index = sp_index s, ch_data = d\<rparr>,
           s\<lparr>sp_r := (sp_r s)\<lparr>r_data := []\<rparr>, sp_done := True,
             sp_totalRead := sp_totalRead s + int (length d), sp_index := sp_index s + 1\<rparr>)"
proof -
  have "0 < length d" using assms(5) unfolding d_def by (rule length_greater_0_conv [THEN iffD2])
  then have "1 \<le> int (length d)" by linarith
  then have "int64 (sp_totalRead s + int (length d))" "int64 (sp_index s + 1)"
    using assms(1) unfolding splitting_def int64_def d_def by linarith+
  then show ?thesis
    using assms
    by (auto simp: Next_def ReadFull_def next_emit_def splitting_def within_limit_def Let_def)
qed

subsection \<open>The chunks of a list\<close>

text \<open>The reference: cutting a list into pieces of \<open>n\<close> elements, the last one possibly shorter.\<close>

function chunks_of :: "nat \<Rightarrow> 'a list \<Rightarrow> 'a list list" where
  "chunks_of n xs = (if xs = [] \<or> n = 0 then [] else take n xs # chunks_of n (drop n xs))"
  by pat_completeness auto
termination
  by (relation "measure (\<lambda>(n, xs). length xs)") auto

declare chunks_of.simps [simp del]

lemma chunks_of_Nil [simp]: "chunks_of n [] = []"
  by (simp add: chunks_of.simps)

lemma concat_chunks_of: "0 < n \<Longrightarrow> concat (chunks_of n xs) = xs"
proof (induction n xs rule: chunks_of.induct)
  case (1 n xs)
  then show ?case by (cases "xs = []") (simp_all add: chunks_of.simps [of n xs])
qed

lemma chunks_of_bounds:
  "c \<in> set (chunks_of n xs) \<Longrightarrow> 0 < length c \<and> length c \<le> n"
proof (induction n xs rule: chunks_of.induct)
  case (1 n xs)
  then show ?case by (auto simp: chunks_of.simps [of n xs] split: if_splits)
qed

lemma chunks_of_butlast_full:
  "c \<in> set (butlast (chunks_of n xs)) \<Longrightarrow> length c = n"
proof (induction n xs rule: chunks_of.induct)
  case (1 n xs)
  then show ?case
    by (cases "drop n xs = []")
       (auto simp: chunks_of.simps [of n xs] chunks_of.simps [of n "drop n xs"] split: if_splits)
qed

lemma length_chunks_of: "0 < n \<Longrightarrow> length (chunks_of n xs) = (length xs + n - 1) div n"
proof (induction n xs rule: chunks_of.induct)
  case (1 n xs)
  show ?case
  proof (cases "length xs \<le> n")
    case True
    show ?thesis
    proof (cases xs)
      case (Cons y ys)
      have "(length xs + n - 1) div n = 1"
        using True Cons by (intro div_nat_eqI) auto
      with True Cons "1.prems" show ?thesis by (simp add: chunks_of.simps [of n "y # ys"])
    qed (use "1.prems" in simp)
  next
    case False
    have "length xs + n - 1 = (length xs - n + n - 1) + n" using False "1.prems" by simp
    then have "(length xs + n - 1) div n = Suc ((length xs - n + n - 1) div n)"
      using "1.prems" by (simp only: div_add_self2)
    moreover have "length (chunks_of n xs) = Suc (length (chunks_of n (drop n xs)))"
      using False "1.prems" by (auto simp: chunks_of.simps [of n xs])
    moreover have "xs \<noteq> []" using False by auto
    ultimately show ?thesis using "1.IH" "1.prems" False by auto
  qed
qed

definition number_chunks :: "int \<Rightarrow> bytes list \<Rightarrow> chunk list" where
  "number_chunks i0 ds =
     map (\<lambda>(i, d). \<lparr>ch_index = i0 + int i, ch_data = d\<rparr>) (zip [0..<length ds] ds)"

lemma number_chunks_Cons:
  "number_chunks i0 (d # ds) = \<lparr>ch_index = i0, ch_data = d\<rparr> # number_chunks (i0 + 1) ds"
proof -
  have "zip [0..<length (d # ds)] (d # ds) = (0, d) # zip (map Suc [0..<length ds]) ds"
    by (simp add: upt_conv_Cons map_Suc_upt del: upt_Suc)
  then show ?thesis
    by (simp add: number_chunks_def zip_map1 case_prod_unfold)
qed

lemma number_chunks_Nil [simp]: "number_chunks i0 [] = []"
  by (simp add: number_chunks_def)

lemma map_ch_data_number [simp]: "map ch_data (number_chunks i0 ds) = ds"
  by (induction ds arbitrary: i0) (simp_all add: number_chunks_Cons)

lemma length_number_chunks [simp]: "length (number_chunks i0 ds) = length ds"
  by (simp add: number_chunks_def)

lemma map_ch_index_number: "map ch_index (number_chunks i0 ds) = map (\<lambda>i. i0 + int i) [0..<length ds]"
  by (rule nth_equalityI) (simp_all add: number_chunks_def)

text \<open>The loop produces exactly the chunks of the stream, numbered from the current index.\<close>

lemma drain_chunks_of:
  assumes "splitting s" "within_limit s" "r_end (sp_r s) \<in> {EOF, ErrUnexpectedEOF}"
  shows "\<exists>s'. drain s = (number_chunks (sp_index s) (chunks_of (sp_chunkSize s) (r_data (sp_r s))),
                Split_EOF, s')
     \<and> TotalRead s' = sp_totalRead s + int (length (r_data (sp_r s)))"
  using assms
proof (induction "length (r_data (sp_r s))" arbitrary: s rule: less_induct)
  case (less s)
  let ?d = "r_data (sp_r s)" and ?n = "sp_chunkSize s"
  note inv = less.prems
  have n: "0 < ?n" and nd: "\<not> sp_done s" using inv by (auto simp: splitting_def)
  consider (full) "?n \<le> length ?d" | (short) "length ?d < ?n" "?d \<noteq> []" | (fin) "?d = []"
    by force
  then show ?case
  proof cases
    case full
    let ?s' = "s\<lparr>sp_r := (sp_r s)\<lparr>r_data := drop ?n ?d\<rparr>,
             sp_totalRead := sp_totalRead s + int ?n, sp_index := sp_index s + 1\<rparr>"
    have "splitting ?s'" "within_limit ?s'" "r_end (sp_r ?s') \<in> {EOF, ErrUnexpectedEOF}"
      "length (r_data (sp_r ?s')) < length ?d"
      using inv full n by (auto simp: splitting_def within_limit_def)
    then obtain s'' where IH: "drain ?s' =
        (number_chunks (sp_index s + 1) (chunks_of ?n (drop ?n ?d)), Split_EOF, s'')"
      "TotalRead s'' = sp_totalRead s + int (length ?d)"
      using less.hyps [of ?s'] full by auto
    have "?d \<noteq> []" using full n by auto
    with IH n show ?thesis
      by (simp add: drain.simps [of s] Next_full [OF inv(1,2) full] number_chunks_Cons
            chunks_of.simps [of ?n ?d])
  next
    case short
    then show ?thesis using n
      by (simp add: drain.simps [of s] Next_short [OF inv short] drain_done TotalRead_def
            number_chunks_Cons chunks_of.simps [of ?n ?d])
  next
    case fin
    have "wrap64 (sp_totalRead s) = sp_totalRead s"
      using inv(1) fin by (intro wrap64_id) (simp add: splitting_def int64_def)
    with fin show ?thesis using inv n nd
      by (auto simp: drain.simps [of s] Next_def ReadFull_def next_emit_def TotalRead_def
            splitting_def within_limit_def Let_def)
  qed
qed

lemma PlanChunks_exact:
  assumes "0 < cs" "0 \<le> n" "n + cs < 2 ^ 63"
  shows "PlanChunks n cs = (n + cs - 1) div cs"
proof -
  have "wrap64 (n + cs) = n + cs" "wrap64 (n + cs - 1) = n + cs - 1"
    using assms by (simp_all add: int64_def)
  then show ?thesis using assms by (auto simp: PlanChunks_def Let_def)
qed

text \<open>A stream over the limit: the loop stops at the chunk that crosses it.\<close>

lemma drain_over_limit:
  assumes "splitting s" "\<not> within_limit s" "\<forall>e. r_end (sp_r s) \<noteq> OtherErr e"
    and "sp_totalRead s \<le> sp_maxTotal s"
  shows "\<exists>chunks got s'. drain s = (chunks, ErrChunkTooLarge got (sp_maxTotal s), s')
     \<and> sp_maxTotal s < got
     \<and> sp_totalRead s + int (length (concat (map ch_data chunks))) \<le> sp_maxTotal s
     \<and> take (length (concat (map ch_data chunks))) (r_data (sp_r s)) = concat (map ch_data chunks)"
  using assms
proof (induction "length (r_data (sp_r s))" arbitrary: s rule: less_induct)
  case (less s)
  let ?d = "r_data (sp_r s)" and ?n = "sp_chunkSize s" and ?t = "sp_totalRead s"
  note inv = less.prems
  have n: "0 < ?n" "0 < sp_maxTotal s" "?d \<noteq> []" "\<not> sp_done s"
    using inv by (auto simp: splitting_def within_limit_def)
  have i64: "int64 (?t + int m)" if "m \<le> length ?d" for m
    using inv that by (auto simp: splitting_def int64_def)
  show ?case
  proof (cases "?t + int (min ?n (length ?d)) \<le> sp_maxTotal s")
    case True
    then have full: "?n \<le> length ?d" using inv by (auto simp: within_limit_def min_def split: if_splits)
    let ?s' = "s\<lparr>sp_r := (sp_r s)\<lparr>r_data := drop ?n ?d\<rparr>,
             sp_totalRead := ?t + int ?n, sp_index := sp_index s + 1\<rparr>"
    have nx: "Next s = (Inr \<lparr>ch_index = sp_index s, ch_data = take ?n ?d\<rparr>, ?s')"
      using Next_fits [OF inv(1) full] True full by (simp add: min_def)
    have "splitting ?s'" "\<not> within_limit ?s'" "\<forall>e. r_end (sp_r ?s') \<noteq> OtherErr e"
      "length (r_data (sp_r ?s')) < length ?d" "sp_totalRead ?s' \<le> sp_maxTotal ?s'"
      using inv full n True by (auto simp: splitting_def within_limit_def)
    from less.hyps [OF this(4,1,2,3,5)] obtain chunks got s' where
      "drain ?s' = (chunks, ErrChunkTooLarge got (sp_maxTotal s), s')" "sp_maxTotal s < got"
      "?t + int ?n + int (length (concat (map ch_data chunks))) \<le> sp_maxTotal s"
      "take (length (concat (map ch_data chunks))) (drop ?n ?d) = concat (map ch_data chunks)"
      by auto
    moreover have "take (?n + length (concat (map ch_data chunks))) ?d
        = take ?n ?d @ take (length (concat (map ch_data chunks))) (drop ?n ?d)"
      by (rule take_add)
    ultimately show ?thesis using full
      by (simp add: drain.simps [of s] nx min_def del: take_all_iff take_append)
  next
    case False
    then have "\<exists>got s'. Next s = (Inl (ErrChunkTooLarge got (sp_maxTotal s)), s') \<and> sp_maxTotal s < got"
      using inv n i64 [of ?n] i64 [of "length ?d"]
      by (cases "r_end (sp_r s)")
         (auto simp: Next_def ReadFull_def next_emit_def Let_def min_def split: if_splits)
    then show ?thesis using inv(4) by (auto simp: drain.simps [of s])
  qed
qed

section \<open>Properties\<close>

text \<open>A splitter over a stream of at most 2^63 - 1 bytes that ends normally.\<close>

lemma drain_new:
  assumes "NewSplitter r cs limit = Inr s" "r_end r = EOF"
    and "int (length (r_data r)) < 2 ^ 63" "limit \<le> 0 \<or> int (length (r_data r)) \<le> limit"
  shows "\<exists>s'. drain s = (number_chunks 0 (chunks_of (nat cs) (r_data r)), Split_EOF, s')
           \<and> TotalRead s' = int (length (r_data r))"
proof -
  have "splitting s" "within_limit s" "sp_r s = r" "sp_index s = 0" "sp_chunkSize s = nat cs"
    "sp_totalRead s = 0"
    using assms
    by (auto simp: NewSplitter_def NewSplitterBuffer_def splitting_def within_limit_def
          split: if_splits)
  with drain_chunks_of [of s] assms(2) show ?thesis by simp
qed

text \<open>
  C4 (upload splitting is lossless). For a stream of fewer than 2^63 bytes that ends in
  \<^verbatim>\<open>io.EOF\<close> and respects the limit, calling \<^verbatim>\<open>Next\<close> until it fails ends in \<^verbatim>\<open>io.EOF\<close>; the
  chunks, concatenated, are the stream; they are numbered 0, 1, 2, ...; every chunk but the
  last has exactly the chunk size and the last one has between 1 and that many bytes; there
  are \<^verbatim>\<open>PlanChunks\<close> many of them when the planning sum does not overflow; and
  \<^verbatim>\<open>TotalRead\<close> is the length of the stream.
\<close>

theorem split_lossless:
  assumes "NewSplitter r cs limit = Inr s" "r_end r = EOF"
    and "int (length (r_data r)) + cs < 2 ^ 63"
    and "limit \<le> 0 \<or> int (length (r_data r)) \<le> limit"
  shows "\<exists>chunks s'. drain s = (chunks, Split_EOF, s')
     \<and> concat (map ch_data chunks) = r_data r
     \<and> map ch_index chunks = map int [0..<length chunks]
     \<and> (\<forall>c \<in> set (butlast (map ch_data chunks)). int (length c) = cs)
     \<and> (\<forall>c \<in> set chunks. ch_data c \<noteq> [] \<and> int (length (ch_data c)) \<le> cs)
     \<and> int (length chunks) = PlanChunks (int (length (r_data r))) cs
     \<and> TotalRead s' = int (length (r_data r))"
proof -
  let ?d = "r_data r" and ?n = "nat cs"
  have cs: "0 < cs" using assms(1) by (auto simp: NewSplitter_def split: if_splits)
  then have n: "0 < ?n" "int ?n = cs" by auto
  let ?chunks = "number_chunks 0 (chunks_of ?n ?d)"
  obtain s' where s': "drain s = (?chunks, Split_EOF, s')" "TotalRead s' = int (length ?d)"
    using drain_new [OF assms(1,2)] assms(3,4) cs by auto
  have idx: "map ch_index ?chunks = map int [0..<length ?chunks]"
    by (simp add: map_ch_index_number)
  have full: "\<forall>c \<in> set (butlast (map ch_data ?chunks)). int (length c) = cs"
    using chunks_of_butlast_full n by fastforce
  have bnd: "ch_data c \<noteq> [] \<and> int (length (ch_data c)) \<le> cs" if "c \<in> set ?chunks" for c
  proof -
    have "ch_data c \<in> set (map ch_data ?chunks)" using that unfolding set_map by (rule imageI)
    then show ?thesis using chunks_of_bounds [of "ch_data c" ?n ?d] n by auto
  qed
  have cnt: "int (length ?chunks) = PlanChunks (int (length ?d)) cs"
    using length_chunks_of [OF n(1), of ?d] PlanChunks_exact [of cs "int (length ?d)"] n assms(3) cs
    by (simp add: of_nat_diff zdiv_int)
  show ?thesis
    using s' concat_chunks_of [OF n(1), of ?d] idx full bnd cnt
    by (intro exI [of _ ?chunks] exI [of _ s']) auto
qed

theorem split_lossless_witness:
  "\<exists>chunks s'. drain \<lparr>sp_r = \<lparr>r_data = [1, 2, 3], r_end = EOF\<rparr>, sp_chunkSize = 2,
       sp_maxTotal = 0, sp_index = 0, sp_totalRead = 0, sp_done = False\<rparr> = (chunks, Split_EOF, s')
     \<and> concat (map ch_data chunks) = [1, 2, 3] \<and> int (length chunks) = PlanChunks 3 2"
  using split_lossless [of "\<lparr>r_data = [1, 2, 3], r_end = EOF\<rparr>" 2 0]
  by (force simp: NewSplitter_def NewSplitterBuffer_def)



end
