(* ===== verification/Ranges.thy ===== *)
theory Ranges
  imports Go_Strings
begin

text \<open>
  \<^verbatim>\<open>internal/gateway/rangereq.go\<close>: HTTP range requests. A Range header is resolved to an inclusive
  window of the object, and the window to the parts of the chunks that make it up. The lemmas
  show that the parts, put together, are exactly the bytes of the window.
\<close>

section \<open>Parsing the header\<close>

datatype range_error = errUnsatisfiableRange | errIgnorableRange

record byteRange =
  br_start :: int
  br_end :: int

definition range_length :: "byteRange \<Rightarrow> int" where
  "range_length b = wrap64 (br_end b - br_start b + 1)"

definition contentRange :: "byteRange \<Rightarrow> int \<Rightarrow> string" where
  "contentRange b objSize = ''bytes '' @ decimal_int (br_start b) @ ''-'' @ decimal_int (br_end b) @ ''/'' @ decimal_int objSize"

text \<open>The three forms: the final bytes, from an offset to the end, from an offset to an offset.\<close>

definition suffix_range :: "string \<Rightarrow> int \<Rightarrow> range_error + byteRange" where
  "suffix_range toText size' =
     (case ParseInt 64 toText of
        None \<Rightarrow> Inl errIgnorableRange
      | Some n0 \<Rightarrow>
          if n0 \<le> 0 then Inl errIgnorableRange
          else let n = (if n0 > size' then size' else n0)
               in Inr \<lparr>br_start = size' - n, br_end = size' - 1\<rparr>)"

definition open_range :: "string \<Rightarrow> int \<Rightarrow> range_error + byteRange" where
  "open_range fromText size' =
     (case ParseInt 64 fromText of
        None \<Rightarrow> Inl errIgnorableRange
      | Some start \<Rightarrow>
          if start < 0 then Inl errIgnorableRange
          else if start \<ge> size' then Inl errUnsatisfiableRange
          else Inr \<lparr>br_start = start, br_end = size' - 1\<rparr>)"

definition closed_range :: "string \<Rightarrow> string \<Rightarrow> int \<Rightarrow> range_error + byteRange" where
  "closed_range fromText toText size' =
     (case ParseInt 64 fromText of
        None \<Rightarrow> Inl errIgnorableRange
      | Some start \<Rightarrow>
          if start < 0 then Inl errIgnorableRange
          else (case ParseInt 64 toText of
              None \<Rightarrow> Inl errIgnorableRange
            | Some end' \<Rightarrow>
                if end' < start then Inl errIgnorableRange
                else if start \<ge> size' then Inl errUnsatisfiableRange
                else Inr \<lparr>br_start = start, br_end = (if end' \<ge> size' then size' - 1 else end')\<rparr>))"

definition parseRange :: "string \<Rightarrow> int \<Rightarrow> range_error + byteRange" where
  "parseRange header size' =
     (if header = [] then Inl errIgnorableRange
      else if \<not> HasPrefix header ''bytes='' then Inl errIgnorableRange
      else let spec = trim is_space (TrimPrefix header ''bytes='') in
        if spec = [] \<or> contains_char spec (CHR '','') then Inl errIgnorableRange
        else (case Cut spec (CHR ''-'') of
            None \<Rightarrow> Inl errIgnorableRange
          | Some (before, after) \<Rightarrow>
              let fromText = trim is_space before; toText = trim is_space after in
              if size' = 0 then Inl errUnsatisfiableRange
              else if fromText = [] then suffix_range toText size'
              else if toText = [] then open_range fromText size'
              else closed_range fromText toText size'))"

section \<open>Selecting chunks\<close>

text \<open>The message \<^verbatim>\<open>ChunkPlacement\<close>: a chunk of an object and the nodes that hold it.\<close>

record ChunkPlacement =
  cp_ChunkId :: string
  cp_ChunkIndex :: int
  cp_SizeBytes :: int
  cp_ChecksumSha256 :: string
  cp_Nodes :: "(string \<times> string) list"

record chunkSpan =
  cs_chunk :: ChunkPlacement
  cs_from :: int
  cs_to :: int

fun select_loop :: "byteRange \<Rightarrow> int \<Rightarrow> ChunkPlacement list \<Rightarrow> chunkSpan list" where
  "select_loop br offset [] = []"
| "select_loop br offset (c # cs) =
     (let start = offset; end' = wrap64 (offset + cp_SizeBytes c) in
      if end' \<le> br_start br then select_loop br end' cs
      else if start > br_end br then []
      else let from = (if br_start br > start then br_start br - start else 0);
               to = (if br_end br < end' - 1 then br_end br - start + 1 else cp_SizeBytes c)
           in \<lparr>cs_chunk = c, cs_from = from, cs_to = to\<rparr> # select_loop br end' cs)"

definition selectChunks :: "ChunkPlacement list \<Rightarrow> byteRange \<Rightarrow> chunkSpan list" where
  "selectChunks chunks br = select_loop br 0 chunks"

definition objectSizeFromChunks :: "ChunkPlacement list \<Rightarrow> int" where
  "objectSizeFromChunks chunks = foldl (\<lambda>n c. wrap64 (n + cp_SizeBytes c)) 0 chunks"

definition allChunks :: "ChunkPlacement list \<Rightarrow> chunkSpan list" where
  "allChunks chunks = map (\<lambda>c. \<lparr>cs_chunk = c, cs_from = 0, cs_to = cp_SizeBytes c\<rparr>) chunks"

section \<open>Resolved ranges\<close>

text \<open>The bytes that a span stands for, for chunks with the given contents.\<close>

definition span_bytes :: "(ChunkPlacement \<Rightarrow> 'b list) \<Rightarrow> chunkSpan \<Rightarrow> 'b list" where
  "span_bytes content sp = take (nat (cs_to sp - cs_from sp)) (drop (nat (cs_from sp)) (content (cs_chunk sp)))"

lemma parseRange_bounds:
  assumes "parseRange header s = Inr br" "0 \<le> s"
  shows "0 \<le> br_start br \<and> br_start br \<le> br_end br \<and> br_end br < s"
  using assms
  by (auto simp: parseRange_def suffix_range_def open_range_def closed_range_def Let_def
      split: if_splits option.splits)

lemma drop_take_append:
  "drop a (take b (d @ e)) = drop a (take b d) @ drop (a - length d) (take (b - length d) e)"
  by (cases "length d \<le> b") simp_all

lemma select_loop_bytes:
  assumes "\<And>c. c \<in> set cs \<Longrightarrow> int (length (content c)) = cp_SizeBytes c"
    and "0 \<le> off" "off + int (length (concat (map content cs))) < 2 ^ 63" "br_start br \<le> br_end br"
  shows "concat (map (span_bytes content) (select_loop br off cs)) =
    drop (nat (br_start br - off)) (take (nat (br_end br + 1 - off)) (concat (map content cs)))"
  using assms(1-3)
proof (induction cs arbitrary: off)
  case (Cons c cs)
  let ?n = "length (content c)" and ?s = "br_start br" and ?e = "br_end br" and ?rest = "concat (map content cs)"
  have n: "cp_SizeBytes c = int ?n" using Cons.prems(1) [of c] by simp
  have w: "wrap64 (off + int ?n) = off + int ?n"
    using Cons.prems(2,3) by (intro wrap64_id int64I) auto
  have IH: "concat (map (span_bytes content) (select_loop br (off + int ?n) cs)) =
      drop (nat (?s - (off + int ?n))) (take (nat (?e + 1 - (off + int ?n))) ?rest)"
  proof (rule Cons.IH)
    show "off + int ?n + int (length ?rest) < 2 ^ 63" using Cons.prems(3) by simp
    show "0 \<le> off + int ?n" using Cons.prems(2) by (intro add_nonneg_nonneg) simp_all
  qed (use Cons.prems(1) in auto)
  have sub: "nat (?s - off) - ?n = nat (?s - (off + int ?n))" "nat (?e + 1 - off) - ?n = nat (?e + 1 - (off + int ?n))" by linarith+
  consider "off + int ?n \<le> ?s" | "?s < off + int ?n" "off > ?e" | "?s < off + int ?n" "off \<le> ?e" by linarith
  then show ?case
  proof cases
    case 1
    then have "?n \<le> nat (?s - off)" using Cons.prems(2) by linarith
    then show ?thesis using 1 IH by (simp add: w n drop_take_append sub del: take_append drop_append)
  next
    case 2
    then show ?thesis by (simp add: w n)
  next
    case 3
    define f where "f = (if ?s > off then ?s - off else 0)"
    define t where "t = (if ?e < off + int ?n - 1 then ?e - off + 1 else int ?n)"
    have "nat f = nat (?s - off)" "nat (t - f) = nat t - nat f" "take (nat t) (content c) = take (nat (?e + 1 - off)) (content c)"
      using 3 by (auto simp: f_def t_def diff_add_eq)
    then have "take (nat (t - f)) (drop (nat f) (content c)) = drop (nat (?s - off)) (take (nat (?e + 1 - off)) (content c))"
      by (simp add: drop_take [symmetric])
    moreover have "nat (?s - (off + int ?n)) = 0" using 3 by simp
    moreover have "select_loop br off (c # cs) = \<lparr>cs_chunk = c, cs_from = f, cs_to = t\<rparr> # select_loop br (off + int ?n) cs"
      using 3 by (simp add: w n f_def t_def)
    moreover have "span_bytes content \<lparr>cs_chunk = c, cs_from = f, cs_to = t\<rparr> = take (nat (t - f)) (drop (nat f) (content c))"
      by (simp add: span_bytes_def)
    ultimately show ?thesis
      using IH by (simp add: drop_take_append sub del: take_append drop_append select_loop.simps)
  qed
qed simp

section \<open>Properties\<close>

text \<open>
  C13 (partial content). If the chunks have the sizes that are recorded for them, then for every
  range header that resolves, the selected parts of the chunks are, put together, exactly the
  bytes of the window, whose length is the Content-Length that is announced.
\<close>

theorem range_exact:
  assumes len: "\<forall>c \<in> set cs. int (length (content c)) = cp_SizeBytes c"
    and small: "int (length (concat (map content cs))) < 2 ^ 63"
    and parse: "parseRange header (int (length (concat (map content cs)))) = Inr br"
  shows "concat (map (span_bytes content) (selectChunks cs br))
      = take (nat (range_length br)) (drop (nat (br_start br)) (concat (map content cs)))
    \<and> int (length (concat (map (span_bytes content) (selectChunks cs br)))) = range_length br"
proof -
  let ?D = "concat (map content cs)"
  have b: "0 \<le> br_start br" "br_start br \<le> br_end br" "br_end br < int (length ?D)"
    using parseRange_bounds [OF parse] by simp_all
  then have l: "range_length br = br_end br - br_start br + 1"
    using small unfolding range_length_def by (intro wrap64_id int64I) linarith+
  have "concat (map (span_bytes content) (selectChunks cs br))
      = drop (nat (br_start br - 0)) (take (nat (br_end br + 1 - 0)) ?D)"
    unfolding selectChunks_def using len small b by (intro select_loop_bytes) simp_all
  also have "\<dots> = take (nat (range_length br)) (drop (nat (br_start br)) ?D)"
    using b by (simp add: drop_take l nat_diff_distrib [symmetric] algebra_simps)
  finally show ?thesis using b l by simp
qed

lemma trim_decimal [simp]: "trim is_space (decimal n) = decimal n"
proof -
  have "\<not> is_space c" if "is_digit c" for c using that by (auto simp: is_digit_def is_space_def)
  then show ?thesis
    using decimal_digits [of n] by (intro trim_id) (auto simp: list_all_iff)
qed

lemma parseRange_spec:
  assumes "\<not> is_space (hd spec)" "\<not> is_space (last spec)" "spec \<noteq> []" "\<not> contains_char spec (CHR '','')"
    "Cut spec (CHR ''-'') = Some (a, b)" "0 < s"
  shows "parseRange (''bytes='' @ spec) s =
    (if trim is_space a = [] then suffix_range (trim is_space b) s
     else if trim is_space b = [] then open_range (trim is_space a) s
     else closed_range (trim is_space a) (trim is_space b) s)"
proof -
  have "TrimPrefix (''bytes='' @ spec) ''bytes='' = spec" "HasPrefix (''bytes='' @ spec) ''bytes=''"
    using HasPrefix_append [of "''bytes=''" spec] by (simp_all add: TrimPrefix_def)
  moreover have "trim is_space spec = spec" using assms(1,2) by (simp add: trim_id)
  ultimately show ?thesis using assms by (simp add: parseRange_def Let_def)
qed

lemma decimal_ends: "\<not> is_space (hd (decimal n))" "\<not> is_space (last (decimal n))" "decimal n \<noteq> []"
proof -
  have "\<not> is_space c" if "is_digit c" for c using that by (auto simp: is_digit_def is_space_def)
  then show "\<not> is_space (hd (decimal n))" "\<not> is_space (last (decimal n))" "decimal n \<noteq> []"
    using decimal_digits [of n] by (auto simp: list_all_iff)
qed

lemma contains_char_append [simp]:
  "contains_char (a @ b) c \<longleftrightarrow> contains_char a c \<or> contains_char b c" "contains_char (x # b) c \<longleftrightarrow> x = c \<or> contains_char b c"
  "\<not> contains_char [] c"
  by (simp_all add: contains_char_def)

text \<open>
  C40 (range headers). The three forms of a single range resolve as RFC 7233 says, for all numbers
  that fit into 64 bits: first and last byte, first byte only, and a number of final bytes; ends
  beyond the object are cut off, and a start beyond it is not satisfiable.
\<close>

theorem parse_range_forms:
  assumes s: "0 < s" and ab: "a \<le> b" "int b < 2 ^ 63" and n: "0 < n" "int n < 2 ^ 63"
  shows "parseRange (''bytes='' @ decimal a @ ''-'' @ decimal b) s =
      (if s \<le> int a then Inl errUnsatisfiableRange else Inr \<lparr>br_start = int a, br_end = min (int b) (s - 1)\<rparr>)
    \<and> parseRange (''bytes='' @ decimal a @ ''-'') s =
      (if s \<le> int a then Inl errUnsatisfiableRange else Inr \<lparr>br_start = int a, br_end = s - 1\<rparr>)
    \<and> parseRange (''bytes='' @ ''-'' @ decimal n) s = Inr \<lparr>br_start = max 0 (s - int n), br_end = s - 1\<rparr>"
proof (intro conjI)
  have nd: "\<not> contains_char (decimal k) (CHR '','')" "\<not> contains_char (decimal k) (CHR ''-'')" for k
    by (rule decimal_no_char, simp add: is_digit_def)+
  have dash: "\<not> is_space (CHR ''-'')" by (simp add: is_space_def)
  have t0: "trim is_space [] = []" by (simp add: trim_def)
  have pa: "ParseInt 64 (decimal a) = Some (int a)" "ParseInt 64 (decimal b) = Some (int b)" "ParseInt 64 (decimal n) = Some (int n)"
    using ab n by (auto intro!: ParseInt_decimal)
  have "parseRange (''bytes='' @ (decimal a @ ''-'' @ decimal b)) s = closed_range (decimal a) (decimal b) s"
    using s by (subst parseRange_spec [where a = "decimal a" and b = "decimal b"])
      (simp_all add: nd decimal_ends Cut_append)
  then show "parseRange (''bytes='' @ decimal a @ ''-'' @ decimal b) s =
      (if s \<le> int a then Inl errUnsatisfiableRange else Inr \<lparr>br_start = int a, br_end = min (int b) (s - 1)\<rparr>)"
    using ab(1) by (simp add: closed_range_def pa min_def)
  have "parseRange (''bytes='' @ (decimal a @ ''-'')) s = open_range (decimal a) s"
    using s by (subst parseRange_spec [where a = "decimal a" and b = "[]"])
      (simp_all add: nd decimal_ends Cut_append dash t0)
  then show "parseRange (''bytes='' @ decimal a @ ''-'') s =
      (if s \<le> int a then Inl errUnsatisfiableRange else Inr \<lparr>br_start = int a, br_end = s - 1\<rparr>)"
    by (simp add: open_range_def pa)
  have "parseRange (''bytes='' @ (''-'' @ decimal n)) s = suffix_range (decimal n) s"
    using s by (subst parseRange_spec [where a = "[]" and b = "decimal n"])
      (simp_all add: nd decimal_ends Cut_append [of "[]", simplified] dash t0)
  then show "parseRange (''bytes='' @ ''-'' @ decimal n) s = Inr \<lparr>br_start = max 0 (s - int n), br_end = s - 1\<rparr>"
    using n(1) s by (simp add: suffix_range_def pa max_def)
qed

lemma parse_range_forms_witness:
  "parseRange (''bytes='' @ decimal 2 @ ''-'' @ decimal 900) 10 = Inr \<lparr>br_start = 2, br_end = 9\<rparr>"
  using parse_range_forms [of 10 2 900 1] by simp

definition ex_placement :: "int \<Rightarrow> ChunkPlacement" where
  "ex_placement n = \<lparr>cp_ChunkId = decimal_int n, cp_ChunkIndex = 0, cp_SizeBytes = n, cp_ChecksumSha256 = [], cp_Nodes = []\<rparr>"

lemma range_exact_witness:
  "concat (map (span_bytes (\<lambda>c. [1..cp_SizeBytes c])) (selectChunks [ex_placement 3, ex_placement 2, ex_placement 4] \<lparr>br_start = 2, br_end = 5\<rparr>))
     = [3, 1, 2, 1]"
proof -
  let ?cs = "[ex_placement 3, ex_placement 2, ex_placement 4]" and ?d = "\<lambda>c. [1..cp_SizeBytes c]"
  have D: "concat (map ?d ?cs) = [1, 2, 3, 1, 2, 1, 2, 3, 4]" by (simp add: ex_placement_def upto.simps)
  have p: "parseRange ''bytes=2-5'' 9 = Inr \<lparr>br_start = 2, br_end = 5\<rparr>" by code_simp
  have "\<forall>c \<in> set ?cs. int (length (?d c)) = cp_SizeBytes c" by (simp add: ex_placement_def)
  from range_exact [OF this, unfolded D, of "''bytes=2-5''" "\<lparr>br_start = 2, br_end = 5\<rparr>"] p show ?thesis
    by (simp add: range_length_def wrap64_def)
qed

end
