(* ===== verification/Chunk_Transfer.thy ===== *)
theory Chunk_Transfer
  imports Storage_Service Chunking Ranges "HOL-Library.Multiset"
begin

text \<open>
  \<^verbatim>\<open>internal/gateway/chunkwriter.go\<close> and \<^verbatim>\<open>chunkreader.go\<close>: how a gateway writes a chunk to its
  replicas and reads it back from one of them. The remote calls are arguments that act on a state
  \<open>'w\<close> of the rest of the system. A write is concurrent; as every call concerns one node, its effect
  is that of some order of the calls, which is an argument too.
\<close>

section \<open>Writing\<close>

definition frameSize :: nat where
  "frameSize = 256 * 1024"

datatype write_error = WriteRPC code | ShortAck | BadAck

type_synonym 'w store_rpc = "string \<Rightarrow> StoreChunkRequest list \<Rightarrow> 'w \<Rightarrow> (code + StoreChunkResponse) \<times> 'w"

definition writeOne :: "'w store_rpc \<Rightarrow> string \<Rightarrow> string \<Rightarrow> bytes \<Rightarrow> string \<Rightarrow> 'w \<Rightarrow> write_error option \<times> 'w" where
  "writeOne rpc addr chunkID dt sha256Hex w =
     (case rpc addr (Header \<lparr>hd_ChunkId = chunkID, hd_SizeBytes = int (length dt), hd_ChecksumSha256 = sha256Hex\<rparr>
              # map Data (chunks_of frameSize dt)) w of
        (Inl c, w') \<Rightarrow> (Some (WriteRPC c), w')
      | (Inr resp, w') \<Rightarrow>
          if sc_BytesWritten resp \<noteq> int (length dt) then (Some ShortAck, w')
          else if sc_ChecksumSha256 resp \<noteq> sha256Hex then (Some BadAck, w')
          else (None, w'))"

record FanoutResult =
  fr_Succeeded :: "string list"
  fr_Failed :: "string list"

text \<open>A target is a node ID with its address; \<open>order\<close> lists the targets as their calls take effect.\<close>

fun fanout :: "'w store_rpc \<Rightarrow> string \<Rightarrow> bytes \<Rightarrow> string \<Rightarrow> (string \<times> string) list \<Rightarrow> FanoutResult \<Rightarrow> 'w \<Rightarrow> FanoutResult \<times> 'w" where
  "fanout rpc chunkID dt sha256Hex [] res w = (res, w)"
| "fanout rpc chunkID dt sha256Hex ((n, addr) # order) res w =
     (case writeOne rpc addr chunkID dt sha256Hex w of
        (Some e, w') \<Rightarrow> fanout rpc chunkID dt sha256Hex order (res\<lparr>fr_Failed := fr_Failed res @ [n]\<rparr>) w'
      | (None, w') \<Rightarrow> fanout rpc chunkID dt sha256Hex order (res\<lparr>fr_Succeeded := fr_Succeeded res @ [n]\<rparr>) w')"

text \<open>The flag is \<^verbatim>\<open>ErrDurability\<close>, which comes with the result.\<close>

definition ChunkWriter_Write ::
  "'w store_rpc \<Rightarrow> ((string \<times> string) list \<Rightarrow> (string \<times> string) list) \<Rightarrow> string \<Rightarrow> bytes \<Rightarrow> string \<Rightarrow> (string \<times> string) list \<Rightarrow> int
     \<Rightarrow> 'w \<Rightarrow> (FanoutResult \<times> bool) \<times> 'w"
where
  "ChunkWriter_Write rpc order chunkID dt sha256Hex targets minReplicas w =
     (if targets = [] then ((\<lparr>fr_Succeeded = [], fr_Failed = []\<rparr>, True), w)
      else (case fanout rpc chunkID dt sha256Hex (order targets) \<lparr>fr_Succeeded = [], fr_Failed = []\<rparr> w of
              (res, w') \<Rightarrow> ((res, int (length (fr_Succeeded res)) < minReplicas), w')))"

section \<open>Reading\<close>

datatype fetch_error = FetchRPC code | FetchMismatch

fun fetch_loop :: "int \<Rightarrow> bytes recv list \<Rightarrow> bytes \<Rightarrow> digest \<Rightarrow> fetch_error + bytes \<times> digest" where
  "fetch_loop n [] buf h = Inr (buf, h)"
| "fetch_loop n (RecvErr c # es) buf h = Inl (FetchRPC c)"
| "fetch_loop n (Msg d # es) buf h =
     (if int (length buf) + int (length d) > n then Inl FetchMismatch
      else fetch_loop n es (buf @ d) (digest_write h d))"

type_synonym 'w read_rpc = "string \<Rightarrow> ReadChunkRequest \<Rightarrow> 'w \<Rightarrow> (code + bytes recv list) \<times> 'w"

definition fetchFrom :: "'w read_rpc \<Rightarrow> string \<Rightarrow> ChunkPlacement \<Rightarrow> 'w \<Rightarrow> (fetch_error + bytes) \<times> 'w" where
  "fetchFrom rpc addr chunk w =
     (case rpc addr \<lparr>rc_ChunkId = cp_ChunkId chunk, rc_ExpectedChecksumSha256 = cp_ChecksumSha256 chunk\<rparr> w of
        (Inl c, w') \<Rightarrow> (Inl (FetchRPC c), w')
      | (Inr es, w') \<Rightarrow>
          (case fetch_loop (cp_SizeBytes chunk) es [] New of
             Inl e \<Rightarrow> (Inl e, w')
           | Inr (buf, h) \<Rightarrow>
               if int (length buf) \<noteq> cp_SizeBytes chunk then (Inl FetchMismatch, w')
               else if Verify (cp_ChunkId chunk) (cp_ChecksumSha256 chunk) (Hex h) \<noteq> None then (Inl FetchMismatch, w')
               else (Inr buf, w')))"

fun corrupt :: "fetch_error \<Rightarrow> bool" where
  "corrupt FetchMismatch = True"
| "corrupt (FetchRPC c) = (c = FailedPrecondition)"

datatype fetch_failure = ErrNoReplica | CtxErr code

text \<open>\<open>report\<close> is \<^verbatim>\<open>reportCorruption\<close>, whose failure is only logged; \<open>ctx\<close> is the state of the request's context.\<close>

fun fetch_from_nodes ::
  "'w read_rpc \<Rightarrow> ('w \<Rightarrow> code option) \<Rightarrow> (string \<Rightarrow> string \<Rightarrow> 'w \<Rightarrow> 'w) \<Rightarrow> ChunkPlacement \<Rightarrow> (string \<times> string) list
     \<Rightarrow> 'w \<Rightarrow> (fetch_failure + bytes) \<times> 'w"
where
  "fetch_from_nodes rpc ctx report chunk [] w = (Inl ErrNoReplica, w)"
| "fetch_from_nodes rpc ctx report chunk ((n, addr) # nodes) w =
     (case fetchFrom rpc addr chunk w of
        (Inr d, w1) \<Rightarrow> (Inr d, w1)
      | (Inl e, w1) \<Rightarrow>
          (case ctx w1 of
             Some c \<Rightarrow> (Inl (CtxErr c), w1)
           | None \<Rightarrow> fetch_from_nodes rpc ctx report chunk nodes (if corrupt e then report (cp_ChunkId chunk) n w1 else w1)))"

definition Fetch ::
  "'w read_rpc \<Rightarrow> ('w \<Rightarrow> code option) \<Rightarrow> (string \<Rightarrow> string \<Rightarrow> 'w \<Rightarrow> 'w) \<Rightarrow> ChunkPlacement \<Rightarrow> 'w \<Rightarrow> (fetch_failure + bytes) \<times> 'w"
where
  "Fetch rpc ctx report chunk w = fetch_from_nodes rpc ctx report chunk (cp_Nodes chunk) w"

section \<open>Never a wrong byte\<close>

lemma fetch_loop_spec:
  "fetch_loop n es buf (digest_write New buf) = Inr (b, h) \<longleftrightarrow>
   (\<exists>x. stream_data Some es = (x, False) \<and> b = buf @ x \<and> h = digest_write New b \<and> (es = [] \<or> int (length b) \<le> n))"
proof (induction es arbitrary: buf)
  case (Cons e es)
  show ?case
  proof (cases e)
    case (Msg d)
    have s: "stream_data Some (e # es) = (d @ fst (stream_data Some es), snd (stream_data Some es))" by (simp add: Msg)
    show ?thesis
    proof (cases "int (length buf) + int (length d) > n")
      case True
      then show ?thesis unfolding s by (auto simp: Msg)
    next
      case False
      then have "fetch_loop n (e # es) buf (digest_write New buf) = fetch_loop n es (buf @ d) (digest_write New (buf @ d))"
        by (simp add: Msg digest_write_append)
      then show ?thesis using Cons.IH [of "buf @ d"] False unfolding s by (auto simp: prod_eq_iff)
    qed
  qed simp
qed auto

lemma fetchFrom_verified:
  assumes "fetchFrom rpc addr chunk w = (Inr d, w')"
  shows "int (length d) = cp_SizeBytes chunk \<and> Sum d = cp_ChecksumSha256 chunk"
proof -
  obtain es h where "fetch_loop (cp_SizeBytes chunk) es [] New = Inr (d, h)" "int (length d) = cp_SizeBytes chunk"
    "Verify (cp_ChunkId chunk) (cp_ChecksumSha256 chunk) (Hex h) = None"
    using assms by (auto simp: fetchFrom_def split: prod.splits sum.splits if_splits)
  then show ?thesis
    using fetch_loop_spec [of "cp_SizeBytes chunk" es "[]" d h]
    by (auto simp: digest_write_New_Nil Verify_def Equal_iff Hex_digest split: if_splits)
qed

lemma fetchFrom_succeeds:
  assumes "rpc addr \<lparr>rc_ChunkId = cp_ChunkId chunk, rc_ExpectedChecksumSha256 = cp_ChecksumSha256 chunk\<rparr> w = (Inr es, w')"
    and "stream_data Some es = (d, False)" and "int (length d) = cp_SizeBytes chunk" and "Sum d = cp_ChecksumSha256 chunk"
  shows "fetchFrom rpc addr chunk w = (Inr d, w')"
proof -
  have "fetch_loop (cp_SizeBytes chunk) es [] New = Inr (d, digest_write New d)"
    using fetch_loop_spec [of "cp_SizeBytes chunk" es "[]" d "digest_write New d"] assms(2,3) by (simp add: digest_write_New_Nil)
  then show ?thesis using assms by (simp add: fetchFrom_def Verify_def Equal_iff Hex_digest)
qed

text \<open>A node that serves the recorded bytes whenever it is asked.\<close>

definition serves :: "'w read_rpc \<Rightarrow> ChunkPlacement \<Rightarrow> string \<Rightarrow> bytes \<Rightarrow> bool" where
  "serves rpc chunk addr d \<longleftrightarrow> int (length d) = cp_SizeBytes chunk \<and> Sum d = cp_ChecksumSha256 chunk
     \<and> (\<forall>w. \<exists>es w'. rpc addr \<lparr>rc_ChunkId = cp_ChunkId chunk, rc_ExpectedChecksumSha256 = cp_ChecksumSha256 chunk\<rparr> w = (Inr es, w')
          \<and> stream_data Some es = (d, False))"

text \<open>
  C11 (never a wrong byte). Whatever the storage nodes answer, a fetch that succeeds returns bytes of
  the recorded length with the recorded digest; and it does succeed if one of the listed nodes
  serves such bytes and the request is not cancelled, whatever the other nodes do.
\<close>

theorem fetch_verified:
  "(case Fetch rpc ctx report chunk w of
      (Inr d, w') \<Rightarrow> int (length d) = cp_SizeBytes chunk \<and> Sum d = cp_ChecksumSha256 chunk
    | (Inl e, w') \<Rightarrow> (\<exists>w. ctx w \<noteq> None) \<or> \<not> (\<exists>n addr d. (n, addr) \<in> set (cp_Nodes chunk) \<and> serves rpc chunk addr d))"
proof -
  have "case fetch_from_nodes rpc ctx report chunk nodes w of
      (Inr d, w') \<Rightarrow> int (length d) = cp_SizeBytes chunk \<and> Sum d = cp_ChecksumSha256 chunk
    | (Inl e, w') \<Rightarrow> (\<exists>w. ctx w \<noteq> None) \<or> \<not> (\<exists>n addr d. (n, addr) \<in> set nodes \<and> serves rpc chunk addr d)" for nodes
  proof (induction nodes arbitrary: w)
    case (Cons na nodes)
    obtain n addr where na: "na = (n, addr)" by (cases na)
    obtain res w1 where f: "fetchFrom rpc addr chunk w = (res, w1)" by (cases "fetchFrom rpc addr chunk w")
    show ?case
    proof (cases res)
      case (Inr d)
      then show ?thesis using f fetchFrom_verified [of rpc addr chunk w d w1] by (simp add: na)
    next
      case (Inl e)
      have "\<not> serves rpc chunk addr d" for d
        using fetchFrom_succeeds [of rpc addr chunk w _ _ d] f Inl unfolding serves_def by fastforce
      then have no: "(\<exists>n addr d. (n, addr) \<in> set (na # nodes) \<and> serves rpc chunk addr d) \<longleftrightarrow> (\<exists>n addr d. (n, addr) \<in> set nodes \<and> serves rpc chunk addr d)"
        by (auto simp: na)
      show ?thesis
      proof (cases "ctx w1")
        case None
        let ?w2 = "if corrupt e then report (cp_ChunkId chunk) n w1 else w1"
        have "fetch_from_nodes rpc ctx report chunk (na # nodes) w = fetch_from_nodes rpc ctx report chunk nodes ?w2"
          using f Inl None by (simp add: na)
        then show ?thesis using Cons.IH [of ?w2] unfolding no by simp
      next
        case (Some c)
        then have "fetch_from_nodes rpc ctx report chunk (na # nodes) w = (Inl (CtxErr c), w1)" using f Inl by (simp add: na)
        then show ?thesis using Some by auto
      qed
    qed
  qed simp
  then show ?thesis by (simp add: Fetch_def)
qed

definition ex_chunk :: ChunkPlacement where
  "ex_chunk = \<lparr>cp_ChunkId = ex_id, cp_ChunkIndex = 0, cp_SizeBytes = 3, cp_ChecksumSha256 = Sum [1, 2, 3],
     cp_Nodes = [(''n1'', ''a1''), (''n2'', ''a2'')]\<rparr>"

lemma fetch_verified_witness:
  "\<exists>d. Fetch (\<lambda>addr req w. (if addr = ''a2'' then Inr [Msg [1, 2], Msg [3]] else Inl Unavailable, w)) (\<lambda>w. None) (\<lambda>c n w. w) ex_chunk () = (Inr d, ())
     \<and> int (length d) = 3 \<and> Sum d = Sum [1, 2, 3]"
proof -
  let ?rpc = "\<lambda>addr (req :: ReadChunkRequest) (w :: unit). (if addr = ''a2'' then Inr [Msg [1, 2], Msg [3 :: byte]] else Inl Unavailable, w)"
  have "serves ?rpc ex_chunk ''a2'' [1, 2, 3]" by (simp add: serves_def ex_chunk_def)
  moreover have "(''n2'', ''a2'') \<in> set (cp_Nodes ex_chunk)" by (simp add: ex_chunk_def)
  ultimately show ?thesis
    using fetch_verified [where rpc = ?rpc and ctx = "\<lambda>w. None" and report = "\<lambda>c n w. w" and chunk = ex_chunk and w = "()"]
    by (auto simp: ex_chunk_def split: prod.splits sum.splits)
qed

section \<open>A cluster of nodes\<close>

text \<open>
  The other end of the calls: nodes by address, each running the service. A call may be lost before
  it reaches the node, or its answer may be lost; \<open>net\<close> says which, and gives the faults at the node.
\<close>

type_synonym cluster = "string \<Rightarrow> node_state"

datatype delivery = LostRequest code | LostAnswer code | Delivered

definition cluster_store :: "(string \<Rightarrow> delivery \<times> (syscall \<Rightarrow> bool) \<times> nat option) \<Rightarrow> cluster store_rpc" where
  "cluster_store net addr msgs cl =
     (case net addr of
        (LostRequest c, flt, full) \<Rightarrow> (Inl c, cl)
      | (LostAnswer c, flt, full) \<Rightarrow> (Inl c, cl(addr := snd (StoreChunk flt full (map Msg msgs) (cl addr))))
      | (Delivered, flt, full) \<Rightarrow> (case StoreChunk flt full (map Msg msgs) (cl addr) of (res, s') \<Rightarrow> (res, cl(addr := s'))))"

definition cluster_read :: "(string \<Rightarrow> delivery \<times> (syscall \<Rightarrow> bool) \<times> read_env) \<Rightarrow> cluster read_rpc" where
  "cluster_read net addr req cl =
     (case net addr of
        (LostRequest c, flt, env) \<Rightarrow> (Inl c, cl)
      | (d, flt, env) \<Rightarrow>
          (case ReadChunk flt env req (cl addr) of
             ((frames, status), s') \<Rightarrow>
               (Inr (map Msg frames @ (case status of Some c \<Rightarrow> [RecvErr c] | None \<Rightarrow> case d of LostAnswer c \<Rightarrow> [RecvErr c] | _ \<Rightarrow> [])), cl(addr := s'))))"

definition cluster_ok :: "cluster \<Rightarrow> bool" where
  "cluster_ok cl \<longleftrightarrow> (\<forall>addr. node_ok (cl addr))"

lemma StoreChunk_any:
  assumes "StoreChunk flt full (Msg (Header h) # es) s = (res, s')" and "node_ok s"
  shows "node_ok s' \<and> (\<forall>j. j \<noteq> hd_ChunkId h \<longrightarrow> node_view s' j = node_view s j)"
proof -
  let ?s = "(BeginRequest (fst s), snd s)" and ?src = "limit_source full (io_copy store_payload ([], es))"
  from with_requestE [OF assms(1) [unfolded StoreChunk_def]] obtain cs' f' where
    w: "(if ValidateChunkID (hd_ChunkId h) \<noteq> None then (Inl InvalidArgument, ?s)
          else if hd_ChecksumSha256 h \<noteq> [] \<and> \<not> Valid (hd_ChecksumSha256 h) then (Inl InvalidArgument, ?s)
          else (case node_write flt (hd_ChunkId h) ?src (hd_SizeBytes h) (hd_ChecksumSha256 h) ?s of
                  (Inl e, s') \<Rightarrow> (Inl (write_code e), s')
                | (Inr res, s') \<Rightarrow>
                    (Inr \<lparr>sc_ChunkId = hd_ChunkId h, sc_BytesWritten = wr_BytesWritten res,
                          sc_ChecksumSha256 = wr_Checksum res, sc_AlreadyExisted = wr_AlreadyExisted res\<rparr>, s'))) = (res, cs', f')"
    and s': "node_view s' = node_view (cs', f')" "node_ok s' \<longleftrightarrow> node_ok (cs', f')" unfolding list.case recv.case StoreChunkRequest.case .
  obtain r s1 where n: "node_write flt (hd_ChunkId h) ?src (hd_SizeBytes h) (hd_ChecksumSha256 h) ?s = (r, s1)"
    by (cases "node_write flt (hd_ChunkId h) ?src (hd_SizeBytes h) (hd_ChecksumSha256 h) ?s")
  have ok: "node_ok ?s" using assms(2) by simp
  have c: "(cs', f') = ?s \<or> (cs', f') = s1" using w n by (auto split: if_splits sum.splits)
  have "node_ok s1" using chunk_files.put_inv [OF ok, of flt "hd_ChunkId h" ?src "hd_SizeBytes h" "hd_ChecksumSha256 h"] n by simp
  moreover have "node_view s1 j = node_view s j" if "j \<noteq> hd_ChunkId h" for j
  proof (cases r)
    case (Inl e)
    show ?thesis using chunk_files.put_failed [OF ok n [unfolded Inl]] that unfolding begun by auto
  next
    case (Inr x)
    show ?thesis using chunk_files.put_stored [OF ok n [unfolded Inr]] that unfolding begun by auto
  qed
  ultimately show ?thesis using c assms(2) unfolding s' by auto
qed

text \<open>A node holds bytes that match the data, and the data itself if it did not have the chunk before.\<close>

definition holds :: "string \<Rightarrow> bytes \<Rightarrow> node_state \<Rightarrow> node_state \<Rightarrow> bool" where
  "holds i dt s s' \<longleftrightarrow> (\<exists>d. node_view s' i = Some d \<and> Sum d = Sum dt \<and> length d = length dt \<and> (node_view s i = None \<longrightarrow> d = dt))"

lemma writeOne_cluster:
  assumes "writeOne (cluster_store net) addr i dt (Sum dt) cl = (res, cl')" and "cluster_ok cl"
  shows "cluster_ok cl' \<and> (\<forall>a. a \<noteq> addr \<longrightarrow> cl' a = cl a) \<and> (\<forall>a j. j \<noteq> i \<longrightarrow> node_view (cl' a) j = node_view (cl a) j)
    \<and> (res = None \<longrightarrow> holds i dt (cl addr) (cl' addr))"
proof -
  let ?h = "\<lparr>hd_ChunkId = i, hd_SizeBytes = int (length dt), hd_ChecksumSha256 = Sum dt\<rparr>" and ?es = "map (\<lambda>d. Msg (Data d)) (chunks_of frameSize dt)"
  have m: "map Msg (Header ?h # map Data (chunks_of frameSize dt)) = Msg (Header ?h) # ?es" by simp
  obtain dv flt full where net: "net addr = (dv, flt, full)" by (cases "net addr")
  obtain r s' where st: "StoreChunk flt full (Msg (Header ?h) # ?es) (cl addr) = (r, s')"
    by (cases "StoreChunk flt full (Msg (Header ?h) # ?es) (cl addr)")
  have ok: "node_ok (cl addr)" using assms(2) by (simp add: cluster_ok_def)
  note any = StoreChunk_any [OF st ok, simplified]
  have cl': "cl' = cl \<or> cl' = cl(addr := s')"
    using assms(1) st by (cases dv) (auto simp: writeOne_def cluster_store_def m net simp del: list.map split: sum.splits if_splits prod.splits)
  have "holds i dt (cl addr) (cl' addr)" if none: "res = None"
  proof -
    obtain resp where r: "r = Inr resp" and c: "cl' = cl(addr := s')" and b: "sc_BytesWritten resp = int (length dt)"
      using assms(1) st none
      by (cases dv) (auto simp: writeOne_def cluster_store_def m net simp del: list.map split: sum.splits if_splits prod.splits)
    from st [unfolded r] ok show ?thesis
    proof (cases rule: StoreChunk_ok)
      case (1 h' es')
      have f: "0 < frameSize" by (simp add: frameSize_def)
      from 1 b c show ?thesis
        using stream_data_msgs(2) [of "chunks_of frameSize dt"] Sum_Valid(2) [of dt] by (auto simp: holds_def concat_chunks_of [OF f] split: if_splits)
    qed
  qed
  moreover have "cluster_ok cl'" using cl' assms(2) any by (auto simp: cluster_ok_def)
  ultimately show ?thesis using cl' any by auto
qed

lemma fanout_cluster:
  assumes "fanout (cluster_store net) i dt (Sum dt) order res cl = (res', cl')" and "cluster_ok cl" and "distinct (map snd order)"
  shows "cluster_ok cl' \<and> (\<forall>a. a \<notin> snd ` set order \<longrightarrow> cl' a = cl a) \<and> (\<forall>a j. j \<noteq> i \<longrightarrow> node_view (cl' a) j = node_view (cl a) j)
    \<and> (\<exists>S F. fr_Succeeded res' = fr_Succeeded res @ map fst S \<and> fr_Failed res' = fr_Failed res @ map fst F \<and> mset S + mset F = mset order
        \<and> (\<forall>t \<in> set S. holds i dt (cl (snd t)) (cl' (snd t))))"
  using assms
proof (induction order arbitrary: res cl)
  case Nil
  then show ?case by auto
next
  case (Cons t order)
  obtain n addr where t: "t = (n, addr)" by (cases t)
  obtain r cl1 where w: "writeOne (cluster_store net) addr i dt (Sum dt) cl = (r, cl1)"
    by (cases "writeOne (cluster_store net) addr i dt (Sum dt) cl")
  note one = writeOne_cluster [OF w Cons.prems(2)]
  define res1 where "res1 = (if r = None then res\<lparr>fr_Succeeded := fr_Succeeded res @ [n]\<rparr> else res\<lparr>fr_Failed := fr_Failed res @ [n]\<rparr>)"
  have f: "fanout (cluster_store net) i dt (Sum dt) order res1 cl1 = (res', cl')"
    using Cons.prems(1) w by (auto simp: t res1_def split: option.splits)
  have na: "addr \<notin> snd ` set order" "distinct (map snd order)" using Cons.prems(3) by (simp_all add: t)
  from Cons.IH [OF f _ na(2)] one obtain S F where
    ih: "cluster_ok cl'" "\<forall>a. a \<notin> snd ` set order \<longrightarrow> cl' a = cl1 a" "\<forall>a j. j \<noteq> i \<longrightarrow> node_view (cl' a) j = node_view (cl1 a) j"
    and sf: "fr_Succeeded res' = fr_Succeeded res1 @ map fst S" "fr_Failed res' = fr_Failed res1 @ map fst F" "mset S + mset F = mset order"
      "\<forall>t \<in> set S. holds i dt (cl1 (snd t)) (cl' (snd t))" by blast
  have same: "cl1 a = cl a" if "a \<in> snd ` set order" for a using one na(1) that by metis
  have S: "set S \<subseteq> set order" using sf(3) by (metis set_mset_mset set_mset_union Un_upper1)
  have old: "holds i dt (cl (snd x)) (cl' (snd x))" if "x \<in> set S" for x
    using sf(4) that same [of "snd x"] S by fastforce
  have new: "holds i dt (cl addr) (cl' addr)" if "r = None"
    using one that ih(2) na(1) by simp
  have frame: "\<forall>a. a \<notin> snd ` set (t # order) \<longrightarrow> cl' a = cl a" "\<forall>a j. j \<noteq> i \<longrightarrow> node_view (cl' a) j = node_view (cl a) j"
    using ih(2,3) one by (auto simp: t)
  show ?case
  proof (cases r)
    case None
    then show ?thesis using ih(1) frame sf(1-3) old new
      by (intro conjI exI [of _ "t # S"] exI [of _ F]) (simp_all add: res1_def t)
  next
    case (Some e)
    then show ?thesis using ih(1) frame sf(1-3) old
      by (intro conjI exI [of _ S] exI [of _ "t # F"]) (simp_all add: res1_def t)
  qed
qed

text \<open>
  C10 (quorum). In whatever order the concurrent calls take effect and whatever is lost on the way,
  every target is reported either as succeeded or as failed, a write is reported as durable only
  with the required number of successes, and every node reported as succeeded holds bytes of the
  length and digest of the chunk, namely the chunk itself unless it held the ID before. No other
  chunk on any node changes.
\<close>

theorem write_quorum:
  assumes ok: "cluster_ok cl" and d: "distinct (map fst targets)" "distinct (map snd targets)"
    and ord: "mset (order targets) = mset targets"
    and w: "ChunkWriter_Write (cluster_store net) order i dt (Sum dt) targets k cl = ((res, durability_error), cl')"
  shows "mset (fr_Succeeded res) + mset (fr_Failed res) = mset (map fst targets)
    \<and> (\<not> durability_error \<longrightarrow> k \<le> int (length (fr_Succeeded res)) \<and> targets \<noteq> [])
    \<and> (\<forall>n addr. (n, addr) \<in> set targets \<and> n \<in> set (fr_Succeeded res) \<longrightarrow> holds i dt (cl addr) (cl' addr))
    \<and> cluster_ok cl' \<and> (\<forall>a j. j \<noteq> i \<longrightarrow> node_view (cl' a) j = node_view (cl a) j)"
proof (cases "targets = []")
  case True
  then show ?thesis using w ok by (auto simp: ChunkWriter_Write_def)
next
  case False
  obtain res' where f: "fanout (cluster_store net) i dt (Sum dt) (order targets) \<lparr>fr_Succeeded = [], fr_Failed = []\<rparr> cl = (res', cl')"
    and r: "res = res'" "durability_error \<longleftrightarrow> int (length (fr_Succeeded res)) < k"
    using w False by (auto simp: ChunkWriter_Write_def split: prod.splits)
  have d': "distinct (map snd (order targets))" using d(2) ord by (metis mset_eq_imp_distinct_iff mset_map)
  from fanout_cluster [OF f ok d'] obtain S F where
    sf: "fr_Succeeded res = map fst S" "fr_Failed res = map fst F" "mset S + mset F = mset targets"
      "\<forall>t \<in> set S. holds i dt (cl (snd t)) (cl' (snd t))" "cluster_ok cl'" "\<forall>a j. j \<noteq> i \<longrightarrow> node_view (cl' a) j = node_view (cl a) j"
    unfolding r(1) ord by auto
  have S: "set S \<subseteq> set targets" using sf(3) by (metis set_mset_mset set_mset_union Un_upper1)
  have "holds i dt (cl addr) (cl' addr)" if a: "(n, addr) \<in> set targets" and b: "n \<in> set (fr_Succeeded res)" for n addr
  proof -
    obtain a' where "(n, a') \<in> set S" using b sf(1) by auto
    moreover from this have "a' = addr" using S a eq_key_imp_eq_value [OF d(1)] by blast
    ultimately show ?thesis using sf(4) by force
  qed
  moreover have "mset (fr_Succeeded res) + mset (fr_Failed res) = mset (map fst targets)"
    unfolding sf(1,2) mset_map sf(3) [symmetric] by simp
  ultimately show ?thesis using sf(5,6) r(2) False by auto
qed

lemma writeOne_succeeds:
  assumes "net addr = (Delivered, no_faults, None)" and "valid_id i" and "node_view (cl addr) i = None" and "node_ok (cl addr)"
    and "file_at (snd (cl addr)) (temp_path (fst (cl addr)) i (cs_tempSeq (fst (cl addr)) + 1)) = None"
  shows "\<exists>cl'. writeOne (cluster_store net) addr i dt (Sum dt) cl = (None, cl')"
proof -
  let ?h = "\<lparr>hd_ChunkId = i, hd_SizeBytes = int (length dt), hd_ChecksumSha256 = Sum dt\<rparr>" and ?es = "map (\<lambda>d. Msg (Data d)) (chunks_of frameSize dt)"
  have f: "0 < frameSize" by (simp add: frameSize_def)
  have sd: "stream_data store_payload ?es = (dt, False)" by (simp add: stream_data_msgs concat_chunks_of [OF f])
  obtain resp s' where st: "StoreChunk no_faults None (Msg (Header ?h) # ?es) (cl addr) = (Inr resp, s')"
    using StoreChunk_succeeds [of ?h "cl addr" ?es dt] assms(2,3,5) sd by auto
  from st assms(4) have "sc_BytesWritten resp = int (length dt) \<and> sc_ChecksumSha256 resp = Sum dt"
  proof (cases rule: StoreChunk_ok)
    case (1 h' es')
    then show ?thesis using assms(3) sd by (auto split: if_splits)
  qed
  with st assms(1) show ?thesis by (simp add: writeOne_def cluster_store_def comp_def)
qed

definition ex_cluster :: cluster where
  "ex_cluster addr = (ex_cs, ex_fs)"

definition ex_net :: "string \<Rightarrow> delivery \<times> (syscall \<Rightarrow> bool) \<times> nat option" where
  "ex_net addr = (if addr = ''a1'' then Delivered else LostRequest Unavailable, no_faults, None)"

lemma write_quorum_witness:
  "\<exists>cl'. ChunkWriter_Write (cluster_store ex_net) rev ex_id [1, 2, 3] (Sum [1, 2, 3]) [(''n1'', ''a1''), (''n2'', ''a2'')] 1 ex_cluster
       = ((\<lparr>fr_Succeeded = [''n1''], fr_Failed = [''n2'']\<rparr>, False), cl')
     \<and> node_view (cl' ''a1'') ex_id = Some [1, 2, 3]"
proof -
  have "\<exists>cl'. writeOne (cluster_store ex_net) ''a1'' ex_id [1, 2, 3] (Sum [1, 2, 3]) ex_cluster = (None, cl')"
    by (rule writeOne_succeeds) (simp_all add: ex_net_def ex_cluster_def ex_valid ex_node ex_fs_ok)
  then obtain cl' where one: "writeOne (cluster_store ex_net) ''a1'' ex_id [1, 2, 3] (Sum [1, 2, 3]) ex_cluster = (None, cl')" by blast
  have two: "writeOne (cluster_store ex_net) ''a2'' ex_id [1, 2, 3] (Sum [1, 2, 3]) ex_cluster = (Some (WriteRPC Unavailable), ex_cluster)"
    by (simp add: writeOne_def cluster_store_def ex_net_def)
  have w: "ChunkWriter_Write (cluster_store ex_net) rev ex_id [1, 2, 3] (Sum [1, 2, 3]) [(''n1'', ''a1''), (''n2'', ''a2'')] 1 ex_cluster
       = ((\<lparr>fr_Succeeded = [''n1''], fr_Failed = [''n2'']\<rparr>, False), cl')"
    by (simp add: ChunkWriter_Write_def one two)
  have ok: "cluster_ok ex_cluster" by (simp add: cluster_ok_def ex_cluster_def ex_fs_ok)
  from write_quorum [OF ok _ _ _ w] w show ?thesis by (auto simp: holds_def ex_cluster_def ex_node)
qed

end
