(* ===== verification/Node_Client.thy ===== *)
theory Node_Client
  imports Coordinator Chunk_Transfer
begin

text \<open>
  The calls of the coordinator to storage nodes. Connections and deadlines (\<^verbatim>\<open>internal/nodeclient\<close>, gRPC) are not
  modelled: a client is a record of operations on a world \<open>'w\<close>, and \<open>nc_Client\<close> says whether a connection
  to an address can be had. \<open>cluster_client\<close> is the client of a cluster of storage nodes that run
  \<^verbatim>\<open>internal/storage/service.go\<close>, over a network that may lose requests and answers.
\<close>

record 'w node_client =
  nc_Client :: "string \<Rightarrow> bool"
  nc_ReplicateChunk :: "string \<Rightarrow> ReplicateChunkRequest \<Rightarrow> 'w \<Rightarrow> (code + int \<times> bool) \<times> 'w"
  nc_CheckChunk :: "string \<Rightarrow> string \<Rightarrow> bool \<Rightarrow> 'w \<Rightarrow> (code + CheckResult) \<times> 'w"
  nc_DeleteChunk :: "string \<Rightarrow> string \<Rightarrow> 'w \<Rightarrow> (code + bool) \<times> 'w"
  nc_ListChunks :: "string \<Rightarrow> int \<Rightarrow> 'w \<Rightarrow> (code + InventoryEntry list recv list) \<times> 'w"

text \<open>What the network and the machine at an address do to one call.\<close>

record weather =
  wt_delivery :: delivery
  wt_flt :: "syscall \<Rightarrow> bool"
  wt_full :: "nat option"
  wt_read :: read_env
  wt_stat :: "path \<Rightarrow> stat_result"
  wt_mtime :: "path \<Rightarrow> time"
  wt_ctx :: "nat \<Rightarrow> code option"
  wt_send_fails :: "nat \<Rightarrow> bool"

definition deliver :: "delivery \<Rightarrow> ('a \<times> 'w) \<Rightarrow> 'w \<Rightarrow> (code \<Rightarrow> 'a) \<Rightarrow> 'a \<times> 'w" where
  "deliver d done_w w lost = (case d of
       LostRequest c \<Rightarrow> (lost c, w)
     | LostAnswer c \<Rightarrow> (lost c, snd done_w)
     | Delivered \<Rightarrow> done_w)"

definition at_node :: "string \<Rightarrow> (node_state \<Rightarrow> 'a \<times> node_state) \<Rightarrow> cluster \<Rightarrow> 'a \<times> cluster" where
  "at_node addr h cl = (case h (cl addr) of (r, s') \<Rightarrow> (r, cl(addr := s')))"

text \<open>A node that pulls a chunk reads it from the peer at the given address, as the gateway does.\<close>

definition peer_source :: "(string \<Rightarrow> weather) \<Rightarrow> cluster \<Rightarrow> string \<Rightarrow> ReadChunkRequest \<Rightarrow> bytes recv list option" where
  "peer_source net cl addr req =
     (case fst (cluster_read (\<lambda>a. (wt_delivery (net a), wt_flt (net a), wt_read (net a))) addr req cl) of
        Inl c \<Rightarrow> None | Inr es \<Rightarrow> Some es)"

definition cluster_client :: "(string \<Rightarrow> bool) \<Rightarrow> (string \<Rightarrow> weather) \<Rightarrow> cluster node_client" where
  "cluster_client dial net = \<lparr>
     nc_Client = dial,
     nc_ReplicateChunk = (\<lambda>addr req cl. deliver (wt_delivery (net addr))
       (at_node addr (ReplicateChunk (wt_flt (net addr)) (wt_full (net addr)) (peer_source net cl) req) cl) cl Inl),
     nc_CheckChunk = (\<lambda>addr i verify cl. deliver (wt_delivery (net addr)) (CheckChunk (wt_flt (net addr)) i verify (cl addr), cl) cl Inl),
     nc_DeleteChunk = (\<lambda>addr i cl. deliver (wt_delivery (net addr)) (at_node addr (DeleteChunk (wt_flt (net addr)) i) cl) cl Inl),
     nc_ListChunks = (\<lambda>addr n cl. deliver (wt_delivery (net addr))
       (case at_node addr (ListChunks (wt_stat (net addr)) (wt_mtime (net addr)) (wt_ctx (net addr)) (wt_send_fails (net addr)) n) cl of
          ((batches, status), cl') \<Rightarrow> (Inr (map Msg batches @ (case status of None \<Rightarrow> [] | Some c \<Rightarrow> [RecvErr c])), cl')) cl Inl)\<rparr>"

section \<open>What the answers of a node mean\<close>

lemma CheckChunk_ok:
  assumes "CheckChunk flt i verify s = Inr res"
  shows "cr_Exists res \<longleftrightarrow> node_view s i \<noteq> None"
    and "verify \<Longrightarrow> node_view s i = Some d \<Longrightarrow> cr_Checksum res = Sum d"
proof -
  have v: "valid_id i" using assms by (auto simp: CheckChunk_def valid_id_def split: if_splits)
  have p: "PathFor (fst s) i = Inr (chunk_path (fst s) i)" "node_view s i = file_at (snd s) (chunk_path (fst s) i)"
    using v by (simp_all add: PathFor_eq node_view_def)
  from assms have c: "ChunkStore_Check flt (fst s) (snd s) i verify = (res, None)"
    by (auto simp: CheckChunk_def split: if_splits option.splits prod.splits)
  show "cr_Exists res \<longleftrightarrow> node_view s i \<noteq> None"
    using c p by (auto simp: ChunkStore_Check_def Let_def split: if_splits option.splits sum.splits prod.splits)
  show "cr_Checksum res = Sum d" if "verify" "node_view s i = Some d"
    using c p that by (auto simp: ChunkStore_Check_def verifyFile_def Let_def Hex_digest split: if_splits option.splits sum.splits prod.splits)
qed

end
