(* ===== verification/Repair_Manager.thy ===== *)
theory Repair_Manager
  imports Node_Client
begin

text \<open>
  \<^verbatim>\<open>internal/coordinator/repair.go\<close>: the repair manager. A scan queues under-replicated chunks and trims
  over-replicated ones; a worker claims one job, picks a source and a destination, has the
  destination pull the chunk, asks it to verify its copy, and records the replica. The state is that
  of the coordinator, the number of repairs in flight per node, and the storage nodes. The goroutines
  and their tickers (\<^verbatim>\<open>Run\<close>, \<^verbatim>\<open>runScanner\<close>, \<^verbatim>\<open>runWorker\<close>) only repeat these operations. The text
  of an error is given by the argument \<open>msg\<close>.
\<close>

section \<open>Scanning\<close>

definition scanOnce :: "RepairConfig \<Rightarrow> (nat \<Rightarrow> time) \<Rightarrow> db \<Rightarrow> db" where
  "scanOnce cfg clock db =
     (let db1 = snd (ReclaimExpiredRepairLeases (clock 0) db);
          db2 = snd (EnqueueRepairs (rcf_ReplicationFactor cfg) (rcf_ScanBatch cfg) (clock 1) db1);
          db3 = snd (TrimOverReplicatedChunks (rcf_ReplicationFactor cfg) (rcf_ScanBatch cfg) (clock 2) db2)
      in snd (PurgeFinishedRepairJobs (rcf_HistoryRetention cfg) (rcf_ReplicationFactor cfg) 500 (clock 3) db3))"

section \<open>One repair\<close>

datatype repair_error =
    ErrNoSource | NoChecksum | NoDestination placement_error | PanicNoNode | DialDestination
  | ReplicateError code | VerifyError code | MissingAfterRepair | BadAfterRepair string | RepairStoreError db_error

type_synonym inflight = "(string \<times> int) list"

definition flying :: "inflight \<Rightarrow> string \<Rightarrow> int" where
  "flying fl i = (case map_of fl i of None \<Rightarrow> 0 | Some n \<Rightarrow> n)"

definition acquire_slot :: "string \<Rightarrow> inflight \<Rightarrow> inflight" where
  "acquire_slot i fl = AList.update i (flying fl i + 1) fl"

definition release_slot :: "string \<Rightarrow> inflight \<Rightarrow> inflight" where
  "release_slot i fl =
     (let n = flying fl i - 1 in if n \<le> 0 then AList.delete i fl else AList.update i n fl)"

definition pickDestination ::
  "'c service \<Rightarrow> RepairConfig \<Rightarrow> RepairTarget \<Rightarrow> 'c coord \<Rightarrow> inflight \<Rightarrow> (repair_error + NodeInfo) \<times> 'c coord \<times> inflight"
where
  "pickDestination s cfg target st fl =
     (let (nodes, st1) = healthyNodes s st;
          saturated = map fst (filter (\<lambda>(i, n). n \<ge> rcf_MaxPerNode cfg) fl)
      in (case sv_SelectNodes s nodes \<lparr>rq_Key = sv_String s (Job_ChunkID (rt_Job target)), rq_Replicas = 1,
                 rq_ChunkSize = rt_Size target, rq_Exclude = rt_Occupied target @ saturated\<rparr> of
            Inl e \<Rightarrow> (Inl (NoDestination e), st1, fl)
          | Inr [] \<Rightarrow> (Inl PanicNoNode, st1, fl)
          | Inr (dest # _) \<Rightarrow> (Inr dest, st1, acquire_slot (ni_ID dest) fl)))"

definition reportPhantomSource ::
  "'c service \<Rightarrow> 'w node_client \<Rightarrow> uuid \<Rightarrow> Replica \<Rightarrow> 'c coord \<Rightarrow> 'w \<Rightarrow> 'c coord \<times> 'w"
where
  "reportPhantomSource s nc chunkID source st w =
     (if \<not> nc_Client nc (Rep_Address source) then (st, w)
      else (case nc_CheckChunk nc (Rep_Address source) (sv_String s chunkID) False w of
              (Inl c, w1) \<Rightarrow> (st, w1)
            | (Inr check, w1) \<Rightarrow>
                if cr_Exists check then (st, w1)
                else (invalidateChunkOwnerCache s chunkID (st\<lparr>cn_db := DropReplica chunkID (Rep_NodeID source) (cn_db st)\<rparr>), w1)))"

text \<open>
  The copy itself, from the recorded plan to the recorded replica. \<^verbatim>\<open>defer release()\<close> is in
  \<open>executeRepair\<close>.
\<close>

definition copy_chunk ::
  "'c service \<Rightarrow> RepairConfig \<Rightarrow> 'w node_client \<Rightarrow> (repair_error \<Rightarrow> string) \<Rightarrow> (nat \<Rightarrow> time) \<Rightarrow> RepairTarget \<Rightarrow> Replica \<Rightarrow> NodeInfo
     \<Rightarrow> 'c coord \<Rightarrow> 'w \<Rightarrow> repair_error option \<times> 'c coord \<times> 'w"
where
  "copy_chunk s cfg nc msg clock target source dest st0 w0 =
     (let job = rt_Job target;
          chunkId = sv_String s (Job_ChunkID job);
          st = st0\<lparr>cn_db := RecordRepairPlan (Job_ID job) (Rep_NodeID source) (ni_ID dest) (clock 0) (cn_db st0)\<rparr>
      in if \<not> nc_Client nc (ni_Address dest) then (Some DialDestination, st, w0)
      else (case nc_ReplicateChunk nc (ni_Address dest) \<lparr>rp_ChunkId = chunkId, rp_SourceAddress = Rep_Address source,
                   rp_SizeBytes = rt_Size target, rp_ChecksumSha256 = rt_Checksum target\<rparr> w0 of
              (Inl c, w1) \<Rightarrow>
                if c = FailedPrecondition
                then (Some (ReplicateError c),
                      st\<lparr>cn_db := snd (MarkReplicaCorrupt (Job_ChunkID job) (Rep_NodeID source)
                            (''failed verification during repair: '' @ msg (ReplicateError c)) (clock 1) (cn_db st))\<rparr>, w1)
                else (case reportPhantomSource s nc (Job_ChunkID job) source st w1 of
                        (st1, w2) \<Rightarrow> (Some (ReplicateError c), st1, w2))
            | (Inr resp, w1) \<Rightarrow>
                (case nc_CheckChunk nc (ni_Address dest) chunkId True w1 of
                   (Inl c, w2) \<Rightarrow> (Some (VerifyError c), st, w2)
                 | (Inr check, w2) \<Rightarrow>
                     if \<not> cr_Exists check then (Some MissingAfterRepair, st, w2)
                     else if cr_Checksum check \<noteq> rt_Checksum target then (Some (BadAfterRepair (cr_Checksum check)), st, w2)
                     else (case CompleteRepair (Job_ID job) (Job_ChunkID job) (ni_ID dest) (clock 1) (cn_db st) of
                             (Inl e, db1) \<Rightarrow> (Some (RepairStoreError e), st\<lparr>cn_db := db1\<rparr>, w2)
                           | (Inr available, db1) \<Rightarrow>
                               (None, invalidateChunkOwnerCache s (Job_ChunkID job) (st\<lparr>cn_db := db1\<rparr>), w2)))))"

definition executeRepair ::
  "'c service \<Rightarrow> RepairConfig \<Rightarrow> 'w node_client \<Rightarrow> (repair_error \<Rightarrow> string) \<Rightarrow> (nat \<Rightarrow> time) \<Rightarrow> RepairTarget
     \<Rightarrow> 'c coord \<Rightarrow> inflight \<Rightarrow> 'w \<Rightarrow> repair_error option \<times> 'c coord \<times> inflight \<times> 'w"
where
  "executeRepair s cfg nc msg clock target st fl w =
     (let noop = (\<lambda>reason st. st\<lparr>cn_db := FinishRepairAsNoop (Job_ID (rt_Job target)) reason (clock 0) (cn_db st)\<rparr>)
      in if rt_DesiredReplicas target \<le> 0 then (None, noop ''already at full replication'' st, fl, w)
      else (case rt_Sources target of
              [] \<Rightarrow> (Some ErrNoSource, st, fl, w)
            | source # _ \<Rightarrow>
                if rt_Checksum target = [] then (Some NoChecksum, st, fl, w)
                else (case pickDestination s cfg target st fl of
                        (Inl e, st1, fl1) \<Rightarrow>
                          if e = NoDestination ErrInsufficientNodes \<and> rt_TransientOccupancy target > 0
                          then (None, noop (''deferred: all '' @ decimal_int (rt_TransientOccupancy target) @ '' candidate nodes hold a non-available replica row'') st1, fl1, w)
                          else (Some e, st1, fl1, w)
                      | (Inr dest, st1, fl1) \<Rightarrow>
                          (case copy_chunk s cfg nc msg clock target source dest st1 w of
                             (r, st2, w1) \<Rightarrow> (r, st2, release_slot (ni_ID dest) fl1, w1)))))"

section \<open>The worker\<close>

text \<open>\<^verbatim>\<open>backoffFor\<close>; a \<^verbatim>\<open>Duration\<close> has 64 bits.\<close>

fun backoff_loop :: "nat \<Rightarrow> duration \<Rightarrow> duration \<Rightarrow> duration" where
  "backoff_loop 0 mx d = d"
| "backoff_loop (Suc n) mx d = (if d < mx then backoff_loop n mx (wrap64 (d * 2)) else d)"

definition backoffFor :: "RepairConfig \<Rightarrow> int \<Rightarrow> duration" where
  "backoffFor cfg attempt =
     (let d = backoff_loop (nat (attempt - 1)) (rcf_MaxBackoff cfg) (rcf_BaseBackoff cfg)
      in if d > rcf_MaxBackoff cfg then rcf_MaxBackoff cfg else d)"

text \<open>\<open>cancelled\<close> says whether the context of the worker is done after the repair.\<close>

definition claimAndRepair ::
  "'c service \<Rightarrow> RepairConfig \<Rightarrow> string \<Rightarrow> 'w node_client \<Rightarrow> (repair_error \<Rightarrow> string) \<Rightarrow> bool \<Rightarrow> (nat \<Rightarrow> time)
     \<Rightarrow> 'c coord \<Rightarrow> inflight \<Rightarrow> 'w \<Rightarrow> (bool \<times> db_error option) \<times> 'c coord \<times> inflight \<times> 'w"
where
  "claimAndRepair s cfg owner nc msg cancelled clock st fl w =
     (case ClaimRepairJob owner (rcf_LeaseDuration cfg) (rcf_ReplicationFactor cfg) (clock 0) (cn_db st) of
        (Inl e, db1) \<Rightarrow>
          let st1 = st\<lparr>cn_db := db1\<rparr>
          in if e = ErrNoRepairWork then ((False, None), st1, fl, w)
             else if e = db_error.ErrNotFound then ((True, None), st1, fl, w)
             else ((False, Some e), st1, fl, w)
      | (Inr target, db1) \<Rightarrow>
          (case executeRepair s cfg nc msg (\<lambda>i. clock (i + 1)) target (st\<lparr>cn_db := db1\<rparr>) fl w of
             (None, st2, fl2, w2) \<Rightarrow> ((True, None), st2, fl2, w2)
           | (Some err, st2, fl2, w2) \<Rightarrow>
               if cancelled then ((True, None), st2, fl2, w2)
               else (case FailRepair (Job_ID (rt_Job target)) (msg err) (backoffFor cfg (Job_Attempts (rt_Job target)))
                            (rcf_MaxAttempts cfg) (clock 3) (cn_db st2) of
                       (Inl e, db3) \<Rightarrow> ((True, Some e), st2\<lparr>cn_db := db3\<rparr>, fl2, w2)
                     | (Inr terminal, db3) \<Rightarrow> ((True, None), st2\<lparr>cn_db := db3\<rparr>, fl2, w2))))"

end
