(* ===== verification/Reconciler.thy ===== *)
theory Reconciler
  imports Repair_Manager
begin

text \<open>
  \<^verbatim>\<open>internal/coordinator/reconcile.go\<close>: the reconciler compares what a node holds with what the metadata says
  it holds. Files without a replica row are queued for deletion; STALE replicas are verified page by page and become AVAILABLE,
  are dropped, or are marked corrupt. The map \<^verbatim>\<open>onDisk\<close> is a list without repetitions, so that the order of its
  iteration is that of the inventory.
\<close>

record ReconcileConfig =
  qc_Enabled :: bool
  qc_Interval :: duration
  qc_PageSize :: int
  qc_JobTimeout :: duration
  qc_LeaseDuration :: duration
  qc_VerifyChecksums :: bool

datatype reconcile_error =
    NoAddress | DialNode | ListError code | StreamError code | CheckError code | ReconcileStoreError db_error

fun queue_reconciles :: "node_id list \<Rightarrow> (nat \<Rightarrow> time) \<Rightarrow> db \<Rightarrow> db" where
  "queue_reconciles [] clock db = db"
| "queue_reconciles (i # ids) clock db = queue_reconciles ids (\<lambda>k. clock (k + 1)) (snd (EnqueueReconcile i (clock 0) db))"

definition sweepStaleNodes :: "(nat \<Rightarrow> time) \<Rightarrow> db \<Rightarrow> db" where
  "sweepStaleNodes clock db = queue_reconciles (NodesWithStaleReplicas 32 db) clock db"

section \<open>The inventory\<close>

definition note_file :: "('c service) \<Rightarrow> uuid list \<times> int \<Rightarrow> InventoryEntry \<Rightarrow> uuid list \<times> int" where
  "note_file s acc entry =
     (case sv_Parse s (ie_ChunkID entry) of
        None \<Rightarrow> acc
      | Some i \<Rightarrow> (List.insert i (fst acc), snd acc + 1))"

fun read_inventory :: "'c service \<Rightarrow> InventoryEntry list recv list \<Rightarrow> uuid list \<times> int \<Rightarrow> reconcile_error + uuid list \<times> int" where
  "read_inventory s [] acc = Inr acc"
| "read_inventory s (RecvErr c # es) acc = Inl (StreamError c)"
| "read_inventory s (Msg batch # es) acc = read_inventory s es (foldl (note_file s) acc batch)"

section \<open>Orphans\<close>

fun queue_orphans :: "node_id \<Rightarrow> (uuid \<Rightarrow> replica_state option) \<Rightarrow> uuid list \<Rightarrow> (nat \<Rightarrow> time) \<Rightarrow> int \<Rightarrow> db \<Rightarrow> int \<times> db" where
  "queue_orphans nodeID known [] clock n db = (n, db)"
| "queue_orphans nodeID known (i # ids) clock n db =
     (if known i \<noteq> None then queue_orphans nodeID known ids clock n db
      else (case QueueOrphanDeletion i nodeID (clock 0) db of
              (enq, db1) \<Rightarrow> queue_orphans nodeID known ids (\<lambda>k. clock (k + 1)) (if enq then n + 1 else n) db1))"

section \<open>Stale replicas\<close>

definition verifyReplica :: "'c service \<Rightarrow> ReconcileConfig \<Rightarrow> 'w node_client \<Rightarrow> string \<Rightarrow> StaleReplica \<Rightarrow> 'w \<Rightarrow> (reconcile_error + bool) \<times> 'w" where
  "verifyReplica s cfg nc addr rep w =
     (case nc_CheckChunk nc addr (sv_String s (sr_ChunkID rep)) (qc_VerifyChecksums cfg) w of
        (Inl c, w1) \<Rightarrow> (Inl (CheckError c), w1)
      | (Inr resp, w1) \<Rightarrow>
          (Inr (if \<not> cr_Exists resp then False
                else if cr_SizeBytes resp \<noteq> sr_Size rep then False
                else if qc_VerifyChecksums cfg then sr_Checksum rep \<noteq> [] \<and> cr_Checksum resp = sr_Checksum rep
                else True), w1))"

text \<open>One STALE replica: dropped if the file is missing, promoted if it is good, marked corrupt otherwise.\<close>

definition check_stale ::
  "'c service \<Rightarrow> ReconcileConfig \<Rightarrow> 'w node_client \<Rightarrow> ReconcileJob \<Rightarrow> uuid list \<Rightarrow> (nat \<Rightarrow> time) \<Rightarrow> StaleReplica
     \<Rightarrow> ReconcileResult \<Rightarrow> 'c coord \<Rightarrow> 'w \<Rightarrow> (reconcile_error + ReconcileResult) \<times> 'c coord \<times> 'w"
where
  "check_stale s cfg nc job onDisk clock rep res st w =
     (let cid = sr_ChunkID rep; node = rj_NodeID job
      in if cid \<notin> set onDisk
         then (Inr (res\<lparr>rr_PhantomsFound := rr_PhantomsFound res + 1\<rparr>),
               invalidateChunkOwnerCache s cid (st\<lparr>cn_db := DropReplica cid node (cn_db st)\<rparr>), w)
         else (case verifyReplica s cfg nc (rj_Address job) rep w of
                 (Inl e, w1) \<Rightarrow> (Inl e, st, w1)
               | (Inr True, w1) \<Rightarrow>
                   (case PromoteVerifiedReplica cid node (clock 0) (cn_db st) of
                      (promoted, db1) \<Rightarrow>
                        if promoted
                        then (Inr (res\<lparr>rr_Verified := rr_Verified res + 1\<rparr>), invalidateChunkOwnerCache s cid (st\<lparr>cn_db := db1\<rparr>), w1)
                        else (Inr res, st\<lparr>cn_db := db1\<rparr>, w1))
               | (Inr False, w1) \<Rightarrow>
                   (case MarkReplicaCorrupt cid node ''failed verification during reconciliation'' (clock 0) (cn_db st) of
                      (Inl e, db1) \<Rightarrow> (Inl (ReconcileStoreError e), st\<lparr>cn_db := db1\<rparr>, w1)
                    | (Inr _, db1) \<Rightarrow>
                        (Inr (res\<lparr>rr_CorruptFound := rr_CorruptFound res + 1\<rparr>), invalidateChunkOwnerCache s cid (st\<lparr>cn_db := db1\<rparr>), w1))))"

fun check_page ::
  "'c service \<Rightarrow> ReconcileConfig \<Rightarrow> 'w node_client \<Rightarrow> ReconcileJob \<Rightarrow> uuid list \<Rightarrow> (nat \<Rightarrow> time) \<Rightarrow> StaleReplica list
     \<Rightarrow> ReconcileResult \<Rightarrow> 'c coord \<Rightarrow> 'w \<Rightarrow> (reconcile_error + ReconcileResult) \<times> 'c coord \<times> 'w"
where
  "check_page s cfg nc job onDisk clock [] res st w = (Inr res, st, w)"
| "check_page s cfg nc job onDisk clock (rep # reps) res st w =
     (case check_stale s cfg nc job onDisk clock rep res st w of
        (Inl e, st1, w1) \<Rightarrow> (Inl e, st1, w1)
      | (Inr res1, st1, w1) \<Rightarrow> check_page s cfg nc job onDisk (\<lambda>k. clock (k + 1)) reps res1 st1 w1)"

text \<open>The pages advance by chunk ID, so there are finitely many.\<close>

lemma stale_page_after: "rep \<in> set (StaleReplicasOnNode node after limit db) \<Longrightarrow> after < sr_ChunkID rep"
  using set_sql_limit by (fastforce simp: StaleReplicasOnNode_def)

definition ids_after :: "uuid \<Rightarrow> nat" where
  "ids_after i = 2 ^ 128 - unat i"

lemma stale_page_measure:
  assumes "StaleReplicasOnNode node after limit db \<noteq> []"
  shows "ids_after (sr_ChunkID (last (StaleReplicasOnNode node after limit db))) < ids_after after"
proof -
  have "after < sr_ChunkID (last (StaleReplicasOnNode node after limit db))"
    using stale_page_after last_in_set [OF assms] by blast
  then show ?thesis using unsigned_less [of "sr_ChunkID (last (StaleReplicasOnNode node after limit db))", where 'a = nat]
    by (simp add: word_less_nat_alt ids_after_def)
qed

function stale_pages ::
  "'c service \<Rightarrow> ReconcileConfig \<Rightarrow> 'w node_client \<Rightarrow> ReconcileJob \<Rightarrow> uuid list \<Rightarrow> (nat \<Rightarrow> time) \<Rightarrow> uuid
     \<Rightarrow> ReconcileResult \<Rightarrow> 'c coord \<Rightarrow> 'w \<Rightarrow> (reconcile_error + ReconcileResult) \<times> 'c coord \<times> 'w"
where
  "stale_pages s cfg nc job onDisk clock after res st w =
     (let stale = StaleReplicasOnNode (rj_NodeID job) after (qc_PageSize cfg) (cn_db st)
      in if stale = [] then (Inr res, st, w)
         else (case check_page s cfg nc job onDisk clock stale res st w of
                 (Inl e, st1, w1) \<Rightarrow> (Inl e, st1, w1)
               | (Inr res1, st1, w1) \<Rightarrow>
                   if int (length stale) < qc_PageSize cfg then (Inr res1, st1, w1)
                   else stale_pages s cfg nc job onDisk (\<lambda>k. clock (k + length stale)) (sr_ChunkID (last stale)) res1 st1 w1))"
  by pat_completeness auto
termination
  by (relation "measure (\<lambda>(s, cfg, nc, job, onDisk, clock, after, res, st, w). ids_after after)")
    (simp_all add: stale_page_measure)

declare stale_pages.simps [simp del]

section \<open>One reconciliation\<close>

definition reconcileNode ::
  "'c service \<Rightarrow> ReconcileConfig \<Rightarrow> 'w node_client \<Rightarrow> ReconcileJob \<Rightarrow> (nat \<Rightarrow> time) \<Rightarrow> 'c coord \<Rightarrow> 'w
     \<Rightarrow> (reconcile_error + ReconcileResult) \<times> 'c coord \<times> 'w"
where
  "reconcileNode s cfg nc job clock st w =
     (if rj_Address job = [] then (Inl NoAddress, st, w)
      else if \<not> nc_Client nc (rj_Address job) then (Inl DialNode, st, w)
      else let known = ChunkIDsKnownOnNode (rj_NodeID job) (cn_db st)
      in (case nc_ListChunks nc (rj_Address job) (wrap32 (qc_PageSize cfg)) w of
            (Inl c, w1) \<Rightarrow> (Inl (ListError c), st, w1)
          | (Inr stream, w1) \<Rightarrow>
              (case read_inventory s stream ([], 0) of
                 Inl e \<Rightarrow> (Inl e, st, w1)
               | Inr (onDisk, seen) \<Rightarrow>
                   (case queue_orphans (rj_NodeID job) known onDisk clock 0 (cn_db st) of
                      (orphans, db1) \<Rightarrow>
                        stale_pages s cfg nc job onDisk (\<lambda>k. clock (k + length onDisk)) 0
                          \<lparr>rr_ChunksSeen = seen, rr_OrphansFound = orphans, rr_PhantomsFound = 0, rr_Verified = 0, rr_CorruptFound = 0\<rparr>
                          (st\<lparr>cn_db := db1\<rparr>) w1))))"

text \<open>\<^verbatim>\<open>runOne\<close> returns whether there was a job, and the error of the store, if any; \<open>cancelled\<close> is the state of its context.\<close>

definition runOne ::
  "'c service \<Rightarrow> ReconcileConfig \<Rightarrow> string \<Rightarrow> 'w node_client \<Rightarrow> (reconcile_error \<Rightarrow> string) \<Rightarrow> bool \<Rightarrow> (nat \<Rightarrow> time)
     \<Rightarrow> 'c coord \<Rightarrow> 'w \<Rightarrow> (bool \<times> db_error option) \<times> 'c coord \<times> 'w"
where
  "runOne s cfg owner nc msg cancelled clock st w =
     (case ClaimReconcileJob owner (qc_LeaseDuration cfg) (clock 0) (cn_db st) of
        (Inl e, db1) \<Rightarrow> ((False, if e = ErrNoReconcileWork then None else Some e), st\<lparr>cn_db := db1\<rparr>, w)
      | (Inr job, db1) \<Rightarrow>
          (case reconcileNode s cfg nc job (\<lambda>k. clock (k + 3)) (st\<lparr>cn_db := db1\<rparr>) w of
             (Inl e, st2, w2) \<Rightarrow>
               if cancelled then ((True, None), st2, w2)
               else ((True, None), st2\<lparr>cn_db := FailReconcile (rj_ID job) (msg e) (clock 1) (cn_db st2)\<rparr>, w2)
           | (Inr res, st2, w2) \<Rightarrow>
               let db3 = CompleteReconcile (rj_ID job) res (clock 1) (cn_db st2)
               in ((True, None), st2\<lparr>cn_db := (case sv_repair s of None \<Rightarrow> db3 | Some rm \<Rightarrow> OnNodeRecovered rm (clock 2) db3)\<rparr>, w2)))"

end
