(* ===== verification/Workers.thy ===== *)
theory Workers
  imports Reconciler
begin

text \<open>
  \<^verbatim>\<open>internal/coordinator/workers.go\<close>: the periodic work of the coordinator. The health worker turns the silence of a
  node into a transition, the garbage collector reclaims storage, and the auditor recomputes the replica counters.
  A worker is the body of its loop; the tickers are left out, and so is the statistics worker, which only
  publishes metrics.
\<close>

section \<open>Health\<close>

fun rehydrate_nodes :: "Node list \<Rightarrow> (nat \<Rightarrow> time) \<Rightarrow> 'c coord \<Rightarrow> db_error option \<times> 'c coord" where
  "rehydrate_nodes [] clock st = (None, st)"
| "rehydrate_nodes (n # ns) clock st =
     (let mon = Seed (cn_monitor st) (Node_ID n) (Node_Address n) (Node_LastHeartbeatAt n) (clock 0);
          st1 = st\<lparr>cn_monitor := mon\<rparr>;
          h = State mon (Node_ID n)
      in if h \<noteq> Node_Health n
         then (case SetNodeHealth (Node_ID n) h (clock 1) (cn_db st1) of
                 (Inl e, db1) \<Rightarrow> (Some e, st1\<lparr>cn_db := db1\<rparr>)
               | (Inr _, db1) \<Rightarrow> rehydrate_nodes ns (\<lambda>k. clock (k + 2)) (st1\<lparr>cn_db := db1\<rparr>))
         else rehydrate_nodes ns (\<lambda>k. clock (k + 2)) st1)"

definition Rehydrate :: "(nat \<Rightarrow> time) \<Rightarrow> 'c coord \<Rightarrow> db_error option \<times> 'c coord" where
  "Rehydrate clock st = rehydrate_nodes (ListNodes False (cn_db st)) clock st"

fun on_transitions :: "'c service \<Rightarrow> transition list \<Rightarrow> (nat \<Rightarrow> time) \<Rightarrow> 'c coord \<Rightarrow> 'c coord" where
  "on_transitions s [] clock st = st"
| "on_transitions s (t # ts) clock st = on_transitions s ts (\<lambda>k. clock (k + 4)) (onTransition s t clock st)"

definition health_tick :: "'c service \<Rightarrow> (nat \<Rightarrow> time) \<Rightarrow> 'c coord \<Rightarrow> 'c coord" where
  "health_tick s clock st =
     (case Sweep (cn_monitor st) (clock 0) of
        (ts, mon) \<Rightarrow> on_transitions s ts (\<lambda>k. clock (k + 1)) (st\<lparr>cn_monitor := mon\<rparr>))"

section \<open>Garbage collection\<close>

definition deletionMaxAttempts :: int where
  "deletionMaxAttempts = 8"

datatype delete_error = DialError | DeleteRPC code

definition deleteOne :: "'c service \<Rightarrow> 'w node_client \<Rightarrow> PendingDeletion \<Rightarrow> 'w \<Rightarrow> delete_error option \<times> 'w" where
  "deleteOne s nc job w =
     (if pd_Address job = [] then (None, w)
      else if \<not> nc_Client nc (pd_Address job) then (Some DialError, w)
      else (case nc_DeleteChunk nc (pd_Address job) (sv_String s (pd_ChunkID job)) w of
              (Inl c, w1) \<Rightarrow> (if c = NotFound then None else Some (DeleteRPC c), w1)
            | (Inr existed, w1) \<Rightarrow> (None, w1)))"

text \<open>The loop over the leased jobs; \<open>cancelled i\<close> is the state of the context before job \<open>i\<close>.\<close>

fun deletion_loop ::
  "'c service \<Rightarrow> 'w node_client \<Rightarrow> (delete_error \<Rightarrow> string) \<Rightarrow> duration \<Rightarrow> (nat \<Rightarrow> bool) \<Rightarrow> (nat \<Rightarrow> time) \<Rightarrow> PendingDeletion list
     \<Rightarrow> db \<Rightarrow> 'w \<Rightarrow> db_error option \<times> db \<times> 'w"
where
  "deletion_loop s nc msg interval cancelled clock [] db w = (None, db, w)"
| "deletion_loop s nc msg interval cancelled clock (job # jobs) db w =
     (if cancelled 0 then (None, db, w)
      else (case deleteOne s nc job w of
              (Some err, w1) \<Rightarrow>
                (case FailDeletion (pd_ID job) (msg err) (wrap64 (pd_Attempts job * interval)) deletionMaxAttempts (clock 0) db of
                   (Inl e, db1) \<Rightarrow> (Some e, db1, w1)
                 | (Inr _, db1) \<Rightarrow> deletion_loop s nc msg interval (\<lambda>k. cancelled (k + 1)) (\<lambda>k. clock (k + 1)) jobs db1 w1)
            | (None, w1) \<Rightarrow>
                (case FinishDeletion (pd_ID job) (pd_ChunkID job) (pd_NodeID job) db of
                   (Inl e, db1) \<Rightarrow> (Some e, db1, w1)
                 | (Inr _, db1) \<Rightarrow> deletion_loop s nc msg interval (\<lambda>k. cancelled (k + 1)) (\<lambda>k. clock (k + 1)) jobs db1 w1)))"

record gc_config =
  gc_interval :: duration
  gc_batch :: int

definition processDeletions ::
  "'c service \<Rightarrow> gc_config \<Rightarrow> 'w node_client \<Rightarrow> (delete_error \<Rightarrow> string) \<Rightarrow> (nat \<Rightarrow> bool) \<Rightarrow> (nat \<Rightarrow> time) \<Rightarrow> db \<Rightarrow> 'w \<Rightarrow> db_error option \<times> db \<times> 'w"
where
  "processDeletions s gc nc msg cancelled clock db w =
     (case ClaimDeletions (gc_batch gc) (wrap64 (2 * gc_interval gc)) (clock 0) db of
        (jobs, db1) \<Rightarrow> deletion_loop s nc msg (gc_interval gc) cancelled (\<lambda>k. clock (k + 1)) jobs db1 w)"

definition gc_cycle ::
  "'c service \<Rightarrow> gc_config \<Rightarrow> 'w node_client \<Rightarrow> (delete_error \<Rightarrow> string) \<Rightarrow> (nat \<Rightarrow> bool) \<Rightarrow> (nat \<Rightarrow> time) \<Rightarrow> db \<Rightarrow> 'w \<Rightarrow> db_error option \<times> db \<times> 'w"
where
  "gc_cycle s gc nc msg cancelled clock db w =
     (case ReapStaleUploads (cf_UploadStaleAfter (sv_cfg s)) (gc_batch gc) (clock 0) db of
        (Inl e, db1) \<Rightarrow> (Some e, db1, w)
      | (Inr _, db1) \<Rightarrow>
          (case ReapStaleMultipartUploads (cf_UploadStaleAfter (sv_cfg s)) (gc_batch gc) (clock 1) db1 of
             ((_, Some e), db2) \<Rightarrow> (Some e, db2, w)
           | ((_, None), db2) \<Rightarrow>
               (case processDeletions s gc nc msg cancelled (\<lambda>k. clock (k + 4)) db2 w of
                  (Some e, db3, w3) \<Rightarrow> (Some e, db3, w3)
                | (None, db3, w3) \<Rightarrow>
                    (case PurgeReclaimedChunks (gc_batch gc) db3 of
                       (Inl e, db4) \<Rightarrow> (Some e, db4, w3)
                     | (Inr _, db4) \<Rightarrow>
                         (None, snd (PurgeCompletedMultipartUploads (3600 * 10 ^ 9) (gc_batch gc) (clock 2) db4), w3)))))"

section \<open>The auditor\<close>

text \<open>The drift found and the corrected database.\<close>

definition audit_tick :: "db \<Rightarrow> int \<times> db" where
  "audit_tick db = VerifyDurabilityCounters db"

end
