(* ===== verification/Coordinator_Cache.thy ===== *)
theory Coordinator_Cache
  imports Workers
begin

text \<open>
  The coordinator as a whole: all handlers and workers keep the invariants of the store, and the cache agrees with
  the database. A cached object is the current version of its key, as long as the calls of the coordinator do not
  overlap and invalidations reach the cache.
\<close>

section \<open>What the handlers do to the database\<close>

lemma cn_db_cache [simp]:
  "cn_db (invalidateNodeCache s st) = cn_db st" "cn_db (invalidateObject s b k st) = cn_db st"
  "cn_db (invalidateUpload s u st) = cn_db st" "cn_db (cacheUpload s mu st) = cn_db st"
  "cn_db (invalidateChunkOwnerCache s cid st) = cn_db st"
  by (simp_all add: invalidateNodeCache_def invalidateObject_def invalidateUpload_def cacheUpload_def invalidateChunkOwnerCache_def split: sum.split)

lemma cn_db_reads [simp]: "cn_db (snd (healthyNodes s st)) = cn_db st" "cn_db (snd (loadUpload s i st)) = cn_db st"
  by (auto simp: healthyNodes_def loadUpload_def Let_def split: prod.splits get_reply.splits cache_value.splits sum.splits)

lemma cn_db_reads_eq: "healthyNodes s st = (ns, st') \<Longrightarrow> cn_db st' = cn_db st" "loadUpload s i st = (r, st') \<Longrightarrow> cn_db st' = cn_db st"
  using cn_db_reads(1) [of s st] cn_db_reads(2) [of s i st] by simp_all

lemma unnoticed_OnNodeRecovered: "unnoticed db (OnNodeRecovered cfg now db)"
  using unnoticed_repair(7) by (simp add: OnNodeRecovered_def)

lemma unnoticed_onNodeRejoined: "unnoticed (cn_db st) (cn_db (onNodeRejoined s i clock st))"
proof -
  obtain n db1 where 1: "MarkReplicasStaleOnNode i (clock 0) (cn_db st) = (n, db1)" by fastforce
  obtain r db2 where 2: "EnqueueReconcile i (clock 1) db1 = (r, db2)" by fastforce
  have "unnoticed (cn_db st) db2" using unnoticed_trans [OF unnoticed_eqs(4) [OF 1] unnoticed_eqs(5) [OF 2]] .
  then show ?thesis using unnoticed_trans [OF _ unnoticed_OnNodeRecovered]
    by (auto simp: onNodeRejoined_def 1 2 [simplified] Let_def split: sum.splits option.splits)
qed


lemma unnoticed_onTransition: "unnoticed (cn_db st) (cn_db (onTransition s t clock st))"
proof -
  let ?st = "invalidateNodeCache s (st\<lparr>cn_db := snd (SetNodeHealth (tr_NodeID t) (tr_To t) (clock 0) (cn_db st))\<rparr>)"
  have "unnoticed (cn_db st) (cn_db ?st)" by (simp add: unnoticed_nodes(3))
  then show ?thesis using unnoticed_trans [OF _ unnoticed_onNodeRejoined [of ?st]]
    by (auto simp: onTransition_def Let_def)
qed

lemma unnoticed_schedule: "unnoticed db (snd (schedule_reconciles ids clock db))"
proof (induction ids clock db rule: schedule_reconciles.induct)
  case (2 i ids clock db)
  obtain r db1 where 1: "EnqueueReconcile i (clock 0) db = (r, db1)" by fastforce
  have q: "unnoticed db db1" by (rule unnoticed_eqs(5) [OF 1])
  show ?case
  proof (cases r)
    case (Inr enq)
    then show ?thesis using unnoticed_trans [OF q 2 [OF 1 [symmetric] Inr]] 1
      by (auto split: prod.splits sum.splits)
  qed (use 1 q in simp)
qed simp

named_theorems handler_quiet \<open>handlers and workers that readers do not notice\<close>

lemma unnoticed_RegisterNode [handler_quiet]: "unnoticed (cn_db st) (cn_db (snd (Service_RegisterNode s req clock st)))"
proof -
  obtain r db1 where 1: "UpsertNode (rn_NodeId req) (rn_GrpcAddress req) StateHealthy (toStoreStats (rn_Stats req)) (clock 0) (clock 1) (cn_db st) = (r, db1)"
    by fastforce
  have q: "unnoticed (cn_db st) db1" by (rule unnoticed_eqs(1) [OF 1])
  have q': "unnoticed (cn_db st) (cn_db (onNodeRejoined s i cl st1))" if "cn_db st1 = db1" for i cl st1
    using unnoticed_trans [OF q] unnoticed_onNodeRejoined [of st1 s i cl] that by simp
  show ?thesis using q q' 1 by (auto simp: Service_RegisterNode_def Let_def split: sum.split)
qed

lemma unnoticed_Heartbeat [handler_quiet]: "unnoticed (cn_db st) (cn_db (snd (Service_Heartbeat s req clock st)))"
proof -
  obtain r db1 where 1: "RecordHeartbeat (rn_NodeId req) (rn_GrpcAddress req) (toStoreStats (rn_Stats req)) StateHealthy (clock 0) (clock 1) (cn_db st) = (r, db1)"
    by fastforce
  have q: "unnoticed (cn_db st) db1" by (rule unnoticed_eqs(2) [OF 1])
  have q': "unnoticed (cn_db st) (cn_db (onTransition s t cl st1))" if "cn_db st1 = db1" for t cl st1
    using unnoticed_trans [OF q] unnoticed_onTransition [of st1 s t cl] that by simp
  show ?thesis using q q' 1 by (auto simp: Service_Heartbeat_def Let_def split: sum.split prod.split option.split)
qed

lemma unnoticed_uploads_rpc [handler_quiet]:
  "unnoticed (cn_db st) (cn_db (snd (Service_BeginUpload s bureq newID clock st)))"
  "unnoticed (cn_db st) (cn_db (snd (Service_CommitChunk s creq clock st)))"
  "unnoticed (cn_db st) (cn_db (snd (Service_AbortUpload s i reason clock st)))"
  by (auto simp: Service_BeginUpload_def Service_CommitChunk_def Service_AbortUpload_def
      split: option.split prod.split sum.split dest: unnoticed_eqs)

lemma unnoticed_AllocateChunk [handler_quiet]: "unnoticed (cn_db st) (cn_db (snd (Service_AllocateChunk s req newID clock st)))"
proof (cases "parseOwner s (ac_ObjectId req) (ac_PartId req)")
  case (Inr owner)
  obtain nodes st1 where h: "healthyNodes s st = (nodes, st1)" by fastforce
  then have db: "cn_db st1 = cn_db st" using cn_db_reads(1) [of s st] by simp
  obtain r db1 where 1: "ReserveChunk owner (ac_ChunkIndex req) (ac_SizeBytes req) newID (clock 0) (cn_db st1) = (r, db1)" by fastforce
  have q: "unnoticed (cn_db st) db1" using unnoticed_snd [OF unnoticed_chunks(1) 1] db by simp
  have q2: "unnoticed (cn_db st) db2" if "RecordChunkTargets cid ts now db1 = (r2, db2)" for cid ts now r2 db2
    using unnoticed_trans [OF q unnoticed_snd [OF unnoticed_chunks(2) that]] .
  show ?thesis using q q2 h 1 Inr by (auto simp: Service_AllocateChunk_def split: sum.split prod.split)
qed (simp add: Service_AllocateChunk_def)

lemma unnoticed_reports [handler_quiet]:
  "unnoticed (cn_db st) (cn_db (snd (Service_ReportCorruptReplica s chunkId nodeId detail clock st)))"
  "unnoticed (cn_db st) (cn_db (snd (Service_TriggerReconcile s nodeId clock st)))"
proof -
  have q: "unnoticed db db2" if "MarkReplicaCorrupt cid n d t db = (r, db1)" "EnqueueRepairs rf l t' db1 = (k, db2)" for cid n d t db r db1 rf l t' k db2
    using unnoticed_trans [OF unnoticed_snd [OF unnoticed_repair(8) that(1)] unnoticed_snd [OF unnoticed_repair(1) that(2)]] .
  show "unnoticed (cn_db st) (cn_db (snd (Service_ReportCorruptReplica s chunkId nodeId detail clock st)))"
    by (auto simp: Service_ReportCorruptReplica_def Let_def split: option.split prod.split sum.split
        intro: q dest: unnoticed_snd [OF unnoticed_repair(8)])
  show "unnoticed (cn_db st) (cn_db (snd (Service_TriggerReconcile s nodeId clock st)))"
    by (auto simp: Service_TriggerReconcile_def split: sum.split prod.split dest: unnoticed_snd [OF unnoticed_schedule] simp del: schedule_reconciles.simps)
qed

lemma unnoticed_multipart_rpc [handler_quiet]:
  "unnoticed (cn_db st) (cn_db (snd (Service_CreateMultipartUpload s bureq newID clock st)))"
  "unnoticed (cn_db st) (cn_db (snd (Service_CompletePart s preq clock st)))"
  "unnoticed (cn_db st) (cn_db (snd (Service_AbortMultipartUpload s i clock st)))"
  by (auto simp: Service_CreateMultipartUpload_def Service_CompletePart_def Service_AbortMultipartUpload_def
      split: option.split prod.split sum.split dest: unnoticed_eqs)

lemma unnoticed_BeginPart [handler_quiet]: "unnoticed (cn_db st) (cn_db (snd (Service_BeginPart s i pn newID clock st)))"
proof (cases "sv_Parse s i")
  case (Some u)
  obtain r st1 where l: "loadUpload s u st = (r, st1)" by fastforce
  then have "cn_db st1 = cn_db st" using cn_db_reads(2) [of s u st] by simp
  then show ?thesis using Some l by (auto simp: Service_BeginPart_def split: prod.split sum.split dest: unnoticed_eqs)
qed (simp add: Service_BeginPart_def)


section \<open>What the workers do to the database\<close>

lemma unnoticed_scanOnce [handler_quiet]: "unnoticed db (scanOnce cfg clock db)"
  unfolding scanOnce_def Let_def
  by (rule unnoticed_trans [OF unnoticed_repair(3)], rule unnoticed_trans [OF unnoticed_repair(1)],
      rule unnoticed_trans [OF unnoticed_repair(2)], rule unnoticed_repair(9))

lemma cn_db_pickDestination: "pickDestination s cfg target st fl = (r, st1, fl1) \<Longrightarrow> cn_db st1 = cn_db st"
  by (auto simp: pickDestination_def Let_def split: prod.splits sum.splits list.splits dest: cn_db_reads_eq)

lemma unnoticed_copy_chunk:
  assumes "copy_chunk s cfg nc msg clock target source dest st w = (r, st', w')"
  shows "unnoticed (cn_db st) (cn_db st')"
proof -
  let ?db = "RecordRepairPlan (Job_ID (rt_Job target)) (Rep_NodeID source) (ni_ID dest) (clock 0) (cn_db st)"
  have "cn_db st' \<in> {?db, DropReplica (Job_ChunkID (rt_Job target)) (Rep_NodeID source) ?db}
      \<or> (\<exists>d. cn_db st' = snd (MarkReplicaCorrupt (Job_ChunkID (rt_Job target)) (Rep_NodeID source) d (clock 1) ?db))
      \<or> cn_db st' = snd (CompleteRepair (Job_ID (rt_Job target)) (Job_ChunkID (rt_Job target)) (ni_ID dest) (clock 1) ?db)"
    using assms
    by (auto simp: copy_chunk_def reportPhantomSource_def Let_def split: if_splits prod.splits sum.splits)
  then have "unnoticed ?db (cn_db st')"
    using unnoticed_updates(3) unnoticed_repair(5,8) by auto
  then show ?thesis by (rule unnoticed_trans [OF unnoticed_updates(1)])
qed

lemma unnoticed_executeRepair:
  assumes "executeRepair s cfg nc msg clock target st fl w = (r, st', fl', w')"
  shows "unnoticed (cn_db st) (cn_db st')"
proof (cases "rt_Sources target")
  case (Cons source rest)
  obtain d st1 fl1 where p: "pickDestination s cfg target st fl = (d, st1, fl1)" by (metis prod_cases3)
  have "unnoticed (cn_db st) (cn_db st2)" if "copy_chunk s cfg nc msg clock target source dest st1 w = (r2, st2, w2)" for dest r2 st2 w2
    using unnoticed_copy_chunk [OF that] cn_db_pickDestination [OF p] by simp
  then show ?thesis
    using assms p Cons cn_db_pickDestination [OF p] unnoticed_updates(2)
    by (auto simp: executeRepair_def Let_def split: if_splits sum.splits prod.splits)
qed (use assms unnoticed_updates(2) in \<open>auto simp: executeRepair_def Let_def split: if_splits\<close>)

lemma unnoticed_claimAndRepair [handler_quiet]:
  assumes "claimAndRepair s cfg owner nc msg cancelled clock st fl w = (r, st', fl', w')"
  shows "unnoticed (cn_db st) (cn_db st')"
proof -
  obtain c db1 where 1: "ClaimRepairJob owner (rcf_LeaseDuration cfg) (rcf_ReplicationFactor cfg) (clock 0) (cn_db st) = (c, db1)" by fastforce
  have q: "unnoticed (cn_db st) db1" by (rule unnoticed_snd [OF unnoticed_repair(4) 1])
  show ?thesis
  proof (cases c)
    case (Inr target)
    obtain e st2 fl2 w2 where 2: "executeRepair s cfg nc msg (\<lambda>i. clock (i + 1)) target (st\<lparr>cn_db := db1\<rparr>) fl w = (e, st2, fl2, w2)"
      by (metis prod_cases4)
    have q2: "unnoticed (cn_db st) (cn_db st2)" using unnoticed_trans [OF q] unnoticed_executeRepair [OF 2] by simp
    have "unnoticed (cn_db st) db3" if "FailRepair j m b mx t (cn_db st2) = (f, db3)" for j m b mx t f db3
      using unnoticed_trans [OF q2 unnoticed_snd [OF unnoticed_repair(6) that]] .
    then show ?thesis using assms q q2 1 2 Inr
      by (auto simp: claimAndRepair_def split: option.splits if_splits prod.splits sum.splits)
  qed (use assms 1 q in \<open>auto simp: claimAndRepair_def Let_def split: if_splits\<close>)
qed

lemma unnoticed_queue_reconciles: "unnoticed db (queue_reconciles ids clock db)"
proof (induction ids clock db rule: queue_reconciles.induct)
  case (2 i ids clock db)
  show ?case using unnoticed_trans [OF unnoticed_nodes(5) 2] by simp
qed simp

lemma unnoticed_sweepStaleNodes [handler_quiet]: "unnoticed db (sweepStaleNodes clock db)"
  by (simp add: sweepStaleNodes_def unnoticed_queue_reconciles)

lemma unnoticed_queue_orphans: "unnoticed db (snd (queue_orphans node known ids clock n db))"
proof (induction node known ids clock n db rule: queue_orphans.induct)
  case (2 node known i ids clock n db)
  then show ?case
    by (auto split: prod.split dest: unnoticed_snd [OF unnoticed_reconcile(4)] intro: unnoticed_trans)
qed simp

lemma unnoticed_check_stale:
  assumes "check_stale s cfg nc job onDisk clock rep res st w = (r, st', w')"
  shows "unnoticed (cn_db st) (cn_db st')"
  using assms unnoticed_updates(3)
  by (auto simp: check_stale_def Let_def split: if_splits prod.splits sum.splits bool.splits dest: unnoticed_eqs)

lemma unnoticed_check_page:
  assumes "check_page s cfg nc job onDisk clock reps res st w = (r, st', w')"
  shows "unnoticed (cn_db st) (cn_db st')"
  using assms
proof (induction reps arbitrary: clock res st w)
  case (Cons rep reps)
  obtain r1 st1 w1 where 1: "check_stale s cfg nc job onDisk clock rep res st w = (r1, st1, w1)" by (metis prod_cases3)
  then show ?case using Cons unnoticed_check_stale [OF 1] by (auto split: sum.splits intro: unnoticed_trans)
qed simp

lemma unnoticed_stale_pages:
  assumes "stale_pages s cfg nc job onDisk clock after res st w = (r, st', w')"
  shows "unnoticed (cn_db st) (cn_db st')"
  using assms
proof (induction "ids_after after" arbitrary: clock after res st w rule: less_induct)
  case less
  let ?stale = "StaleReplicasOnNode (rj_NodeID job) after (qc_PageSize cfg) (cn_db st)"
  show ?case
  proof (cases "?stale = []")
    case False
    obtain r1 st1 w1 where 1: "check_page s cfg nc job onDisk clock ?stale res st w = (r1, st1, w1)" by (metis prod_cases3)
    show ?thesis using less(2) False 1 unnoticed_check_page [OF 1] less(1) [OF stale_page_measure [OF False]]
      by (subst (asm) stale_pages.simps) (auto simp: Let_def split: sum.splits if_splits intro: unnoticed_trans)
  qed (use less(2) in \<open>simp add: stale_pages.simps\<close>)
qed

lemma unnoticed_reconcileNode:
  assumes "reconcileNode s cfg nc job clock st w = (r, st', w')"
  shows "unnoticed (cn_db st) (cn_db st')"
proof -
  have "unnoticed (cn_db st) (cn_db st')" if "queue_orphans node known ids cl n (cn_db st) = (k, db1)"
    "stale_pages s cfg nc job onDisk cl' after res (st\<lparr>cn_db := db1\<rparr>) w1 = (r, st', w')" for node known ids cl n k db1 onDisk cl' after res w1
    using unnoticed_trans [OF unnoticed_snd [OF unnoticed_queue_orphans that(1)]] unnoticed_stale_pages [OF that(2)] by simp
  then show ?thesis using assms by (auto simp: reconcileNode_def Let_def split: if_splits prod.splits sum.splits)
qed

lemma unnoticed_runOne [handler_quiet]:
  assumes "runOne s cfg owner nc msg cancelled clock st w = (r, st', w')"
  shows "unnoticed (cn_db st) (cn_db st')"
proof -
  obtain c db1 where 1: "ClaimReconcileJob owner (qc_LeaseDuration cfg) (clock 0) (cn_db st) = (c, db1)" by fastforce
  have q: "unnoticed (cn_db st) db1" by (rule unnoticed_snd [OF unnoticed_reconcile(2) 1])
  show ?thesis
  proof (cases c)
    case (Inr job)
    obtain e st2 w2 where 2: "reconcileNode s cfg nc job (\<lambda>k. clock (k + 3)) (st\<lparr>cn_db := db1\<rparr>) w = (e, st2, w2)" by (metis prod_cases3)
    have q2: "unnoticed (cn_db st) (cn_db st2)" using unnoticed_trans [OF q] unnoticed_reconcileNode [OF 2] by simp
    note q3 = unnoticed_trans [OF q2 unnoticed_updates(4)] unnoticed_trans [OF q2 unnoticed_updates(5)]
    show ?thesis using assms q2 q3 unnoticed_trans [OF q3(1) unnoticed_OnNodeRecovered] 1 2 Inr
      by (auto simp: runOne_def Let_def split: sum.splits if_splits option.splits)
  qed (use assms 1 q in \<open>auto simp: runOne_def\<close>)
qed

lemma unnoticed_rehydrate: "unnoticed (cn_db st) (cn_db (snd (rehydrate_nodes ns clock st)))"
proof (induction ns clock st rule: rehydrate_nodes.induct)
  case (2 n ns clock st)
  then show ?case
    by (auto simp: Let_def split: prod.split sum.split dest: unnoticed_snd [OF unnoticed_nodes(3)] intro: unnoticed_trans)
qed simp

lemma unnoticed_on_transitions: "unnoticed (cn_db st) (cn_db (on_transitions s ts clock st))"
proof (induction s ts clock st rule: on_transitions.induct)
  case (2 s t ts clock st)
  then show ?case using unnoticed_trans [OF unnoticed_onTransition] by simp
qed simp

lemma unnoticed_health [handler_quiet]:
  "unnoticed (cn_db st) (cn_db (snd (Rehydrate clock st)))" "unnoticed (cn_db st) (cn_db (health_tick s clock st))"
  using unnoticed_rehydrate unnoticed_on_transitions [of "st\<lparr>cn_monitor := snd (Sweep (cn_monitor st) (clock 0))\<rparr>"]
  by (auto simp: Rehydrate_def health_tick_def split: prod.split)

text \<open>The leased jobs name the chunk and the node of their queue rows, as long as those exist.\<close>

definition jobs_match :: "PendingDeletion list \<Rightarrow> db \<Rightarrow> bool" where
  "jobs_match jobs db \<longleftrightarrow> (\<forall>job \<in> set jobs. \<forall>d \<in> set (chunk_deletions db). d_id d = pd_ID job \<longrightarrow> d_chunk d = pd_ChunkID job \<and> d_node d = pd_NodeID job)"

lemma jobs_match_mono:
  assumes "jobs_match jobs db"
    and "(\<lambda>d. (d_id d, d_chunk d, d_node d)) ` set (chunk_deletions db') \<subseteq> (\<lambda>d. (d_id d, d_chunk d, d_node d)) ` set (chunk_deletions db)"
  shows "jobs_match jobs db'"
  unfolding jobs_match_def
proof (intro ballI impI)
  fix job d assume j: "job \<in> set jobs" and d: "d \<in> set (chunk_deletions db')" "d_id d = pd_ID job"
  then obtain d0 where "d0 \<in> set (chunk_deletions db)" "d_id d0 = d_id d" "d_chunk d0 = d_chunk d" "d_node d0 = d_node d"
    using assms(2) by (fastforce simp: image_subset_iff image_iff)
  then show "d_chunk d = pd_ChunkID job \<and> d_node d = pd_NodeID job" using assms(1) j d(2) unfolding jobs_match_def by metis
qed

lemma deletion_keys_finish:
  "(\<lambda>d. (d_id d, d_chunk d, d_node d)) ` set (chunk_deletions (snd (FinishDeletion i cid nid db))) \<subseteq> (\<lambda>d. (d_id d, d_chunk d, d_node d)) ` set (chunk_deletions db)"
  by (auto simp: FinishDeletion_frame [OF refl])

lemma deletion_keys_fail:
  "(\<lambda>d. (d_id d, d_chunk d, d_node d)) ` set (chunk_deletions (snd (FailDeletion i cause backoff mx now db))) \<subseteq> (\<lambda>d. (d_id d, d_chunk d, d_node d)) ` set (chunk_deletions db)"
  by (auto simp: FailDeletion_def expire_deletion_def inTx_def Let_def set_sql_update split: list.splits if_splits)

lemma unnoticed_deletion_loop:
  assumes "deletion_loop s nc msg interval cancelled clock jobs db w = (r, db', w')" and "jobs_match jobs db"
  shows "unnoticed db db'"
  using assms
proof (induction jobs arbitrary: cancelled clock db w)
  case (Cons job jobs)
  have match: "jobs_match jobs db1" if "jobs_match jobs db" "db1 = snd (FinishDeletion i cid nid db) \<or> db1 = snd (FailDeletion i cause backoff mx now db)"
    for db1 i cid nid cause backoff mx now
    using that(2) jobs_match_mono [OF that(1) deletion_keys_finish] jobs_match_mono [OF that(1) deletion_keys_fail] by auto
  have jm: "jobs_match jobs db" using Cons.prems(2) by (simp add: jobs_match_def)
  have fin: "unnoticed db (snd (FinishDeletion (pd_ID job) (pd_ChunkID job) (pd_NodeID job) db))"
    using Cons.prems(2) by (intro unnoticed_FinishDeletion) (simp add: jobs_match_def)
  note fail = unnoticed_gc(2) [of db "pd_ID job" _ _ deletionMaxAttempts "clock 0"]
  obtain e w1 where 1: "deleteOne s nc job w = (e, w1)" by fastforce
  show ?case
  proof (cases "cancelled 0")
    case False
    let ?fin = "FinishDeletion (pd_ID job) (pd_ChunkID job) (pd_NodeID job) db"
    let ?fail = "\<lambda>err. FailDeletion (pd_ID job) (msg err) (wrap64 (pd_Attempts job * interval)) deletionMaxAttempts (clock 0) db"
    have "\<exists>p. (p = ?fin \<or> (\<exists>err. p = ?fail err)) \<and>
       ((case fst p of Inl e \<Rightarrow> (Some e, snd p, w1)
         | Inr _ \<Rightarrow> deletion_loop s nc msg interval (\<lambda>k. cancelled (k + 1)) (\<lambda>k. clock (k + 1)) jobs (snd p) w1) = (r, db', w'))"
    proof (cases e)
      case None
      then show ?thesis using Cons.prems(1) 1 False by (intro exI [of _ ?fin]) (auto split: prod.splits sum.splits)
    next
      case (Some err)
      then show ?thesis using Cons.prems(1) 1 False by (intro exI [of _ "?fail err"] conjI disjI2 exI [of _ err] refl) (auto split: prod.splits sum.splits)
    qed
    then obtain p where p: "p = ?fin \<or> (\<exists>err. p = ?fail err)" and eq: "(case fst p of Inl e \<Rightarrow> (Some e, snd p, w1)
         | Inr _ \<Rightarrow> deletion_loop s nc msg interval (\<lambda>k. cancelled (k + 1)) (\<lambda>k. clock (k + 1)) jobs (snd p) w1) = (r, db', w')" by blast
    have q: "unnoticed db (snd p)" using p fin fail by auto
    have m: "jobs_match jobs (snd p)" using p match [OF jm] by blast
    show ?thesis using eq q Cons.IH [OF _ m] by (auto split: sum.splits intro: unnoticed_trans)
  qed (use Cons.prems(1) in simp)
qed simp

lemma ClaimDeletions_match:
  assumes "wf_db db" and "ClaimDeletions limit lease now db = (jobs, db1)"
  shows "jobs_match jobs db1"
  unfolding jobs_match_def
proof (intro ballI impI)
  have wf1: "distinct (map d_id (chunk_deletions db1))"
    using assms by (auto simp: ClaimDeletions_def Let_def wf_db_def deletions_ok_def lease_deletion_def)
  fix job d assume j: "job \<in> set jobs" and d: "d \<in> set (chunk_deletions db1)" "d_id d = pd_ID job"
  obtain d' where d': "d' \<in> set (chunk_deletions db1)" "job = scan_deletion db d'" using assms(2) j by (auto simp: ClaimDeletions_def Let_def)
  then have "d = d'" using d by (intro distinct_map_unique [OF wf1]) (simp_all add: scan_deletion_def)
  then show "d_chunk d = pd_ChunkID job \<and> d_node d = pd_NodeID job" using d' by (simp add: scan_deletion_def)
qed

lemma unnoticed_processDeletions:
  assumes "processDeletions s gc nc msg cancelled clock db w = (r, db', w')"
  shows "unnoticed db db'"
proof -
  obtain jobs db1 where 1: "ClaimDeletions (gc_batch gc) (wrap64 (2 * gc_interval gc)) (clock 0) db = (jobs, db1)" by fastforce
  have "unnoticed db1 db'" if "store_ok db"
    using assms 1 ClaimDeletions_match [OF store_okD(1) [OF that] 1] by (auto simp: processDeletions_def intro: unnoticed_deletion_loop)
  then show ?thesis using unnoticed_snd [OF unnoticed_gc(1) 1] by (auto simp: unnoticed_def)
qed

lemma unnoticed_gc_cycle [handler_quiet]:
  assumes "gc_cycle s gc nc msg cancelled clock db w = (r, db', w')"
  shows "unnoticed db db'"
proof -
  obtain r1 db1 where 1: "ReapStaleUploads (cf_UploadStaleAfter (sv_cfg s)) (gc_batch gc) (clock 0) db = (r1, db1)" by fastforce
  obtain n2 r2 db2 where 2: "ReapStaleMultipartUploads (cf_UploadStaleAfter (sv_cfg s)) (gc_batch gc) (clock 1) db1 = ((n2, r2), db2)" by (metis prod.exhaust)
  obtain r3 db3 w3 where 3: "processDeletions s gc nc msg cancelled (\<lambda>k. clock (k + 4)) db2 w = (r3, db3, w3)" by (metis prod_cases3)
  obtain r4 db4 where 4: "PurgeReclaimedChunks (gc_batch gc) db3 = (r4, db4)" by fastforce
  note q1 = unnoticed_snd [OF unnoticed_uploads(4) 1]
  note q2 = unnoticed_trans [OF q1 unnoticed_snd [OF unnoticed_multipart(5) 2]]
  note q3 = unnoticed_trans [OF q2 unnoticed_processDeletions [OF 3]]
  note q4 = unnoticed_trans [OF q3 unnoticed_snd [OF unnoticed_uploads(5) 4]]
  note q5 = unnoticed_trans [OF q4 unnoticed_gc(3)]
  show ?thesis using assms q1 q2 q3 q4 q5 1 2 [simplified] 3 4
    by (auto simp: gc_cycle_def split: sum.splits option.splits)
qed

lemma unnoticed_audit [handler_quiet]: "unnoticed db (snd (audit_tick db))"
  by (simp add: audit_tick_def unnoticed_repair(10))

section \<open>Cached objects are current\<close>

definition cache_kind :: "string \<Rightarrow> cache_value \<Rightarrow> bool" where
  "cache_kind key = (if HasPrefix key ''obj:'' then is_CObject else if HasPrefix key ''mpu:'' then is_CUpload else is_CNodes)"

lemma cache_kind_simps [simp]:
  "cache_kind (ObjectKey b k) = is_CObject" "cache_kind (MultipartKey u) = is_CUpload" "cache_kind NodesKey = is_CNodes"
  by (simp_all add: cache_kind_def ObjectKey_def MultipartKey_def NodesKey_def HasPrefix_def)

lemma is_C_simps [simp]: "is_CObject (CObject x)" "is_CNodes (CNodes ns)" "is_CUpload (CUpload u)"
  by (simp_all add: is_CObject_def is_CNodes_def is_CUpload_def)

text \<open>The fields that name a version and its content.\<close>

definition same_version :: "(uuid \<Rightarrow> string) \<Rightarrow> cachedObject \<Rightarrow> Object \<Rightarrow> bool" where
  "same_version str co obj \<longleftrightarrow> co_ObjectID co = str (Obj_ID obj) \<and> co_Bucket co = Obj_Bucket obj \<and> co_Key co = Obj_Key obj
     \<and> co_Version co = Obj_Version obj \<and> co_SizeBytes co = Obj_SizeBytes obj \<and> co_ChunkSize co = Obj_ChunkSize obj
     \<and> co_ChunkCount co = Obj_ChunkCount obj \<and> co_ETag co = Obj_ETag obj \<and> co_ContentType co = Obj_ContentType obj"

definition entry_ok :: "(uuid \<Rightarrow> string) \<Rightarrow> db \<Rightarrow> string \<Rightarrow> cache_value \<Rightarrow> bool" where
  "entry_ok str db key v \<longleftrightarrow> (\<forall>b k. ValidateBucket b = None \<longrightarrow> key = ObjectKey b k \<longrightarrow>
     (\<exists>co obj. v = CObject co \<and> HeadObject b k db = Inr obj \<and> same_version str co obj))"

definition coherent :: "('c \<Rightarrow> string \<Rightarrow> cache_value option) \<Rightarrow> (uuid \<Rightarrow> string) \<Rightarrow> 'c coord \<Rightarrow> bool" where
  "coherent held str st \<longleftrightarrow> store_ok (cn_db st)
     \<and> (\<forall>key v. (\<forall>l. key \<noteq> ''lock:'' @ l) \<and> held (cn_cache st) key = Some v \<longrightarrow> entry_ok str (cn_db st) key v)"

locale object_cache = cache_contract C cache_kind held
  for C :: "(cache_value, 'c) cache" and held :: "'c \<Rightarrow> string \<Rightarrow> cache_value option" +
  assumes deletes: "fst (ca_Delete C ks c)"
begin

definition calm :: "'c \<Rightarrow> 'c \<Rightarrow> bool" where
  "calm c c' \<longleftrightarrow> (\<forall>P. (\<forall>k v. (\<forall>b j. k \<noteq> ObjectKey b j) \<longrightarrow> P k v) \<longrightarrow> entries P c \<longrightarrow> entries P c')"

lemma calm_refl [simp]: "calm c c"
  by (simp add: calm_def)

lemma calm_trans: "calm c c' \<Longrightarrow> calm c' c'' \<Longrightarrow> calm c c''"
  by (simp add: calm_def)

lemma calm_ops [intro]:
  "calm c c' \<Longrightarrow> calm c (snd (ca_Get C want k c'))" "calm c c' \<Longrightarrow> calm c (snd (ca_Delete C ks c'))"
  "calm c c' \<Longrightarrow> calm c (snd (ca_AcquireLock C key ttl token c'))" "calm c c' \<Longrightarrow> calm c (ca_release C key token c')"
  by (auto simp: calm_def intro: entries_get entries_delete entries_lock entries_release)

lemma calm_sets [intro]:
  "calm c c' \<Longrightarrow> calm c (snd (ca_Set C NodesKey (CNodes ns) ttl c'))"
  "calm c c' \<Longrightarrow> calm c (snd (ca_Set C (MultipartKey u) (CUpload cu) ttl c'))"
  by (auto simp: calm_def intro!: entries_set)

lemma calm_get_eq: "ca_Get C want k c = (r, c') \<Longrightarrow> calm c c'"
  using calm_ops(1) [OF calm_refl, of c want k] by simp

lemma calm_lock_eq: "ca_AcquireLock C key ttl token c = (r, c') \<Longrightarrow> calm c c'"
  using calm_ops(3) [OF calm_refl, of c key ttl token] by simp

lemma coherent_iff: "coherent held str st \<longleftrightarrow> store_ok (cn_db st) \<and> entries (entry_ok str (cn_db st)) (cn_cache st)"
  by (simp add: coherent_def entries_def)

text \<open>Steps that readers do not notice and that add no object to the cache.\<close>

lemma coherent_calm:
  assumes "coherent held str st" and "unnoticed (cn_db st) (cn_db st')" and "calm (cn_cache st) (cn_cache st')"
  shows "coherent held str st'"
proof -
  have ok: "store_ok (cn_db st)" and e: "entries (entry_ok str (cn_db st)) (cn_cache st)" using assms(1) by (auto simp: coherent_iff)
  have "entry_ok str (cn_db st') = entry_ok str (cn_db st)"
    by (simp add: fun_eq_iff entry_ok_def HeadObject_unnoticed [OF assms(2) ok])
  moreover have "entries (entry_ok str (cn_db st)) (cn_cache st')"
    using assms(3) e unfolding calm_def by (simp add: entry_ok_def)
  ultimately show ?thesis using unnoticedD(1) [OF assms(2) ok] by (simp add: coherent_iff)
qed

text \<open>Steps that publish a key and drop its entry.\<close>

lemma coherent_publish:
  assumes "coherent held str st" and "publishes b k (cn_db st) (cn_db st')"
    and "cn_cache st' = snd (ca_Delete C [ObjectKey b k] (cn_cache st))"
  shows "coherent held str st'"
proof -
  have ok: "store_ok (cn_db st)" and e: "entries (entry_ok str (cn_db st)) (cn_cache st)" using assms(1) by (auto simp: coherent_iff)
  have "entries (entry_ok str (cn_db st')) (snd (ca_Delete C [ObjectKey b k] (cn_cache st)))"
  proof (rule entries_deleted [OF e deletes])
    fix key v assume key: "key \<notin> set [ObjectKey b k]" and v: "entry_ok str (cn_db st) key v"
    show "entry_ok str (cn_db st') key v"
      unfolding entry_ok_def
    proof (intro allI impI)
      fix b' k' assume b: "ValidateBucket b' = None" "key = ObjectKey b' k'"
      then have "(b', k') \<noteq> (b, k)" using key by auto
      then have "HeadObject b' k' (cn_db st') = HeadObject b' k' (cn_db st)" using assms(2) unfolding publishes_def by blast
      then show "\<exists>co obj. v = CObject co \<and> HeadObject b' k' (cn_db st') = Inr obj \<and> same_version str co obj"
        using v b unfolding entry_ok_def by metis
    qed
  qed
  then show ?thesis using assms(2,3) by (simp add: coherent_iff publishes_def)
qed

end

subsection \<open>The handlers and the cache\<close>

context object_cache
begin

lemma calm_invalidate:
  assumes "sv_cache s = C"
  shows "calm c (cn_cache st) \<Longrightarrow> calm c (cn_cache (invalidateNodeCache s st))"
    and "calm c (cn_cache st) \<Longrightarrow> calm c (cn_cache (invalidateObject s b k st))"
    and "calm c (cn_cache st) \<Longrightarrow> calm c (cn_cache (invalidateUpload s u st))"
    and "calm c (cn_cache st) \<Longrightarrow> calm c (cn_cache (invalidateChunkOwnerCache s cid st))"
    and "calm c (cn_cache st) \<Longrightarrow> calm c (cn_cache (cacheUpload s mu st))"
  by (auto simp: assms invalidateNodeCache_def invalidateObject_def invalidateUpload_def invalidateChunkOwnerCache_def cacheUpload_def
      split: sum.splits)

lemma calm_healthyNodes:
  assumes "sv_cache s = C" and "healthyNodes s st = (ns, st')"
  shows "calm (cn_cache st) (cn_cache st')"
proof -
  obtain r c where g: "ca_Get C is_CNodes NodesKey (cn_cache st) = (r, c)" by fastforce
  have "calm (cn_cache st) c" by (rule calm_get_eq [OF g])
  then show ?thesis using assms(2) g by (auto simp: assms(1) healthyNodes_def Let_def split: get_reply.splits cache_value.splits)
qed

lemma calm_loadUpload:
  assumes "sv_cache s = C" and "loadUpload s i st = (r, st')"
  shows "calm (cn_cache st) (cn_cache st')"
proof -
  obtain g c where g: "ca_Get C is_CUpload (MultipartKey (sv_String s i)) (cn_cache st) = (g, c)" by fastforce
  have "calm (cn_cache st) c" by (rule calm_get_eq [OF g])
  then show ?thesis using assms(2) g calm_invalidate(5) [OF assms(1)]
    by (auto simp: assms(1) loadUpload_def Let_def split: get_reply.splits cache_value.splits sum.splits)
qed

lemma calm_onNodeRejoined [simp]: "cn_cache (onNodeRejoined s i clock st) = cn_cache st"
  by (auto simp: onNodeRejoined_def Let_def split: prod.splits sum.splits option.splits)

lemma calm_onTransition: "sv_cache s = C \<Longrightarrow> calm c (cn_cache st) \<Longrightarrow> calm c (cn_cache (onTransition s t clock st))"
  using calm_invalidate(1) by (auto simp: onTransition_def Let_def)

lemma calm_nodes:
  assumes "sv_cache s = C"
  shows "calm (cn_cache st) (cn_cache (snd (Service_RegisterNode s req clock st)))"
    and "calm (cn_cache st) (cn_cache (snd (Service_Heartbeat s req clock st)))"
  using calm_invalidate(1) [OF assms] calm_onTransition [OF assms]
  by (auto simp: Service_RegisterNode_def Service_Heartbeat_def Let_def split: prod.splits sum.splits option.splits)

lemma calm_uploads:
  assumes "sv_cache s = C"
  shows "calm (cn_cache st) (cn_cache (snd (Service_BeginUpload s bureq newID clock st)))"
    and "calm (cn_cache st) (cn_cache (snd (Service_CommitChunk s creq clock st)))"
    and "calm (cn_cache st) (cn_cache (snd (Service_AbortUpload s i reason clock st)))"
    and "calm (cn_cache st) (cn_cache (snd (Service_AllocateChunk s areq newID clock st)))"
  using calm_healthyNodes [OF assms]
  by (auto simp: Service_BeginUpload_def Service_CommitChunk_def Service_AbortUpload_def Service_AllocateChunk_def
      split: option.splits prod.splits sum.splits)

lemma calm_reports:
  assumes "sv_cache s = C"
  shows "calm (cn_cache st) (cn_cache (snd (Service_ReportCorruptReplica s chunkId nodeId detail clock st)))"
    and "calm (cn_cache st) (cn_cache (snd (Service_TriggerReconcile s nodeId clock st)))"
  using calm_invalidate(4) [OF assms]
  by (auto simp: Service_ReportCorruptReplica_def Service_TriggerReconcile_def Let_def split: option.splits prod.splits sum.splits)

lemma calm_multipart:
  assumes "sv_cache s = C"
  shows "calm (cn_cache st) (cn_cache (snd (Service_CreateMultipartUpload s bureq newID clock st)))"
    and "calm (cn_cache st) (cn_cache (snd (Service_CompletePart s preq clock st)))"
    and "calm (cn_cache st) (cn_cache (snd (Service_AbortMultipartUpload s i clock st)))"
    and "calm (cn_cache st) (cn_cache (snd (Service_BeginPart s i pn newID clock st)))"
  using calm_invalidate(3,5) [OF assms] calm_loadUpload [OF assms]
  by (auto simp: Service_CreateMultipartUpload_def Service_CompletePart_def Service_AbortMultipartUpload_def Service_BeginPart_def
      split: option.splits prod.splits sum.splits)

lemma calm_copy_chunk:
  assumes "sv_cache s = C" and "copy_chunk s cfg nc msg clock target source dest st w = (r, st', w')"
  shows "calm (cn_cache st) (cn_cache st')"
  using assms(2) calm_invalidate(4) [OF assms(1)]
  by (auto simp: copy_chunk_def reportPhantomSource_def Let_def split: if_splits prod.splits sum.splits)

lemma calm_pickDestination:
  assumes "sv_cache s = C" and "pickDestination s cfg target st fl = (r, st', fl')"
  shows "calm (cn_cache st) (cn_cache st')"
  using assms(2) by (auto simp: pickDestination_def Let_def split: prod.splits sum.splits list.splits dest: calm_healthyNodes [OF assms(1)])

lemma calm_executeRepair:
  assumes "sv_cache s = C" and "executeRepair s cfg nc msg clock target st fl w = (r, st', fl', w')"
  shows "calm (cn_cache st) (cn_cache st')"
  using assms(2)
  by (auto simp: executeRepair_def Let_def split: if_splits list.splits prod.splits sum.splits
      dest!: calm_pickDestination [OF assms(1)] calm_copy_chunk [OF assms(1)] intro: calm_trans)

lemma calm_claimAndRepair:
  assumes "sv_cache s = C" and "claimAndRepair s cfg owner nc msg cancelled clock st fl w = (r, st', fl', w')"
  shows "calm (cn_cache st) (cn_cache st')"
  using assms(2)
  by (auto simp: claimAndRepair_def Let_def split: if_splits prod.splits sum.splits option.splits dest!: calm_executeRepair [OF assms(1)])

lemma calm_check_page:
  assumes "sv_cache s = C" and "check_page s cfg nc job onDisk clock reps res st w = (r, st', w')"
  shows "calm (cn_cache st) (cn_cache st')"
  using assms(2)
proof (induction reps arbitrary: clock res st w)
  case (Cons rep reps)
  obtain r1 st1 w1 where 1: "check_stale s cfg nc job onDisk clock rep res st w = (r1, st1, w1)" by (metis prod_cases3)
  have "calm (cn_cache st) (cn_cache st1)" using 1 calm_invalidate(4) [OF assms(1)]
    by (auto simp: check_stale_def Let_def split: if_splits prod.splits sum.splits bool.splits)
  then show ?case using Cons 1 by (auto split: sum.splits intro: calm_trans)
qed simp

lemma calm_stale_pages:
  assumes "sv_cache s = C" and "stale_pages s cfg nc job onDisk clock after res st w = (r, st', w')"
  shows "calm (cn_cache st) (cn_cache st')"
  using assms(2)
proof (induction "ids_after after" arbitrary: clock after res st w rule: less_induct)
  case less
  let ?stale = "StaleReplicasOnNode (rj_NodeID job) after (qc_PageSize cfg) (cn_db st)"
  show ?case
  proof (cases "?stale = []")
    case False
    obtain r1 st1 w1 where 1: "check_page s cfg nc job onDisk clock ?stale res st w = (r1, st1, w1)" by (metis prod_cases3)
    show ?thesis using less(2) False 1 calm_check_page [OF assms(1) 1] less(1) [OF stale_page_measure [OF False]]
      by (subst (asm) stale_pages.simps) (auto simp: Let_def split: sum.splits if_splits intro: calm_trans)
  qed (use less(2) in \<open>simp add: stale_pages.simps\<close>)
qed

lemma calm_runOne:
  assumes "sv_cache s = C" and "runOne s cfg owner nc msg cancelled clock st w = (r, st', w')"
  shows "calm (cn_cache st) (cn_cache st')"
proof -
  have r: "calm (cn_cache st) (cn_cache st2)" if "reconcileNode s cfg nc job cl (st\<lparr>cn_db := db1\<rparr>) w = (e, st2, w2)" for job cl db1 e st2 w2
    using that by (auto simp: reconcileNode_def Let_def split: if_splits prod.splits sum.splits dest!: calm_stale_pages [OF assms(1)])
  show ?thesis using assms(2) by (auto simp: runOne_def Let_def split: prod.splits sum.splits if_splits option.splits dest: r)
qed

lemma cache_Rehydrate [simp]: "cn_cache (snd (Rehydrate clock st)) = cn_cache st"
proof -
  have "cn_cache (snd (rehydrate_nodes ns clock st)) = cn_cache st" for ns clock st
    by (induction ns clock st rule: rehydrate_nodes.induct) (auto simp: Let_def split: prod.splits sum.splits)
  then show ?thesis by (simp add: Rehydrate_def)
qed

lemma calm_health_tick:
  assumes "sv_cache s = C"
  shows "calm (cn_cache st) (cn_cache (health_tick s clock st))"
proof -
  have "calm c (cn_cache st) \<Longrightarrow> calm c (cn_cache (on_transitions s ts clock st))" for c ts clock st
    by (induction ts arbitrary: clock st) (auto intro: calm_onTransition [OF assms])
  then show ?thesis by (simp add: health_tick_def split: prod.split)
qed

end

subsection \<open>Reading and publishing\<close>

definition reports_version :: "(uuid \<Rightarrow> string) \<Rightarrow> ObjectInfo \<Rightarrow> Object \<Rightarrow> bool" where
  "reports_version str info obj \<longleftrightarrow> oi_ObjectId info = str (Obj_ID obj) \<and> oi_Bucket info = Obj_Bucket obj \<and> oi_Key info = Obj_Key obj
     \<and> oi_Version info = Obj_Version obj \<and> oi_State info = OBJECT_STATE_COMPLETE \<and> oi_SizeBytes info = Obj_SizeBytes obj
     \<and> oi_ChunkSize info = Obj_ChunkSize obj \<and> oi_ChunkCount info = Obj_ChunkCount obj \<and> oi_Etag info = Obj_ETag obj
     \<and> oi_ContentType info = Obj_ContentType obj"

lemma HeadObject_state: "HeadObject b k db = Inr obj \<Longrightarrow> Obj_State obj = ObjectComplete \<and> Obj_Bucket obj = b \<and> Obj_Key obj = k"
  by (auto simp: HeadObject_def scanObject_def split: option.splits dest!: find_Some_in)

lemma fresh_reports: "Obj_State obj = ObjectComplete \<Longrightarrow> reports_version str (gr_Object (fresh_response str obj cs)) obj"
  by (simp add: fresh_response_def toProtoObject_def reports_version_def)

lemma cached_reports: "same_version str co obj \<Longrightarrow> reports_version str (gr_Object (cached_toProto co)) obj"
  by (simp add: cached_toProto_def same_version_def reports_version_def)

lemma fresh_same_version: "same_version str (newCachedObject (fresh_response str obj cs)) obj"
  by (simp add: newCachedObject_def fresh_response_def toProtoObject_def same_version_def Let_def)

lemma GetObject_head: "GetObject b k db = Inr (obj, cs) \<Longrightarrow> HeadObject b k db = Inr obj"
  by (auto simp: GetObject_def Let_def split: sum.splits if_splits)

context object_cache
begin

lemma coherent_GetObject:
  assumes coh: "coherent held str st" and C: "sv_cache s = C" "sv_String s = str" and eq: "Service_GetObject s b k st = (r, st')"
  shows "coherent held str st' \<and> cn_db st' = cn_db st
     \<and> (case r of Inl c \<Rightarrow> True | Inr resp \<Rightarrow> \<exists>obj. HeadObject b k (cn_db st) = Inr obj \<and> reports_version str (gr_Object resp) obj)"
proof (cases "validateBucketKey b k")
  case None
  then have v: "ValidateBucket b = None" by (auto simp: validateBucketKey_def split: if_splits)
  obtain g c where g: "ca_Get C is_CObject (ObjectKey b k) (cn_cache st) = (g, c)" by fastforce
  note e = coh [unfolded coherent_iff, THEN conjunct2] and ok = coh [unfolded coherent_iff, THEN conjunct1]
  have e': "entries (entry_ok str (cn_db st)) c" using entries_get [OF e, of is_CObject "ObjectKey b k"] g by simp
  show ?thesis
  proof (cases "\<exists>cached. g = Hit (CObject cached)")
    case True
    then obtain co where h: "g = Hit (CObject co)" by blast
    have nl: "\<forall>l. ObjectKey b k \<noteq> ''lock:'' @ l" by (intro allI keys_apart(7))
    have "entry_ok str (cn_db st) (ObjectKey b k) (CObject co)"
      by (rule entries_hit [OF e nl]) (use g h in simp)
    then obtain obj where obj: "HeadObject b k (cn_db st) = Inr obj" "same_version str co obj" using v by (auto simp: entry_ok_def)
    have "r = Inr (cached_toProto co)" "st' = st\<lparr>cn_cache := c\<rparr>" using eq None g h by (simp_all add: Service_GetObject_def C)
    then show ?thesis using obj e' ok cached_reports by (auto simp: coherent_iff)
  next
    case False
    show ?thesis
    proof (cases "GetObject b k (cn_db st)")
      case (Inl err)
      then have "r = Inl (toStatus err)" "st' = st\<lparr>cn_cache := c\<rparr>"
        using eq None g False by (auto simp: Service_GetObject_def C Let_def split: get_reply.splits cache_value.splits)
      then show ?thesis using e' ok by (auto simp: coherent_iff)
    next
      case (Inr p)
      then obtain obj cs where p: "GetObject b k (cn_db st) = Inr (obj, cs)" by (cases p) auto
      let ?resp = "fresh_response str obj cs"
      note head = GetObject_head [OF p]
      have r: "r = Inr ?resp" and st': "st' = st\<lparr>cn_cache := snd (ca_Set C (ObjectKey b k) (CObject (newCachedObject ?resp)) (cf_ObjectCacheTTL (sv_cfg s)) c)\<rparr>"
        using eq None g p False by (auto simp: Service_GetObject_def C Let_def split: get_reply.splits cache_value.splits)
      have "entry_ok str (cn_db st) (ObjectKey b k) (CObject (newCachedObject ?resp))"
        unfolding entry_ok_def using ObjectKey_inj [OF v] head fresh_same_version by metis
      then have "entries (entry_ok str (cn_db st)) (cn_cache st')"
        unfolding st' by (simp add: entries_set [OF e'])
      then show ?thesis using ok head fresh_reports HeadObject_state [OF head] by (simp add: coherent_iff r st')
    qed
  qed
qed (use eq coh in \<open>auto simp: Service_GetObject_def\<close>)

lemma coherent_CompleteUpload:
  assumes coh: "coherent held str st" and C: "sv_cache s = C"
  shows "coherent held str (snd (Service_CompleteUpload s req clock st))"
proof (cases "sv_Parse s (cq_ObjectId req)")
  case (Some oid)
  obtain r db1 where 1: "CompleteUpload oid (cq_SizeBytes req) (cq_ChunkCount req) (cq_Etag req) (clock 0) (cn_db st) = (r, db1)" by fastforce
  have ok: "store_ok (cn_db st)" using coh by (simp add: coherent_def)
  note p = publishes_CompleteUpload [OF ok 1]
  show ?thesis
  proof (cases r)
    case (Inr obj)
    then show ?thesis using p 1 Some
      by (intro coherent_publish [OF coh, of "Obj_Bucket obj" "Obj_Key obj"]) (simp_all add: Service_CompleteUpload_def invalidateObject_def C)
  qed (use coh p 1 Some in \<open>simp add: Service_CompleteUpload_def\<close>)
qed (use coh in \<open>simp add: Service_CompleteUpload_def\<close>)

lemma coherent_DeleteObject:
  assumes coh: "coherent held str st" and C: "sv_cache s = C"
  shows "coherent held str (snd (Service_DeleteObject s b k clock st))"
proof (cases "validateBucketKey b k")
  case None
  have ok: "store_ok (cn_db st)" using coh by (simp add: coherent_def)
  note p = publishes_DeleteObject [OF ok, of b k "clock 0"]
  obtain i existed db1 where 1: "DeleteObject b k (clock 0) (cn_db st) = (Inr (i, existed), db1)"
    using p(2) by (metis prod.collapse)
  show ?thesis using p(1) 1 None
    by (intro coherent_publish [OF coh, of b k]) (simp_all add: Service_DeleteObject_def invalidateObject_def C)
qed (use coh in \<open>simp add: Service_DeleteObject_def\<close>)

lemma coherent_CompleteMultipartUpload:
  assumes coh: "coherent held str st" and C: "sv_cache s = C"
  shows "coherent held str (snd (Service_CompleteMultipartUpload s i expected newID token clock st))"
proof (cases "sv_Parse s i")
  case (Some uid)
  obtain l st1 where l: "loadUpload s uid st = (l, st1)" by fastforce
  have coh1: "coherent held str st1"
    by (rule coherent_calm [OF coh]) (simp_all add: cn_db_reads_eq(2) [OF l] calm_loadUpload [OF C l])
  show ?thesis
  proof (cases l)
    case (Inr mu)
    let ?lk = "''object:'' @ cu_Bucket mu @ ''/'' @ cu_Key mu"
    obtain lock c2 where k: "ca_AcquireLock C ?lk (cf_NodeCallTimeout (sv_cfg s)) token (cn_cache st1) = (lock, c2)" by fastforce
    let ?st2 = "st1\<lparr>cn_cache := c2\<rparr>"
    let ?rel = "\<lambda>st. case lock of LockHeld t \<Rightarrow> st\<lparr>cn_cache := ca_release C ?lk t (cn_cache st)\<rparr> | _ \<Rightarrow> st"
    have coh2: "coherent held str ?st2" by (rule coherent_calm [OF coh1]) (simp_all add: calm_lock_eq [OF k])
    have rel: "coherent held str (?rel st)" if "coherent held str st" for st
      by (rule coherent_calm [OF that]) (auto split: lock_reply.split)
    obtain r db1 where 1: "CompleteMultipartUpload uid expected newID (clock 0) (cn_db st1) = (r, db1)" by fastforce
    have ok: "store_ok (cn_db st1)" using coh1 by (simp add: coherent_def)
    note p = publishes_CompleteMultipartUpload [OF ok 1]
    show ?thesis
    proof (cases "lock = LockBusy")
      case False
      show ?thesis
      proof (cases r)
        case (Inl e)
        then have "db1 = cn_db st1" using p by simp
        then have "coherent held str (?st2\<lparr>cn_db := db1\<rparr>)" using coh2 by (simp add: coherent_def)
        from rel [OF this] show ?thesis using Some l Inr k False 1 Inl by (cases lock) (simp_all add: Service_CompleteMultipartUpload_def C Let_def)
      next
        case (Inr obj)
        let ?st3 = "invalidateObject s (Obj_Bucket obj) (Obj_Key obj) (?st2\<lparr>cn_db := db1\<rparr>)"
        have "coherent held str ?st3" using p Inr
          by (intro coherent_publish [OF coh2, of "Obj_Bucket obj" "Obj_Key obj"]) (simp_all add: invalidateObject_def C)
        then have "coherent held str (invalidateUpload s (sv_String s uid) ?st3)"
          by (rule coherent_calm) (simp_all add: calm_invalidate(3) [OF C])
        from rel [OF this] show ?thesis using Some l \<open>l = Inr mu\<close> k False 1 Inr
          by (cases lock) (simp_all add: Service_CompleteMultipartUpload_def C Let_def)
      qed
    qed (use Some l Inr k coh2 in \<open>simp add: Service_CompleteMultipartUpload_def C Let_def\<close>)
  qed (use Some l coh1 in \<open>simp add: Service_CompleteMultipartUpload_def\<close>)
qed (use coh in \<open>simp add: Service_CompleteMultipartUpload_def\<close>)

end

section \<open>The coordinator as a state machine\<close>

text \<open>
  A step is one handler, one round of a worker over a cluster of storage nodes, or the loss of entries by the
  cache. The service of a step has the given cache and textual form of UUIDs; its configuration, placement and
  clocks are arbitrary.
\<close>

inductive coord_step :: "(cache_value, 'c) cache \<Rightarrow> (uuid \<Rightarrow> string) \<Rightarrow> 'c coord \<Rightarrow> 'c coord \<Rightarrow> bool" for C str where
  RegisterNode: "sv_cache s = C \<Longrightarrow> coord_step C str st (snd (Service_RegisterNode s nreq clock st))"
| Heartbeat: "sv_cache s = C \<Longrightarrow> coord_step C str st (snd (Service_Heartbeat s nreq clock st))"
| BeginUpload: "sv_cache s = C \<Longrightarrow> coord_step C str st (snd (Service_BeginUpload s bureq newID clock st))"
| AllocateChunk: "sv_cache s = C \<Longrightarrow> coord_step C str st (snd (Service_AllocateChunk s areq newID clock st))"
| CommitChunk: "sv_cache s = C \<Longrightarrow> coord_step C str st (snd (Service_CommitChunk s creq clock st))"
| CompleteUpload: "sv_cache s = C \<Longrightarrow> coord_step C str st (snd (Service_CompleteUpload s ureq clock st))"
| AbortUpload: "sv_cache s = C \<Longrightarrow> coord_step C str st (snd (Service_AbortUpload s i reason clock st))"
| GetObject: "sv_cache s = C \<Longrightarrow> sv_String s = str \<Longrightarrow> coord_step C str st (snd (Service_GetObject s bucket key st))"
| DeleteObject: "sv_cache s = C \<Longrightarrow> coord_step C str st (snd (Service_DeleteObject s bucket key clock st))"
| ReportCorruptReplica: "sv_cache s = C \<Longrightarrow> coord_step C str st (snd (Service_ReportCorruptReplica s i n detail clock st))"
| TriggerReconcile: "sv_cache s = C \<Longrightarrow> coord_step C str st (snd (Service_TriggerReconcile s n clock st))"
| CreateMultipartUpload: "sv_cache s = C \<Longrightarrow> coord_step C str st (snd (Service_CreateMultipartUpload s bureq newID clock st))"
| BeginPart: "sv_cache s = C \<Longrightarrow> coord_step C str st (snd (Service_BeginPart s i pn newID clock st))"
| CompletePart: "sv_cache s = C \<Longrightarrow> coord_step C str st (snd (Service_CompletePart s preq clock st))"
| CompleteMultipartUpload: "sv_cache s = C \<Longrightarrow> coord_step C str st (snd (Service_CompleteMultipartUpload s i expected newID token clock st))"
| AbortMultipartUpload: "sv_cache s = C \<Longrightarrow> coord_step C str st (snd (Service_AbortMultipartUpload s i clock st))"
| Rehydrate: "coord_step C str st (snd (Rehydrate clock st))"
| HealthTick: "sv_cache s = C \<Longrightarrow> coord_step C str st (health_tick s clock st)"
| Collect: "sv_cache s = C \<Longrightarrow> gc_cycle s gc nc gmsg cancelled clock (cn_db st) (cl :: cluster) = (e, db', cl') \<Longrightarrow> coord_step C str st (st\<lparr>cn_db := db'\<rparr>)"
| Audit: "coord_step C str st (st\<lparr>cn_db := snd (audit_tick (cn_db st))\<rparr>)"
| Scan: "coord_step C str st (st\<lparr>cn_db := scanOnce cfg clock (cn_db st)\<rparr>)"
| Repair: "sv_cache s = C \<Longrightarrow> claimAndRepair s cfg owner nc rmsg done_ctx clock st fl (cl :: cluster) = (r, st', fl', cl') \<Longrightarrow> coord_step C str st st'"
| SweepStale: "coord_step C str st (st\<lparr>cn_db := sweepStaleNodes clock (cn_db st)\<rparr>)"
| Reconcile: "sv_cache s = C \<Longrightarrow> runOne s qcfg owner nc qmsg done_ctx clock st (cl :: cluster) = (r, st', cl') \<Longrightarrow> coord_step C str st st'"
| Expire: "coord_step C str st (st\<lparr>cn_cache := snd (ca_Delete C ks (cn_cache st))\<rparr>)"

text \<open>The invariants of the store do not depend on the cache.\<close>

lemma coord_step_ok:
  assumes "coord_step C str st st'" and "store_ok (cn_db st)"
  shows "store_ok (cn_db st')"
  using assms(1)
proof cases
  case (CompleteUpload s ureq clock)
  show ?thesis unfolding CompleteUpload using assms(2) ok_objects(3) [OF assms(2)]
    by (auto simp: Service_CompleteUpload_def split: option.split prod.split sum.split) (metis snd_conv)+
next
  case (DeleteObject s bucket key clock)
  show ?thesis unfolding DeleteObject using assms(2) ok_objects(5) [OF assms(2)]
    by (auto simp: Service_DeleteObject_def split: option.split prod.split sum.split) (metis snd_conv)+
next
  case (CompleteMultipartUpload s i expected newID token clock)
  have "store_ok db'" if "CompleteMultipartUpload u ex n t (cn_db st1) = (r, db')" "loadUpload s u' st = (l, st1)" for u ex n t r db' u' st1 l
    using ok_multipart(4) [OF assms(2), of u ex n t] that(1) cn_db_reads_eq(2) [OF that(2)] by simp
  then show ?thesis unfolding CompleteMultipartUpload using assms(2)
    by (auto simp: Service_CompleteMultipartUpload_def Let_def split: option.split prod.split sum.split lock_reply.split dest: cn_db_reads_eq(2))
next
  case (GetObject s bucket key)
  then have "cn_db st' = cn_db st"
    by (auto simp: Service_GetObject_def Let_def split: option.split prod.split sum.split get_reply.split cache_value.split)
  then show ?thesis using assms(2) by simp
qed (use assms(2) in \<open>auto intro: handler_quiet [THEN unnoticedD(1)]\<close>)


context object_cache
begin

lemma coord_step_coherent:
  assumes step: "coord_step C str st st'" and coh: "coherent held str st"
  shows "coherent held str st'"
  using step
proof cases
  case (GetObject s bucket key)
  then show ?thesis using coherent_GetObject [OF coh, of s bucket key] by (metis prod.collapse)
next
  case (CompleteUpload s ureq clock)
  then show ?thesis using coherent_CompleteUpload [OF coh] by simp
next
  case (DeleteObject s bucket key clock)
  then show ?thesis using coherent_DeleteObject [OF coh] by simp
next
  case (CompleteMultipartUpload s i expected newID token clock)
  then show ?thesis using coherent_CompleteMultipartUpload [OF coh] by simp
next
  case (Repair s cfg owner nc rmsg done_ctx clock fl cl r fl' cl')
  show ?thesis by (rule coherent_calm [OF coh unnoticed_claimAndRepair [OF Repair(2)] calm_claimAndRepair [OF Repair(1,2)]])
next
  case (Reconcile s qcfg owner nc qmsg done_ctx clock cl r cl')
  show ?thesis by (rule coherent_calm [OF coh unnoticed_runOne [OF Reconcile(2)] calm_runOne [OF Reconcile(1,2)]])
next
  case (Collect s gc nc gmsg cancelled clock cl e db' cl')
  then show ?thesis using unnoticed_gc_cycle [OF Collect(3)] by (intro coherent_calm [OF coh]) simp_all
next
  case Audit
  then show ?thesis using unnoticed_audit by (intro coherent_calm [OF coh]) simp_all
next
  case (Scan cfg clock)
  then show ?thesis using unnoticed_scanOnce by (intro coherent_calm [OF coh]) simp_all
next
  case (SweepStale clock)
  then show ?thesis using unnoticed_sweepStaleNodes by (intro coherent_calm [OF coh]) simp_all
next
  case (Expire ks)
  then show ?thesis using calm_ops(2) [OF calm_refl] by (intro coherent_calm [OF coh]) simp_all
qed (auto intro!: coherent_calm [OF coh] handler_quiet calm_nodes calm_uploads calm_reports calm_multipart calm_health_tick)

lemma coord_run_coherent: "(coord_step C str)\<^sup>*\<^sup>* st0 st \<Longrightarrow> coherent held str st0 \<Longrightarrow> coherent held str st"
  by (induction rule: rtranclp_induct) (auto intro: coord_step_coherent)

end

interpretation noop_objects: object_cache Noop "\<lambda>c k. None"
  by unfold_locales (simp add: Noop_def)


section \<open>An example\<close>

text \<open>A cache that loses nothing, a service with one storage node, and the life of an object of one chunk.\<close>

definition ex_cache :: "(cache_value, (string \<times> cache_value) list) cache" where
  "ex_cache = \<lparr>
     ca_Get = (\<lambda>want k c. (case map_of c k of Some v \<Rightarrow> if want v then Hit v else ErrMiss | None \<Rightarrow> ErrMiss, c)),
     ca_Set = (\<lambda>k v ttl c. (True, AList.update k v c)),
     ca_Delete = (\<lambda>ks c. (True, fold AList.delete ks c)),
     ca_AcquireLock = (\<lambda>k ttl token c. (LockHeld token, c)),
     ca_release = (\<lambda>k token c. c)\<rparr>"

lemma map_of_fold_delete: "map_of (fold AList.delete ks c) = (\<lambda>k. if k \<in> set ks then None else map_of c k)"
  by (induction ks arbitrary: c) (auto simp: fun_eq_iff AList.delete_conv)

interpretation ex_objects: object_cache ex_cache map_of
  by unfold_locales (auto simp: ex_cache_def map_le_def map_of_fold_delete AList.update_conv split: option.splits if_splits)

definition ex_service :: "(string \<times> cache_value) list service" where
  "ex_service = \<lparr>
     sv_cfg = \<lparr>cf_ReplicationFactor = 1, cf_MinWriteReplicas = 1, cf_ChunkSize = 8, cf_HeartbeatInterval = 1, cf_UploadStaleAfter = 1,
       cf_NodeCallTimeout = 1, cf_NodeCacheTTL = 1, cf_ObjectCacheTTL = 1\<rparr>,
     sv_cache = ex_cache, sv_SelectNodes = (\<lambda>ns rq. Inr (take (nat (rq_Replicas rq)) ns)),
     sv_String = (\<lambda>u. decimal (unat u)), sv_Parse = (\<lambda>t. Some (of_nat (digits_value t))), sv_repair = None\<rparr>"

definition ex_st0 :: "(string \<times> cache_value) list coord" where
  "ex_st0 = \<lparr>cn_db = empty_db, cn_monitor = NewMonitor \<lparr>SuspectAfter = 5, DeadAfter = 10\<rparr>, cn_cache = []\<rparr>"

definition ex_stored :: "(string \<times> cache_value) list coord" where
  "ex_stored =
    (let clock = (\<lambda>i. 9);
         st1 = snd (Service_RegisterNode ex_service \<lparr>rn_NodeId = ''n1'', rn_GrpcAddress = ''a1'', rn_Stats = None\<rparr> clock ex_st0);
         st2 = snd (Service_BeginUpload ex_service \<lparr>bu_Bucket = ''bucket'', bu_Key = ''k'', bu_ContentType = [], bu_ChunkSize = 0\<rparr> 10 clock st1);
         st3 = snd (Service_AllocateChunk ex_service \<lparr>ac_ObjectId = ''10'', ac_PartId = [], ac_ChunkIndex = 0, ac_SizeBytes = 5\<rparr> 11 clock st2);
         st4 = snd (Service_CommitChunk ex_service \<lparr>cm_ChunkId = ''11'', cm_ChecksumSha256 = replicate 64 (CHR ''0''), cm_SizeBytes = 5,
                 cm_SucceededNodeIds = [''n1''], cm_FailedNodeIds = []\<rparr> clock st3);
         st5 = snd (Service_CompleteUpload ex_service \<lparr>cq_ObjectId = ''10'', cq_SizeBytes = 5, cq_ChunkCount = 1, cq_Etag = ''e''\<rparr> clock st4)
     in snd (Service_GetObject ex_service ''bucket'' ''k'' st5))"

lemma ex_service_simps: "sv_cache ex_service = ex_cache" "sv_String ex_service = (\<lambda>u. decimal (unat u))"
  by (simp_all add: ex_service_def)

lemma ex_run_stored: "(coord_step ex_cache (\<lambda>u. decimal (unat u)))\<^sup>*\<^sup>* ex_st0 ex_stored"
  unfolding ex_stored_def Let_def
  by (rule rtranclp.rtrancl_refl | rule rtranclp.rtrancl_into_rtrancl, rule_tac [2] coord_step.intros, simp_all only: ex_service_simps)+

lemma ok_empty: "store_ok empty_db"
  by (rule store_okI [OF wf_empty]) (simp_all add: tracked_def complete_ok_def empty_db_def)

lemma ex_st0_simps: "cn_db ex_st0 = empty_db" "cn_cache ex_st0 = []"
  by (simp_all add: ex_st0_def)

lemma ex_hit:
  "Service_GetObject ex_service ''bucket'' ''k'' ex_stored = (Inr (projr (fst (Service_GetObject ex_service ''bucket'' ''k'' ex_stored))), ex_stored)"
  by code_simp



end
