(* ===== verification/Retry.thy ===== *)
theory Retry
  imports Go_Float
begin

text \<open>
  \<^verbatim>\<open>internal/retry\<close>: bounded exponential backoff with jitter. The world around the loop (the context,
  the timer, the random source and the function that is retried) is a record of functions on a
  state \<open>'s\<close>, an argument of \<open>Do\<close>.
\<close>

section \<open>Delays\<close>

record Policy =
  po_MaxAttempts :: int
  po_BaseDelay :: duration
  po_MaxDelay :: duration
  po_Multiplier :: real
  po_Jitter :: real

definition DefaultPolicy :: Policy where
  "DefaultPolicy = \<lparr>po_MaxAttempts = 3, po_BaseDelay = 100 * 10 ^ 6, po_MaxDelay = 2 * 10 ^ 9, po_Multiplier = 2, po_Jitter = 1 / 5\<rparr>"

definition StartupPolicy :: Policy where
  "StartupPolicy = \<lparr>po_MaxAttempts = 30, po_BaseDelay = 250 * 10 ^ 6, po_MaxDelay = 3 * 10 ^ 9, po_Multiplier = 3 / 2, po_Jitter = 1 / 5\<rparr>"

text \<open>The delay before jitter, and the delay for the random number \<open>r\<close>.\<close>

definition base_delay :: "Policy \<Rightarrow> int \<Rightarrow> real" where
  "base_delay p attempt0 =
     (let attempt = (if attempt0 < 1 then 1 else attempt0);
          mult = (if po_Multiplier p \<le> 1 then 2 else po_Multiplier p);
          d = of_int (po_BaseDelay p) * mult ^ nat (attempt - 1)
      in if po_MaxDelay p > 0 \<and> d > of_int (po_MaxDelay p) then of_int (po_MaxDelay p) else d)"

definition Delay :: "Policy \<Rightarrow> real \<Rightarrow> int \<Rightarrow> duration" where
  "Delay p r attempt =
     (let d = base_delay p attempt;
          jit = (if po_Jitter p > 1 then 1 else po_Jitter p);
          d1 = (if po_Jitter p > 0 then d * (1 + jit * (2 * r - 1)) else d);
          d2 = (if d1 < 0 then 0 else d1)
      in int64_of_float d2)"

section \<open>The loop\<close>

text \<open>
  Errors: one made elsewhere, one marked permanent, and the two the loop makes. An error made
  elsewhere is taken not to wrap a permanent one. \<^verbatim>\<open>Aborted\<close> wraps two errors, and \<^verbatim>\<open>errors.Unwrap\<close>
  returns nil for such an error.
\<close>

datatype 'e err = Err 'e | Perm "'e err" | Aborted int "'e err" "'e err" | GivingUp int "'e err"

fun Permanent :: "'e err option \<Rightarrow> 'e err option" where
  "Permanent None = None"
| "Permanent (Some e) = Some (Perm e)"

fun IsPermanent :: "'e err \<Rightarrow> bool" where
  "IsPermanent (Err e) = False"
| "IsPermanent (Perm e) = True"
| "IsPermanent (Aborted n c l) = (IsPermanent c \<or> IsPermanent l)"
| "IsPermanent (GivingUp n e) = IsPermanent e"

fun Unwrap :: "'e err \<Rightarrow> 'e err option" where
  "Unwrap (Err e) = None"
| "Unwrap (Perm e) = Some e"
| "Unwrap (Aborted n c l) = None"
| "Unwrap (GivingUp n e) = Some e"

text \<open>
  \<^verbatim>\<open>ctx.Err()\<close>; a draw of the random source; waiting on the timer or the context, with the context's
  error if that was first.
\<close>

record ('s, 'e) world =
  ctx_err :: "'s \<Rightarrow> 'e err option"
  draw :: "'s \<Rightarrow> real \<times> 's"
  wait :: "duration \<Rightarrow> 's \<Rightarrow> 'e err option \<times> 's"

text \<open>\<open>do_loop w p fn k prev s\<close>: the attempt \<open>MaxAttempts - k\<close>, which \<open>k\<close> attempts may still follow.\<close>

fun do_loop ::
  "('s, 'e) world \<Rightarrow> Policy \<Rightarrow> (int \<Rightarrow> 's \<Rightarrow> 'e err option \<times> 's) \<Rightarrow> nat \<Rightarrow> 'e err option \<Rightarrow> 's \<Rightarrow> 'e err option \<times> 's"
where
  "do_loop w p fn k prev s =
     (let attempt = po_MaxAttempts p - int k in
      case ctx_err w s of
        Some err \<Rightarrow> (case prev of Some l \<Rightarrow> (Some (Aborted (attempt - 1) err l), s) | None \<Rightarrow> (Some err, s))
      | None \<Rightarrow>
        (case fn attempt s of
           (None, s1) \<Rightarrow> (None, s1)
         | (Some e, s1) \<Rightarrow>
             if IsPermanent e then (Unwrap e, s1)
             else (case k of
                     0 \<Rightarrow> (Some (GivingUp (po_MaxAttempts p) e), s1)
                   | Suc k' \<Rightarrow>
                       let (r, s2) = (if po_Jitter p > 0 then draw w s1 else (0, s1)) in
                       (case wait w (Delay p r attempt) s2 of
                          (Some err, s3) \<Rightarrow> (Some (Aborted attempt err e), s3)
                        | (None, s3) \<Rightarrow> do_loop w p fn k' (Some e) s3))))"

declare do_loop.simps [simp del]

lemmas do_loop_0 = do_loop.simps [of _ _ _ 0]
lemmas do_loop_Suc = do_loop.simps [of _ _ _ "Suc k" for k]

definition Do ::
  "('s, 'e) world \<Rightarrow> Policy \<Rightarrow> (int \<Rightarrow> 's \<Rightarrow> 'e err option \<times> 's) \<Rightarrow> 's \<Rightarrow> 'e err option \<times> 's"
where
  "Do w p0 fn s =
     (let p = (if po_MaxAttempts p0 < 1 then p0\<lparr>po_MaxAttempts := 1\<rparr> else p0)
      in do_loop w p fn (nat (po_MaxAttempts p - 1)) None s)"

section \<open>Properties\<close>



text \<open>Counting the calls of the retried function.\<close>

definition counted :: "(int \<Rightarrow> 's \<Rightarrow> 'e err option \<times> 's) \<Rightarrow> int \<Rightarrow> 's \<times> nat \<Rightarrow> 'e err option \<times> 's \<times> nat" where
  "counted fn a sn = (let (r, s') = fn a (fst sn) in (r, s', snd sn + 1))"

definition counted_world :: "('s, 'e) world \<Rightarrow> ('s \<times> nat, 'e) world" where
  "counted_world w = \<lparr>ctx_err = (\<lambda>sn. ctx_err w (fst sn)),
     draw = (\<lambda>sn. let (r, s') = draw w (fst sn) in (r, s', snd sn)),
     wait = (\<lambda>d sn. let (e, s') = wait w d (fst sn) in (e, s', snd sn))\<rparr>"

lemma counted_simps [simp]:
  "counted fn a (s, n) = (fst (fn a s), snd (fn a s), Suc n)"
  "ctx_err (counted_world w) (s, n) = ctx_err w s"
  "draw (counted_world w) (s, n) = (fst (draw w s), snd (draw w s), n)"
  "wait (counted_world w) d (s, n) = (fst (wait w d s), snd (wait w d s), n)"
  by (simp_all add: counted_def counted_world_def split: prod.splits)

lemma do_loop_counted:
  "do_loop (counted_world w) p (counted fn) k prev (s, n) = (res, s', n') \<Longrightarrow>
     do_loop w p fn k prev s = (res, s') \<and> n' \<le> n + Suc k"
proof (induction k arbitrary: prev s n)
  case 0
  then show ?case
    by (auto simp: do_loop_0 Let_def split: option.splits prod.splits if_splits)
next
  case (Suc k)
  show ?case
  proof (cases "\<exists>e s1 r s2 s3. ctx_err w s = None \<and> fn (po_MaxAttempts p - int (Suc k)) s = (Some e, s1) \<and> \<not> IsPermanent e
      \<and> (if po_Jitter p > 0 then draw w s1 else (0, s1)) = (r, s2)
      \<and> wait w (Delay p r (po_MaxAttempts p - int (Suc k))) s2 = (None, s3)")
    case True
    then obtain e s1 r s2 s3 where "ctx_err w s = None" "fn (po_MaxAttempts p - int (Suc k)) s = (Some e, s1)" "\<not> IsPermanent e"
      "(if po_Jitter p > 0 then draw w s1 else (0, s1)) = (r, s2)"
      "wait w (Delay p r (po_MaxAttempts p - int (Suc k))) s2 = (None, s3)" by blast
    then have "do_loop (counted_world w) p (counted fn) k (Some e) (s3, Suc n) = (res, s', n')"
      and "do_loop w p fn (Suc k) prev s = do_loop w p fn k (Some e) s3"
      using Suc.prems
      by (simp_all add: do_loop_Suc Let_def split: prod.splits if_splits)
    then show ?thesis using Suc.IH [of "Some e" s3 "Suc n"] by simp
  next
    case False
    then show ?thesis
      using Suc.prems
      by (auto simp: do_loop_Suc Let_def split: option.splits prod.splits if_splits)
  qed
qed

text \<open>
  C38 (retries are bounded). The retried function is called at most \<^verbatim>\<open>MaxAttempts\<close> times (once if
  that is less than 1), whatever it returns and whatever the context, the timer and the random
  source do; counting the calls does not change the outcome.
\<close>

theorem retry_bounded:
  assumes "Do (counted_world w) p (counted fn) (s, 0) = (res, s', n)"
  shows "Do w p fn s = (res, s') \<and> int n \<le> max 1 (po_MaxAttempts p)"
proof -
  let ?p = "if po_MaxAttempts p < 1 then p\<lparr>po_MaxAttempts := 1\<rparr> else p"
  have "do_loop w ?p fn (nat (po_MaxAttempts ?p - 1)) None s = (res, s') \<and> n \<le> 0 + Suc (nat (po_MaxAttempts ?p - 1))"
    by (rule do_loop_counted) (use assms in \<open>simp add: Do_def Let_def\<close>)
  then show ?thesis by (auto simp: Do_def Let_def split: if_splits)
qed

text \<open>A world that never interrupts, and a function that fails twice.\<close>

definition calm :: "('s, 'e) world" where
  "calm = \<lparr>ctx_err = (\<lambda>s. None), draw = (\<lambda>s. (0, s)), wait = (\<lambda>d s. (None, s))\<rparr>"

lemma retry_bounded_witness:
  "\<exists>n. Do (counted_world calm) DefaultPolicy (counted (\<lambda>a s. (if a < 3 then Some (Err ''down'') else None, s))) ((), 0) = (None, (), n)
     \<and> n \<le> 3"
proof -
  let ?f = "\<lambda>a s. (if a < 3 then Some (Err ''down'') else None, s :: unit)"
  have "Do (counted_world calm) DefaultPolicy (counted ?f) ((), 0) = (None, (), 3)"
    by (simp add: Do_def DefaultPolicy_def numeral_2_eq_2 do_loop_0 do_loop_Suc calm_def counted_world_def counted_def)
  then show ?thesis using retry_bounded [of calm DefaultPolicy ?f "()" None "()" 3] by (auto simp: DefaultPolicy_def)
qed

definition simple_err :: "'e err \<Rightarrow> bool" where
  "simple_err e \<longleftrightarrow> (\<exists>x. e = Err x \<or> e = Perm (Err x))"

lemma do_loop_verdict:
  assumes fn: "\<forall>a s e s'. fn a s = (Some e, s') \<longrightarrow> simple_err e"
    and ctx: "\<forall>s e. ctx_err w s = Some e \<longrightarrow> (\<exists>x. e = Err x)"
    and "do_loop w p fn k prev s = (res, s')"
  shows "case res of
      None \<Rightarrow> \<exists>a s0. po_MaxAttempts p - int k \<le> a \<and> a \<le> po_MaxAttempts p \<and> fn a s0 = (None, s')
    | Some (GivingUp n e) \<Rightarrow> n = po_MaxAttempts p \<and> (\<exists>s0. fn n s0 = (Some e, s')) \<and> \<not> IsPermanent e
    | Some (Perm e) \<Rightarrow> False
    | _ \<Rightarrow> True"
  using assms(3)
proof (induction k arbitrary: prev s)
  case 0
  obtain r s1 where f: "fn (po_MaxAttempts p) s = (r, s1)" by (metis surj_pair)
  show ?case
  proof (cases "ctx_err w s")
    case None
    show ?thesis
    proof (cases r)
      case None
      then show ?thesis using 0 f \<open>ctx_err w s = None\<close> by (auto simp: do_loop_0)
    next
      case (Some e)
      then obtain x where "e = Err x \<or> e = Perm (Err x)" using fn f unfolding simple_err_def by blast
      then show ?thesis using 0 f Some None by (elim disjE) (auto simp: do_loop_0 intro!: exI [of _ s])
    qed
  next
    case (Some c)
    then obtain x where "c = Err x" using ctx by blast
    then show ?thesis using 0 Some by (auto simp: do_loop_0 split: option.splits)
  qed
next
  case (Suc k)
  let ?a = "po_MaxAttempts p - int (Suc k)"
  obtain r s1 where f: "fn ?a s = (r, s1)" by (metis surj_pair)
  show ?case
  proof (cases "ctx_err w s")
    case c: None
    show ?thesis
    proof (cases r)
      case None
      then have "res = None" "fn ?a s = (None, s')" using Suc.prems f c by (simp_all add: do_loop_Suc)
      then show ?thesis by (auto intro!: exI [of _ ?a])
    next
      case (Some e)
      then obtain x where e: "e = Err x \<or> e = Perm (Err x)" using fn f unfolding simple_err_def by blast
      obtain d s2 where d: "(if po_Jitter p > 0 then draw w s1 else (0, s1)) = (d, s2)" by (metis surj_pair)
      obtain i s3 where i: "wait w (Delay p d ?a) s2 = (i, s3)" by (metis surj_pair)
      show ?thesis
      proof (cases "e = Err x \<and> i = None")
        case True
        then have "do_loop w p fn k (Some e) s3 = (res, s')"
          using Suc.prems c f Some d i by (simp add: do_loop_Suc)
        from Suc.IH [OF this] show ?thesis
        proof (cases res)
          case None
          with Suc.IH [OF \<open>do_loop w p fn k (Some e) s3 = (res, s')\<close>] obtain a s0
            where "po_MaxAttempts p - int k \<le> a" "a \<le> po_MaxAttempts p" "fn a s0 = (None, s')" by auto
          then show ?thesis using None by (auto intro!: exI [of _ a])
        qed (simp split: err.splits)
      qed (use e Suc.prems c f Some d i in \<open>auto simp: do_loop_Suc split: option.splits\<close>)
    qed
  next
    case (Some c)
    then obtain x where "c = Err x" using ctx by blast
    then show ?thesis using Suc.prems Some by (auto simp: do_loop_Suc split: option.splits)
  qed
qed



end
