(* ===== verification/Spec2Isabelle.thy ===== *)
theory Spec2Isabelle
  imports Coordinator_Cache Retry Ranges
begin

text \<open>
  A verification development of FlexStore, a distributed object store in Go: gateways split objects
  into chunks, storage nodes hold replicas of them, and a coordinator owns the metadata in
  PostgreSQL, watches the nodes and repairs what they lose.

  \<^item> \<open>Flex_Prelude\<close>: shared types, 64-bit arithmetic, SQL statements as list functions.
  \<^item> \<open>Chunking\<close> (\<^verbatim>\<open>internal/chunking\<close>): the splitter; splitting loses and reorders nothing.
  \<^item> \<open>Health\<close> (\<^verbatim>\<open>internal/health\<close>): the node monitor; sweeps are exact and monotone.
  \<^item> \<open>Metadata_State\<close>, \<open>Metadata_Invariant\<close> (\<^verbatim>\<open>migrations\<close>, \<^verbatim>\<open>internal/metadata\<close>): the database, its
    constraints, the durability trigger, and the invariant \<open>wf_db\<close>.
  \<^item> \<open>Checksum\<close> (\<^verbatim>\<open>internal/checksum\<close>): SHA-256, streaming and comparison; \<open>Go_Strings\<close>: the string functions.
  \<^item> \<open>Metadata_Nodes\<close>, \<open>Metadata_Chunks\<close>, \<open>Metadata_Objects\<close>, \<open>Metadata_Multipart\<close>, \<open>Metadata_Repair\<close>,
    \<open>Metadata_GC\<close>, \<open>Metadata_Reconcile\<close>: the Store's methods; \<open>Job_Queue\<close>: the contract of a leased queue;
    \<open>Metadata_Store\<close>: the store as a state machine and its invariants.
  \<^item> \<open>Placement\<close> (\<^verbatim>\<open>internal/placement\<close>): the weighted and the rendezvous strategy and the contract they share;
    \<open>Go_Float\<close>: conversion between \<^verbatim>\<open>float64\<close>, modelled by real numbers, and \<^verbatim>\<open>int64\<close>.
  \<^item> \<open>Disk\<close>: names, inodes and what survives a power failure; \<open>Chunk_Store\<close> (\<^verbatim>\<open>internal/storage/chunkstore.go\<close>):
    the chunk files of a node, each write as a list of file operations; \<open>Chunk_Durability\<close>: crash safety,
    durability, the store as a map (the contract \<open>chunk_holder\<close>), the inventory and startup.
  \<^item> \<open>Storage_Service\<close> (\<^verbatim>\<open>internal/storage/service.go\<close>): the handlers of a storage node.
  \<^item> \<open>Chunk_Transfer\<close> (\<^verbatim>\<open>internal/gateway/chunkwriter.go\<close>, \<^verbatim>\<open>chunkreader.go\<close>): the fan-out of a chunk to its
    replicas and the verified read from one of them.
  \<^item> \<open>Retry\<close> (\<^verbatim>\<open>internal/retry\<close>): delays, permanent errors and the retry loop, which ends.
  \<^item> \<open>Ranges\<close> (\<^verbatim>\<open>internal/gateway/rangereq.go\<close>): range headers and the chunk slices that serve them.
\<close>

end
